(* ===== verification/HPK_Prelude.thy ===== *)
theory HPK_Prelude
  imports Main "HOL-Library.Sublist" "HOL-Library.AList" "HOL-Library.Char_ord"
    "HOL-Library.List_Lexorder"
begin

text \<open>
  Shared vocabulary of the development. A Go \<open>string\<close> is a sequence of bytes, so it is a
  \<^typ>\<open>string\<close> here (a list of 8-bit characters), and Go's \<open><\<close> on strings and
  \<open>sort.Strings\<close> are the lexicographic order of \<open>List_Lexorder\<close>. This theory holds the
  functions of Go's packages \<open>strings\<close> and \<open>strconv\<close> that the sources call, the error values,
  the outcome type of functions that may panic, and the list and association-list lemmas that the
  components share. The collection \<open>go_simps\<close> gathers the rewrite rules of these functions.
\<close>

named_theorems go_simps \<open>rewrite rules for the Go library functions\<close>

subsection \<open>Errors and outcomes\<close>

text \<open>
  The error classes that the sources distinguish with \<open>errors.Is\<close> and \<open>os.IsNotExist\<close>; every
  other error carries its text. \<open>Wrapped\<close> is \<open>errors.Wrapf\<close>: it keeps the cause.
\<close>

datatype errno = ENOENT | EEXIST | ENOTDIR | EISDIR | ENOTEMPTY | ELOOP | EACCES | EIO | EINVAL

datatype go_error =
    OsError errno string
  | Sentinel string
  | Message string
  | ExitError string
  | Wrapped go_error string

fun error_cause :: "go_error \<Rightarrow> go_error" where
  "error_cause (Wrapped e m) = error_cause e"
| "error_cause e = e"

definition errors_Is_errno :: "go_error \<Rightarrow> errno \<Rightarrow> bool" where
  "errors_Is_errno e c = (case error_cause e of OsError c' _ \<Rightarrow> c' = c | _ \<Rightarrow> False)"

definition errors_Is_sentinel :: "go_error \<Rightarrow> string \<Rightarrow> bool" where
  "errors_Is_sentinel e s = (case error_cause e of Sentinel s' \<Rightarrow> s' = s | _ \<Rightarrow> False)"

text \<open>
  \<open>os.IsNotExist\<close> looks at the error itself and does not unwrap it.
\<close>

fun os_IsNotExist :: "go_error \<Rightarrow> bool" where
  "os_IsNotExist (OsError c _) = (c = ENOENT)"
| "os_IsNotExist _ = False"

fun os_IsExist :: "go_error \<Rightarrow> bool" where
  "os_IsExist (OsError c _) = (c = EEXIST \<or> c = ENOTEMPTY)"
| "os_IsExist _ = False"

lemma errors_Is_errno_simps [simp, go_simps]:
  "errors_Is_errno (OsError c m) c' \<longleftrightarrow> c = c'"
  "errors_Is_errno (Wrapped e m) c' \<longleftrightarrow> errors_Is_errno e c'"
  "\<not> errors_Is_errno (Sentinel s) c'"
  "\<not> errors_Is_errno (Message s) c'"
  "\<not> errors_Is_errno (ExitError s) c'"
  by (auto simp: errors_Is_errno_def)

lemma errors_Is_sentinel_simps [simp, go_simps]:
  "errors_Is_sentinel (Sentinel s) s' \<longleftrightarrow> s = s'"
  "errors_Is_sentinel (Wrapped e m) s' \<longleftrightarrow> errors_Is_sentinel e s'"
  "\<not> errors_Is_sentinel (OsError c m) s'"
  "\<not> errors_Is_sentinel (Message m) s'"
  "\<not> errors_Is_sentinel (ExitError m) s'"
  by (auto simp: errors_Is_sentinel_def)

text \<open>A call that may panic either returns a value or ends in a panic with its text.\<close>

datatype 'a outcome = Ret 'a | Panic string

fun bind_outcome :: "'a outcome \<Rightarrow> ('a \<Rightarrow> 'b outcome) \<Rightarrow> 'b outcome" where
  "bind_outcome (Ret a) f = f a"
| "bind_outcome (Panic m) f = Panic m"

lemma bind_outcome_Ret_iff [simp]:
  "bind_outcome m f = Ret b \<longleftrightarrow> (\<exists>a. m = Ret a \<and> f a = Ret b)"
  by (cases m) auto

text \<open>For long chains of calls: the intermediate results as new names (the rewrite rule above taken out).\<close>

lemma bind_RetE:
  assumes "bind_outcome m f = Ret b"
  obtains a where "m = Ret a" "f a = Ret b"
  using assms by auto

lemma bind_outcome_Panic_iff:
  "bind_outcome m f = Panic s \<longleftrightarrow> m = Panic s \<or> (\<exists>a. m = Ret a \<and> f a = Panic s)"
  by (cases m) auto

subsection \<open>Lists and association lists\<close>

lemma map_of_filter_keys [simp]:
  "map_of (filter (\<lambda>(k, v). P k) al) k = (if P k then map_of al k else None)"
  by (induction al) auto

lemma map_of_map_keep:
  "map_of (map (\<lambda>(k, v). (k, f k v)) al) k = map_option (f k) (map_of al k)"
  by (induction al) auto

lemma distinct_fst_filter: "distinct (map fst al) \<Longrightarrow> distinct (map fst (filter P al))"
  by (induction al) auto

lemma keys_filter: "fst ` set (filter (\<lambda>(k, v). P k) al) = {k \<in> fst ` set al. P k}"
  by force

lemma append_eq_same_length:
  "length xs = length xs' \<Longrightarrow> xs @ ys = xs' @ ys' \<longleftrightarrow> xs = xs' \<and> ys = ys'"
  by auto

subsection \<open>Package strings\<close>

definition strings_HasPrefix :: "string \<Rightarrow> string \<Rightarrow> bool" where
  "strings_HasPrefix s p = prefix p s"

definition strings_HasSuffix :: "string \<Rightarrow> string \<Rightarrow> bool" where
  "strings_HasSuffix s p = suffix p s"

definition strings_TrimPrefix :: "string \<Rightarrow> string \<Rightarrow> string" where
  "strings_TrimPrefix s p = (if prefix p s then drop (length p) s else s)"

definition strings_TrimSuffix :: "string \<Rightarrow> string \<Rightarrow> string" where
  "strings_TrimSuffix s p = (if suffix p s then take (length s - length p) s else s)"

text \<open>\<open>strings.Index\<close>: the position of the first occurrence, \<open>None\<close> for Go's \<open>-1\<close>.\<close>

fun strings_Index :: "string \<Rightarrow> string \<Rightarrow> nat option" where
  "strings_Index [] p = (if p = [] then Some 0 else None)"
| "strings_Index (c # s) p =
     (if prefix p (c # s) then Some 0 else map_option Suc (strings_Index s p))"

definition strings_Contains :: "string \<Rightarrow> string \<Rightarrow> bool" where
  "strings_Contains s p = (strings_Index s p \<noteq> None)"

text \<open>\<open>strings.Split\<close> with a one-byte separator.\<close>

fun split_char :: "char \<Rightarrow> string \<Rightarrow> string list" where
  "split_char c [] = [[]]"
| "split_char c (x # xs) =
     (if x = c then [] # split_char c xs
      else case split_char c xs of [] \<Rightarrow> [[x]] | y # ys \<Rightarrow> (x # y) # ys)"

lemma strings_Index_bound: "strings_Index s p = Some i \<Longrightarrow> i + length p \<le> length s"
  by (induction s p arbitrary: i rule: strings_Index.induct)
    (auto split: if_splits dest: prefix_length_le)

text \<open>\<open>strings.Split\<close> with a separator of two bytes or more.\<close>

function strings_Split :: "string \<Rightarrow> string \<Rightarrow> string list" where
  "strings_Split s sep =
     (case strings_Index s sep of
        None \<Rightarrow> [s]
      | Some i \<Rightarrow>
          if sep = [] then [s]
          else take i s # strings_Split (drop (i + length sep) s) sep)"
  by pat_completeness auto

termination
proof (relation "measure (\<lambda>(s, sep). length s)")
  fix s sep :: string and i
  assume i: "strings_Index s sep = Some i" and "sep \<noteq> []"
  then have "0 < length sep" and "i + length sep \<le> length s"
    using strings_Index_bound [OF i] by auto
  then have "length s - (i + length sep) < length s" by arith
  then show "((drop (i + length sep) s, sep), (s, sep)) \<in> measure (\<lambda>(s, sep). length s)"
    by simp
qed simp

declare strings_Split.simps [simp del]

text \<open>\<open>strings.SplitN(s, sep, 2)\<close>.\<close>

definition strings_SplitN2 :: "string \<Rightarrow> string \<Rightarrow> string list" where
  "strings_SplitN2 s sep =
     (case strings_Index s sep of
        None \<Rightarrow> [s]
      | Some i \<Rightarrow> [take i s, drop (i + length sep) s])"

fun strings_Join :: "string list \<Rightarrow> string \<Rightarrow> string" where
  "strings_Join [] sep = []"
| "strings_Join [s] sep = s"
| "strings_Join (s # t # ss) sep = s @ sep @ strings_Join (t # ss) sep"

definition strings_Count :: "string \<Rightarrow> char \<Rightarrow> nat" where
  "strings_Count s c = count_list s c"

text \<open>\<open>strings.ReplaceAll\<close>, and \<open>strings.Replace\<close> with \<open>n = -1\<close>, for a non-empty old string.\<close>

definition strings_ReplaceAll :: "string \<Rightarrow> string \<Rightarrow> string \<Rightarrow> string" where
  "strings_ReplaceAll s old new = strings_Join (strings_Split s old) new"

text \<open>
  \<open>strings.ToUpper\<close> and \<open>strings.ToLower\<close> on ASCII text, which the names of services, ports and
  protocols are.
\<close>

definition char_upper :: "char \<Rightarrow> char" where
  "char_upper c =
     (let n = of_char c :: nat in if 97 \<le> n \<and> n \<le> 122 then char_of (n - 32) else c)"

definition char_lower :: "char \<Rightarrow> char" where
  "char_lower c =
     (let n = of_char c :: nat in if 65 \<le> n \<and> n \<le> 90 then char_of (n + 32) else c)"

definition strings_ToUpper :: "string \<Rightarrow> string" where
  "strings_ToUpper s = map char_upper s"

definition strings_ToLower :: "string \<Rightarrow> string" where
  "strings_ToLower s = map char_lower s"


lemma split_char_not_Nil [simp]: "split_char c s \<noteq> []"
  by (cases s) (auto split: list.splits)

lemma split_char_none [go_simps]: "c \<notin> set s \<Longrightarrow> split_char c s = [s]"
  by (induction s) auto

lemma split_char_append [go_simps]:
  "split_char c (a @ c # b) = split_char c a @ split_char c b"
proof (induction a)
  case (Cons x a)
  then show ?case by (cases "split_char c a") auto
qed simp

lemma split_char_elem: "x \<in> set (split_char c s) \<Longrightarrow> c \<notin> set x"
proof (induction s arbitrary: x)
  case (Cons y ys)
  then show ?case
    by (cases "split_char c ys") (auto split: if_splits)
qed simp

lemma split_char_subset: "x \<in> set (split_char c s) \<Longrightarrow> set x \<subseteq> set s"
proof (induction s arbitrary: x)
  case (Cons y ys)
  then show ?case
    by (cases "split_char c ys") (fastforce split: if_splits)+
qed simp

lemma strings_Join_Cons: "xs \<noteq> [] \<Longrightarrow> strings_Join (x # xs) sep = x @ sep @ strings_Join xs sep"
  by (cases xs) auto

lemma strings_Join_append:
  "xs \<noteq> [] \<Longrightarrow> ys \<noteq> [] \<Longrightarrow>
   strings_Join (xs @ ys) sep = strings_Join xs sep @ sep @ strings_Join ys sep"
proof (induction xs)
  case (Cons x xs)
  then show ?case by (cases xs) (auto simp: strings_Join_Cons)
qed simp

lemma Join_split_char: "strings_Join (split_char c s) [c] = s"
proof (induction s)
  case (Cons x xs)
  then show ?case
    by (cases "split_char c xs"; cases "tl (split_char c xs)") (auto simp: strings_Join_Cons)
qed simp

lemma split_char_Join:
  "xs \<noteq> [] \<Longrightarrow> (\<And>x. x \<in> set xs \<Longrightarrow> c \<notin> set x) \<Longrightarrow> split_char c (strings_Join xs [c]) = xs"
proof (induction xs)
  case (Cons x xs)
  then show ?case
    by (cases xs) (auto simp: split_char_none split_char_append)
qed simp

lemma TrimPrefix_append [simp, go_simps]: "strings_TrimPrefix (p @ s) p = s"
  by (simp add: strings_TrimPrefix_def)

lemma TrimSuffix_append [simp, go_simps]: "strings_TrimSuffix (s @ p) p = s"
  by (simp add: strings_TrimSuffix_def suffix_def)

lemma HasPrefix_append [simp, go_simps]: "strings_HasPrefix (p @ s) p"
  by (simp add: strings_HasPrefix_def)

lemma strings_Index_None: "strings_Index s p = None \<Longrightarrow> s \<noteq> a @ p @ b"
proof (induction s p arbitrary: a rule: strings_Index.induct)
  case (2 c s p)
  then have "\<not> prefix p (c # s)" and "strings_Index s p = None"
    by (auto split: if_splits)
  with 2 show ?case by (cases a) (auto simp: prefix_def split: if_splits)
qed (auto split: if_splits)

lemma strings_Index_Some:
  "strings_Index s p = Some i \<Longrightarrow> s = take i s @ p @ drop (i + length p) s"
proof (induction s p arbitrary: i rule: strings_Index.induct)
  case (2 c s p)
  show ?case
  proof (cases "prefix p (c # s)")
    case True
    with 2 show ?thesis by (auto simp: prefix_def)
  next
    case False
    with 2 obtain j where j: "i = Suc j" "strings_Index s p = Some j" by auto
    with 2 False show ?thesis by simp
  qed
qed (auto split: if_splits)

lemma strings_Index_first:
  "strings_Index s p = Some i \<Longrightarrow> s = a @ p @ b \<Longrightarrow> i \<le> length a"
proof (induction s p arbitrary: i a rule: strings_Index.induct)
  case (2 c s p)
  show ?case
  proof (cases a)
    case Nil
    with 2 have "prefix p (c # s)" by (simp add: prefix_def)
    then have "strings_Index (c # s) p = Some 0" by simp
    with "2.prems"(1) show ?thesis by (simp only: option.inject)
  next
    case (Cons d ds)
    with 2 show ?thesis by (auto split: if_splits)
  qed
qed (auto split: if_splits)

lemma strings_Contains_iff: "strings_Contains s p \<longleftrightarrow> (\<exists>a b. s = a @ p @ b)"
  unfolding strings_Contains_def
  using strings_Index_None strings_Index_Some by blast

text \<open>Characters that are not letters are not changed by the case mappings.\<close>

lemma strings_ToUpper_append [simp]:
  "strings_ToUpper (a @ b) = strings_ToUpper a @ strings_ToUpper b"
  by (simp add: strings_ToUpper_def)

subsection \<open>Package strconv\<close>

text \<open>\<open>strconv.Itoa\<close> and \<open>strconv.Atoi\<close>; an \<open>int\<close> has 64 bits on the targets of HPK.\<close>

definition digit_char :: "nat \<Rightarrow> char" where
  "digit_char d = char_of (48 + d)"

fun nat_digits :: "nat \<Rightarrow> string" where
  "nat_digits n = (if n < 10 then [digit_char n] else nat_digits (n div 10) @ [digit_char (n mod 10)])"

declare nat_digits.simps [simp del]

definition strconv_Itoa :: "int \<Rightarrow> string" where
  "strconv_Itoa i = (if i < 0 then ''-'' @ nat_digits (nat (- i)) else nat_digits (nat i))"

definition is_digit :: "char \<Rightarrow> bool" where
  "is_digit c = (let n = of_char c :: nat in 48 \<le> n \<and> n \<le> 57)"

definition digit_val :: "char \<Rightarrow> nat" where
  "digit_val c = (of_char c :: nat) - 48"

definition digits_val :: "string \<Rightarrow> nat" where
  "digits_val s = foldl (\<lambda>n c. 10 * n + digit_val c) 0 s"

definition in_int64 :: "int \<Rightarrow> bool" where
  "in_int64 i = (- (2 ^ 63) \<le> i \<and> i < 2 ^ 63)"

definition strconv_Atoi :: "string \<Rightarrow> int option" where
  "strconv_Atoi s =
     (let (neg, ds) =
        (case s of
           [] \<Rightarrow> (False, [])
         | c # cs \<Rightarrow>
             if c = CHR ''-'' then (True, cs) else if c = CHR ''+'' then (False, cs)
             else (False, s))
      in if ds = [] \<or> \<not> list_all is_digit ds then None
         else let v = (if neg then - int (digits_val ds) else int (digits_val ds))
              in if in_int64 v then Some v else None)"

lemma of_digit_char: "d < 10 \<Longrightarrow> of_char (digit_char d) = (48 + d :: nat)"
  by (simp add: digit_char_def)

lemma is_digit_digit_char [simp]: "d < 10 \<Longrightarrow> is_digit (digit_char d)"
  by (simp add: is_digit_def of_digit_char)

lemma digit_val_digit_char [simp]: "d < 10 \<Longrightarrow> digit_val (digit_char d) = d"
  by (simp add: digit_val_def of_digit_char)

lemma nat_digits_not_Nil [simp]: "nat_digits n \<noteq> []"
  by (subst nat_digits.simps) simp

lemma nat_digits_all_digits: "list_all is_digit (nat_digits n)"
proof (induction n rule: nat_digits.induct)
  case (1 n)
  then show ?case by (subst nat_digits.simps) auto
qed

lemma digits_val_snoc: "digits_val (s @ [c]) = 10 * digits_val s + digit_val c"
  by (simp add: digits_val_def)

lemma digits_val_nat_digits [simp]: "digits_val (nat_digits n) = n"
proof (induction n rule: nat_digits.induct)
  case (1 n)
  then show ?case
    by (subst nat_digits.simps) (auto simp: digits_val_snoc digits_val_def)
qed

lemma is_digit_not_sign: "is_digit c \<Longrightarrow> c \<noteq> CHR ''-'' \<and> c \<noteq> CHR ''+''"
  by (auto simp: is_digit_def)

lemma nat_digits_Cons:
  obtains c cs where "nat_digits n = c # cs" "is_digit c"
  using nat_digits_all_digits [of n] nat_digits_not_Nil [of n]
  by (cases "nat_digits n") auto

text \<open>Printing and reading back gives the number, for every 64-bit value.\<close>

lemma Atoi_Itoa [simp, go_simps]: "in_int64 i \<Longrightarrow> strconv_Atoi (strconv_Itoa i) = Some i"
proof (cases "i < 0")
  case True
  moreover assume "in_int64 i"
  ultimately show ?thesis
    using nat_digits_all_digits [of "nat (- i)"]
    by (simp add: strconv_Atoi_def strconv_Itoa_def Let_def)
next
  case False
  moreover assume "in_int64 i"
  moreover obtain c cs where "nat_digits (nat i) = c # cs" "is_digit c"
    by (rule nat_digits_Cons)
  moreover have "list_all is_digit (nat_digits (nat i))"
    by (rule nat_digits_all_digits)
  ultimately show ?thesis
    using digits_val_nat_digits [of "nat i"] is_digit_not_sign [of c]
    by (auto simp: strconv_Atoi_def strconv_Itoa_def Let_def)
qed

lemma Itoa_not_Nil [simp]: "strconv_Itoa i \<noteq> []"
  by (simp add: strconv_Itoa_def)

lemma append_sep_eq_iff:
  assumes "c \<notin> set xs" and "c \<notin> set xs'"
  shows "xs @ c # ys = xs' @ c # ys' \<longleftrightarrow> xs = xs' \<and> ys = ys'"
  using assms
proof (induction xs arbitrary: xs')
  case Nil
  then show ?case by (cases xs') auto
next
  case (Cons x xs)
  then show ?case by (cases xs') auto
qed

subsection \<open>Step relations\<close>

text \<open>
  The contract of a system that takes steps: what holds in a starting state and is kept by every step
  holds in every state of every run.
\<close>

locale step_invariant =
  fixes start :: "'s \<Rightarrow> bool" and step :: "'s \<Rightarrow> 's \<Rightarrow> bool" and inv :: "'s \<Rightarrow> bool"
  assumes inv_start: "start s \<Longrightarrow> inv s"
    and inv_step: "step s s' \<Longrightarrow> inv s \<Longrightarrow> inv s'"
begin

lemma inv_steps: "step\<^sup>*\<^sup>* s s' \<Longrightarrow> inv s \<Longrightarrow> inv s'"
  by (induction rule: rtranclp_induct) (auto intro: inv_step)

lemma inv_run: "start s \<Longrightarrow> step\<^sup>*\<^sup>* s s' \<Longrightarrow> inv s'"
  by (blast intro: inv_steps inv_start)

end

end
