(* ===== verification/HPK_Path.thy ===== *)
theory HPK_Path
  imports HPK_Prelude
begin

text \<open>
  Go's package \<open>path/filepath\<close> on Unix: \<open>Clean\<close>, \<open>Join\<close>, \<open>Dir\<close>, \<open>Base\<close>, \<open>Ext\<close>, \<open>Split\<close> and
  \<open>IsAbs\<close>, as functions on strings. \<open>Clean\<close> is written over the list of the path's elements
  instead of Go's byte buffer. The lemmas relate the strings to lists of names: on clean absolute
  paths (\<open>abs_path ns\<close> with every name of \<open>ns\<close> plain) joining is list append, so the
  components reason about lists of names and not about slashes.
\<close>

subsection \<open>The functions\<close>

abbreviation slash :: char where
  "slash \<equiv> CHR ''/''"

text \<open>One element of the path, as \<open>Clean\<close> processes it; \<open>out\<close> is what it has written so far.\<close>

definition clean_step :: "bool \<Rightarrow> string list \<Rightarrow> string \<Rightarrow> string list" where
  "clean_step rooted out c =
     (if c = [] \<or> c = ''.'' then out
      else if c = ''..'' then
        (if out \<noteq> [] \<and> last out \<noteq> ''..'' then butlast out
         else if rooted then out else out @ [''..''])
      else out @ [c])"

definition clean_elems :: "bool \<Rightarrow> string list \<Rightarrow> string list" where
  "clean_elems rooted cs = foldl (clean_step rooted) [] cs"

definition filepath_IsAbs :: "string \<Rightarrow> bool" where
  "filepath_IsAbs s = prefix [slash] s"

definition filepath_Clean :: "string \<Rightarrow> string" where
  "filepath_Clean s =
     (if s = [] then ''.''
      else let rooted = filepath_IsAbs s;
               out = strings_Join (clean_elems rooted (split_char slash s)) [slash]
           in if rooted then slash # out else if out = [] then ''.'' else out)"

definition filepath_Join :: "string list \<Rightarrow> string" where
  "filepath_Join elem =
     (case dropWhile (\<lambda>e. e = []) elem of
        [] \<Rightarrow> []
      | es \<Rightarrow> filepath_Clean (strings_Join es [slash]))"

definition filepath_Split :: "string \<Rightarrow> string \<times> string" where
  "filepath_Split s =
     (let file = rev (takeWhile (\<lambda>c. c \<noteq> slash) (rev s))
      in (take (length s - length file) s, file))"

definition filepath_Dir :: "string \<Rightarrow> string" where
  "filepath_Dir s = filepath_Clean (fst (filepath_Split s))"

definition filepath_Base :: "string \<Rightarrow> string" where
  "filepath_Base s =
     (if s = [] then ''.''
      else let t = rev (dropWhile (\<lambda>c. c = slash) (rev s))
           in if t = [] then [slash] else snd (filepath_Split t))"

definition filepath_Ext :: "string \<Rightarrow> string" where
  "filepath_Ext s =
     (let r = takeWhile (\<lambda>c. c \<noteq> slash) (rev s)
      in if CHR ''.'' \<in> set r then CHR ''.'' # rev (takeWhile (\<lambda>c. c \<noteq> CHR ''.'') r) else [])"

subsection \<open>Names and clean absolute paths\<close>

definition name_ok :: "string \<Rightarrow> bool" where
  "name_ok c = (c \<noteq> [] \<and> c \<noteq> ''.'' \<and> c \<noteq> ''..'' \<and> slash \<notin> set c)"

definition abs_path :: "string list \<Rightarrow> string" where
  "abs_path ns = slash # strings_Join ns [slash]"

text \<open>The elements the kernel walks through: empty elements and single dots do not count.\<close>

definition path_elems :: "string \<Rightarrow> string list" where
  "path_elems s = filter (\<lambda>c. c \<noteq> [] \<and> c \<noteq> ''.'') (split_char slash s)"

lemma name_okI [intro]: "c \<noteq> [] \<Longrightarrow> c \<noteq> ''.'' \<Longrightarrow> c \<noteq> ''..'' \<Longrightarrow> slash \<notin> set c \<Longrightarrow> name_ok c"
  by (simp add: name_ok_def)

lemma clean_elems_no_dotdot:
  "''..'' \<notin> set cs \<Longrightarrow> clean_elems r cs = filter (\<lambda>c. c \<noteq> [] \<and> c \<noteq> ''.'') cs"
proof -
  have "''..'' \<notin> set cs \<Longrightarrow>
    foldl (clean_step r) out cs = out @ filter (\<lambda>c. c \<noteq> [] \<and> c \<noteq> ''.'') cs" for out
    by (induction cs arbitrary: out) (auto simp: clean_step_def)
  then show "''..'' \<notin> set cs \<Longrightarrow> ?thesis" by (simp add: clean_elems_def)
qed

lemma clean_step_rooted_ok:
  assumes "list_all name_ok out" and "slash \<notin> set c"
  shows "list_all name_ok (clean_step True out c)"
  using assms by (auto simp: clean_step_def name_ok_def list_all_iff dest: in_set_butlastD)

lemma clean_elems_rooted_ok:
  assumes "\<And>c. c \<in> set cs \<Longrightarrow> slash \<notin> set c"
  shows "list_all name_ok (clean_elems True cs)"
proof -
  have "list_all name_ok out \<Longrightarrow> (\<And>c. c \<in> set cs \<Longrightarrow> slash \<notin> set c) \<Longrightarrow>
    list_all name_ok (foldl (clean_step True) out cs)" for out
    by (induction cs arbitrary: out) (auto intro: clean_step_rooted_ok)
  with assms show ?thesis by (simp add: clean_elems_def)
qed

text \<open>Cleaning an absolute path always gives a clean absolute path.\<close>

lemma Clean_abs:
  assumes "filepath_IsAbs s"
  shows "filepath_Clean s = abs_path (clean_elems True (split_char slash s))"
    and "list_all name_ok (clean_elems True (split_char slash s))"
  using assms
  by (auto simp: filepath_Clean_def filepath_IsAbs_def abs_path_def
      intro!: clean_elems_rooted_ok dest: split_char_elem)

lemma path_elems_append [go_simps]:
  "path_elems (a @ slash # b) = path_elems a @ path_elems b"
  by (simp add: path_elems_def split_char_append)

lemma path_elems_name [go_simps]: "name_ok c \<Longrightarrow> path_elems c = [c]"
  by (simp add: path_elems_def split_char_none name_ok_def)

lemma path_elems_Nil [simp, go_simps]: "path_elems [] = []"
  by (simp add: path_elems_def)

lemma path_elems_Join_names [go_simps]:
  "list_all name_ok ns \<Longrightarrow> path_elems (strings_Join ns [slash]) = ns"
proof (induction ns)
  case (Cons n ns)
  then show ?case
    by (cases ns) (auto simp: path_elems_name path_elems_append)
qed simp

lemma path_elems_abs_path [simp, go_simps]: "list_all name_ok ns \<Longrightarrow> path_elems (abs_path ns) = ns"
  using path_elems_append [of "[]"] by (simp add: abs_path_def path_elems_Join_names)

lemma abs_path_IsAbs [simp, go_simps]: "filepath_IsAbs (abs_path ns)"
  by (simp add: abs_path_def filepath_IsAbs_def)

lemma abs_path_IsAbs_append [simp]: "filepath_IsAbs (abs_path ns @ s)"
  by (simp add: abs_path_def filepath_IsAbs_def)

lemma abs_path_not_Nil [simp]: "abs_path ns \<noteq> []"
  by (simp add: abs_path_def)

lemma abs_path_inject:
  "list_all name_ok ns \<Longrightarrow> list_all name_ok ms \<Longrightarrow> abs_path ns = abs_path ms \<longleftrightarrow> ns = ms"
  by (metis path_elems_abs_path)

lemma Clean_no_dotdot:
  assumes "filepath_IsAbs s" and "''..'' \<notin> set (path_elems s)"
  shows "filepath_Clean s = abs_path (path_elems s)"
proof -
  from assms(2) have "''..'' \<notin> set (split_char slash s)"
    by (auto simp: path_elems_def)
  with assms(1) show ?thesis
    by (simp add: Clean_abs(1) clean_elems_no_dotdot path_elems_def)
qed

lemma Clean_abs_path [simp, go_simps]:
  "list_all name_ok ns \<Longrightarrow> filepath_Clean (abs_path ns) = abs_path ns"
proof -
  assume ok: "list_all name_ok ns"
  then have "''..'' \<notin> set ns" by (auto simp: list_all_iff name_ok_def)
  with ok show ?thesis by (simp add: Clean_no_dotdot)
qed

text \<open>Joining a relative path without \<open>..\<close> below a clean absolute path appends its elements.\<close>

lemma Join_abs_path:
  assumes "list_all name_ok ns" and "''..'' \<notin> set (path_elems s)"
  shows "filepath_Join [abs_path ns, s] = abs_path (ns @ path_elems s)"
proof -
  from assms(1) have nodd: "''..'' \<notin> set ns" by (auto simp: list_all_iff name_ok_def)
  have "filepath_Join [abs_path ns, s] = filepath_Clean (abs_path ns @ slash # s)"
    by (simp add: filepath_Join_def)
  moreover have "path_elems (abs_path ns @ slash # s) = ns @ path_elems s"
    using assms(1) by (simp add: path_elems_append)
  moreover have "filepath_IsAbs (abs_path ns @ slash # s)"
    by (simp add: filepath_IsAbs_def abs_path_def)
  ultimately show ?thesis using assms nodd by (simp add: Clean_no_dotdot)
qed

lemma Join_abs_path_name [simp, go_simps]:
  "list_all name_ok ns \<Longrightarrow> name_ok c \<Longrightarrow> filepath_Join [abs_path ns, c] = abs_path (ns @ [c])"
  by (subst Join_abs_path) (auto simp: path_elems_name name_ok_def)

lemma Join_abs_path_name2 [simp, go_simps]:
  assumes "list_all name_ok ns" and "name_ok c" and "name_ok d"
  shows "filepath_Join [abs_path ns, c, d] = abs_path (ns @ [c, d])"
proof -
  from assms(2) obtain x xs where c: "c = x # xs" by (cases c) (auto simp: name_ok_def)
  have "filepath_Join [abs_path ns, c, d] = filepath_Join [abs_path ns, c @ slash # d]"
    by (simp add: filepath_Join_def)
  also have "\<dots> = abs_path (ns @ path_elems (c @ slash # d))"
    using assms by (intro Join_abs_path)
      (auto simp: path_elems_append path_elems_name name_ok_def)
  finally show ?thesis using assms by (simp add: path_elems_append path_elems_name)
qed

lemma abs_path_snoc:
  "ns \<noteq> [] \<Longrightarrow> abs_path (ns @ [c]) = abs_path ns @ slash # c"
  by (simp add: abs_path_def strings_Join_append)

lemma abs_path_append:
  "ns \<noteq> [] \<Longrightarrow> ms \<noteq> [] \<Longrightarrow> abs_path (ns @ ms) = abs_path ns @ abs_path ms"
  by (simp add: abs_path_def strings_Join_append)

lemma Split_snoc: "slash \<notin> set f \<Longrightarrow> filepath_Split (d @ slash # f) = (d @ [slash], f)"
  by (simp add: filepath_Split_def takeWhile_append)

lemma Dir_abs_path [simp, go_simps]:
  assumes "list_all name_ok ns" and "ns \<noteq> []" and "name_ok c"
  shows "filepath_Dir (abs_path (ns @ [c])) = abs_path ns"
proof -
  have "filepath_Dir (abs_path (ns @ [c])) = filepath_Clean (abs_path ns @ [slash])"
    using assms by (simp add: filepath_Dir_def abs_path_snoc Split_snoc name_ok_def)
  also have "\<dots> = filepath_Join [abs_path ns, []]"
    by (simp add: filepath_Join_def)
  also have "\<dots> = abs_path ns" using assms by (subst Join_abs_path) auto
  finally show ?thesis .
qed

lemma Ext_append:
  assumes "CHR ''.'' \<notin> set e" and "slash \<notin> set e"
  shows "filepath_Ext (s @ CHR ''.'' # e) = CHR ''.'' # e"
  using assms by (simp add: filepath_Ext_def takeWhile_append)

text \<open>Cleaning is idempotent on absolute paths.\<close>

lemma Clean_idem_abs: "filepath_IsAbs s \<Longrightarrow> filepath_Clean (filepath_Clean s) = filepath_Clean s"
  by (metis Clean_abs Clean_abs_path)

end
