(* ===== verification/HPK_FS.thy ===== *)
theory HPK_FS
  imports HPK_Path
begin

unbundle bit_operations_syntax

text \<open>
  The file system as the sources use it through Go's package \<open>os\<close>. The state \<open>fsys\<close>
  holds the entries (an association list from the names on the way from the root to a node: a
  regular file with content, mode and modification time, a directory, a symbolic link or a special
  file), the process' umask, the reading of the clock, the candidate suffixes that \<open>os.MkdirTemp\<close>
  draws, and a fault plan: any system call may fail on any path with any error the plan names
  (permissions, disk full, I/O), so that every error branch of the code can be taken.

  Paths are resolved as the kernel does it, element by element, following symbolic links at most 40
  times (then \<open>ELOOP\<close>). A relative path is resolved from the root of the model. Permission bits are
  stored and not enforced: a refused access is a fault of the plan.
\<close>

subsection \<open>State\<close>

datatype special = Socket | CharDevice | BlockDevice | NamedPipe

datatype fnode =
    File (fcontent: string) (fmode: int) (fmtime: int)
  | Dir (dmode: int)
  | Symlink (ltarget: string)
  | Special special

datatype sysop =
    SysStat | SysLstat | SysOpen | SysRead | SysWrite | SysMkdir | SysMkdirTemp | SysRemove
  | SysRemoveAll | SysSymlink | SysReadlink | SysRename | SysChmod | SysChown | SysReaddir

type_synonym fpath = "string list"
type_synonym entries = "(fpath \<times> fnode) list"

text \<open>A calendar reading of the clock (year, month, day, hour, minute, second).\<close>

record calendar =
  year :: nat
  month :: nat
  day :: nat
  hour :: nat
  minute :: nat
  second :: nat

record fsys =
  entries :: entries
  umask :: int
  clock :: int
  utc :: calendar
  rand_suffixes :: "string list"
  faults :: "sysop \<Rightarrow> string \<Rightarrow> errno option"

definition fs_lookup :: "fsys \<Rightarrow> fpath \<Rightarrow> fnode option" where
  "fs_lookup w p = (if p = [] then Some (Dir 493) else map_of (entries w) p)"

definition fs_put :: "fpath \<Rightarrow> fnode \<Rightarrow> fsys \<Rightarrow> fsys" where
  "fs_put p n w = w\<lparr>entries := AList.update p n (entries w)\<rparr>"

definition fs_del_tree :: "fpath \<Rightarrow> fsys \<Rightarrow> fsys" where
  "fs_del_tree p w = w\<lparr>entries := filter (\<lambda>(q, n). \<not> prefix p q) (entries w)\<rparr>"

text \<open>Moving the tree at \<open>p\<close> to \<open>q\<close>; whatever was at \<open>q\<close> is replaced.\<close>

definition fs_move :: "fpath \<Rightarrow> fpath \<Rightarrow> fsys \<Rightarrow> fsys" where
  "fs_move p q w =
     (let moved = map (\<lambda>(r, n). (q @ drop (length p) r, n)) (filter (\<lambda>(r, n). prefix p r) (entries w));
          kept = filter (\<lambda>(r, n). \<not> prefix p r \<and> \<not> prefix q r) (entries w)
      in w\<lparr>entries := moved @ kept\<rparr>)"

subsection \<open>Path resolution\<close>

definition max_symlinks :: nat where
  "max_symlinks = 40"

function resolve :: "bool \<Rightarrow> nat \<Rightarrow> fsys \<Rightarrow> fpath \<Rightarrow> string list \<Rightarrow> errno + fpath" where
  "resolve follow n w cur [] = Inr cur"
| "resolve follow n w cur (c # cs) =
     (if c = ''..'' then resolve follow n w (butlast cur) cs
      else case fs_lookup w (cur @ [c]) of
        None \<Rightarrow> if cs = [] then Inr (cur @ [c]) else Inl ENOENT
      | Some (Symlink t) \<Rightarrow>
          if cs = [] \<and> \<not> follow then Inr (cur @ [c])
          else if n = 0 then Inl ELOOP
          else resolve follow (n - 1) w (if filepath_IsAbs t then [] else cur) (path_elems t @ cs)
      | Some (Dir m) \<Rightarrow> resolve follow n w (cur @ [c]) cs
      | Some _ \<Rightarrow> if cs = [] then Inr (cur @ [c]) else Inl ENOTDIR)"
  by pat_completeness auto
termination
  by (relation "measures [\<lambda>(f, n, w, cur, cs). n, \<lambda>(f, n, w, cur, cs). length cs]") auto

declare resolve.simps(2) [simp del]

definition fs_resolve :: "bool \<Rightarrow> fsys \<Rightarrow> string \<Rightarrow> errno + fpath" where
  "fs_resolve follow w s =
     (if s = [] then Inl ENOENT else resolve follow max_symlinks w [] (path_elems s))"

text \<open>A system call: the fault plan first, then the resolved path.\<close>

definition syscall :: "sysop \<Rightarrow> bool \<Rightarrow> fsys \<Rightarrow> string \<Rightarrow> (fpath \<Rightarrow> errno + 'a) \<Rightarrow> go_error + 'a" where
  "syscall op follow w s act =
     (case faults w op s of
        Some e \<Rightarrow> Inl (OsError e s)
      | None \<Rightarrow>
          case fs_resolve follow w s of
            Inl e \<Rightarrow> Inl (OsError e s)
          | Inr p \<Rightarrow> (case act p of Inl e \<Rightarrow> Inl (OsError e s) | Inr a \<Rightarrow> Inr a))"

subsection \<open>Package os\<close>

definition node_at :: "fsys \<Rightarrow> fpath \<Rightarrow> errno + fnode" where
  "node_at w p = (case fs_lookup w p of None \<Rightarrow> Inl ENOENT | Some n \<Rightarrow> Inr n)"

definition os_Stat :: "fsys \<Rightarrow> string \<Rightarrow> go_error + fnode" where
  "os_Stat w s = syscall SysStat True w s (node_at w)"

definition os_Lstat :: "fsys \<Rightarrow> string \<Rightarrow> go_error + fnode" where
  "os_Lstat w s = syscall SysLstat False w s (node_at w)"

definition os_Open :: "fsys \<Rightarrow> string \<Rightarrow> go_error + fnode" where
  "os_Open w s = syscall SysOpen True w s (node_at w)"

definition os_ReadFile :: "fsys \<Rightarrow> string \<Rightarrow> go_error + string" where
  "os_ReadFile w s =
     syscall SysRead True w s (\<lambda>p.
       case fs_lookup w p of
         None \<Rightarrow> Inl ENOENT
       | Some (File c m t) \<Rightarrow> Inr c
       | Some (Dir m) \<Rightarrow> Inl EISDIR
       | Some _ \<Rightarrow> Inl EIO)"

text \<open>What the kernel gets of a mode: the permission bits and the set-uid, set-gid and sticky bits.\<close>

definition syscallMode :: "int \<Rightarrow> int" where
  "syscallMode perm =
     (perm AND 511) OR (if bit perm 23 then 2048 else 0) OR (if bit perm 22 then 1024 else 0)
       OR (if bit perm 20 then 512 else 0)"

definition masked :: "fsys \<Rightarrow> int \<Rightarrow> int" where
  "masked w perm = syscallMode perm AND NOT (umask w)"

definition is_dir :: "fnode option \<Rightarrow> bool" where
  "is_dir x = (case x of Some (Dir m) \<Rightarrow> True | _ \<Rightarrow> False)"

text \<open>
  \<open>os.WriteFile\<close> opens the file with \<open>O_CREATE\<close> and \<open>O_TRUNC\<close> and then writes: when the open fails
  nothing changes, when the write fails (\<open>SysWrite\<close>) the file is left empty.
\<close>

definition os_WriteFile :: "string \<Rightarrow> string \<Rightarrow> int \<Rightarrow> fsys \<Rightarrow> go_error option \<times> fsys" where
  "os_WriteFile s data perm w =
     (case syscall SysOpen True w s (\<lambda>p.
         case fs_lookup w p of
           None \<Rightarrow> Inr (p, masked w perm)
         | Some (File c m t) \<Rightarrow> Inr (p, m)
         | Some (Dir m) \<Rightarrow> Inl EISDIR
         | Some _ \<Rightarrow> Inl EIO) of
        Inl e \<Rightarrow> (Some e, w)
      | Inr (p, m) \<Rightarrow>
          (case faults w SysWrite s of
             Some e \<Rightarrow> (Some (OsError e s), fs_put p (File [] m (clock w)) w)
           | None \<Rightarrow> (None, fs_put p (File data m (clock w)) w)))"

definition os_Mkdir :: "string \<Rightarrow> int \<Rightarrow> fsys \<Rightarrow> go_error + fsys" where
  "os_Mkdir s perm w =
     syscall SysMkdir False w s (\<lambda>p.
       if fs_lookup w p \<noteq> None then Inl EEXIST else Inr (fs_put p (Dir (masked w perm)) w))"

text \<open>
  \<open>os.MkdirAll\<close> makes the missing directories from the top down; when it fails, the directories it
  made before remain. The \<open>stat\<close> calls it makes on the way do not report their errors, so they are
  not subject to the fault plan.
\<close>

definition stat_quiet :: "fsys \<Rightarrow> string \<Rightarrow> fnode option" where
  "stat_quiet w s = (case fs_resolve True w s of Inl e \<Rightarrow> None | Inr p \<Rightarrow> fs_lookup w p)"

fun mkdir_elems :: "string \<Rightarrow> string list \<Rightarrow> int \<Rightarrow> fsys \<Rightarrow> go_error option \<times> fsys" where
  "mkdir_elems pre [] perm w = (None, w)"
| "mkdir_elems pre (c # cs) perm w =
     (let s = pre @ slash # c
      in case stat_quiet w s of
           Some (Dir m) \<Rightarrow> mkdir_elems s cs perm w
         | Some _ \<Rightarrow> (Some (OsError ENOTDIR s), w)
         | None \<Rightarrow> (case os_Mkdir s perm w of Inl e \<Rightarrow> (Some e, w) | Inr w' \<Rightarrow> mkdir_elems s cs perm w'))"

definition os_MkdirAll :: "string \<Rightarrow> int \<Rightarrow> fsys \<Rightarrow> go_error option \<times> fsys" where
  "os_MkdirAll s perm w =
     (if s = [] then (Some (OsError ENOENT s), w) else mkdir_elems [] (path_elems s) perm w)"

text \<open>\<open>os.MkdirTemp\<close>: the first drawn suffix whose name is free.\<close>

fun try_mkdir_temp :: "string \<Rightarrow> string list \<Rightarrow> fsys \<Rightarrow> go_error + (string \<times> fsys)" where
  "try_mkdir_temp pre [] w = Inl (OsError EEXIST pre)"
| "try_mkdir_temp pre (r # rs) w =
     (case os_Mkdir (pre @ r) 448 w of
        Inr w' \<Rightarrow> Inr (pre @ r, w')
      | Inl e \<Rightarrow> if os_IsExist e then try_mkdir_temp pre rs w else Inl e)"

definition os_MkdirTemp :: "string \<Rightarrow> string \<Rightarrow> fsys \<Rightarrow> go_error + (string \<times> fsys)" where
  "os_MkdirTemp dir pattern w =
     (case faults w SysMkdirTemp dir of
        Some e \<Rightarrow> Inl (OsError e dir)
      | None \<Rightarrow> try_mkdir_temp (dir @ slash # pattern) (rand_suffixes w) w)"

definition fs_children :: "fsys \<Rightarrow> fpath \<Rightarrow> string list" where
  "fs_children w p =
     map (\<lambda>(q, n). last q) (filter (\<lambda>(q, n). q \<noteq> [] \<and> butlast q = p) (entries w))"

definition os_Remove :: "string \<Rightarrow> fsys \<Rightarrow> go_error + fsys" where
  "os_Remove s w =
     syscall SysRemove False w s (\<lambda>p.
       case fs_lookup w p of
         None \<Rightarrow> Inl ENOENT
       | Some (Dir m) \<Rightarrow> if fs_children w p \<noteq> [] then Inl ENOTEMPTY else Inr (fs_del_tree p w)
       | Some _ \<Rightarrow> Inr (fs_del_tree p w))"

text \<open>
  \<open>os.RemoveAll\<close> removes everything it can and returns the first error it met: an entry whose removal
  fails stays, and so do the directories above it. A path that does not exist is no error.
\<close>

definition os_RemoveAll :: "string \<Rightarrow> fsys \<Rightarrow> go_error option \<times> fsys" where
  "os_RemoveAll s w =
     (if s = [] then (None, w)
      else case fs_resolve False w s of
        Inl e \<Rightarrow> if e = ENOENT then (None, w) else (Some (OsError e s), w)
      | Inr p \<Rightarrow>
          let full = (\<lambda>q. s @ concat (map (\<lambda>c. slash # c) (drop (length p) q)));
              stuck = filter (\<lambda>q. prefix p q \<and> faults w SysRemoveAll (full q) \<noteq> None) (map fst (entries w))
          in (case stuck of
                [] \<Rightarrow> (None, fs_del_tree p w)
              | r # _ \<Rightarrow>
                  (Some (OsError (the (faults w SysRemoveAll (full r))) (full r)),
                   w\<lparr>entries := filter (\<lambda>(q, n). \<not> prefix p q \<or> list_ex (\<lambda>r. prefix q r) stuck) (entries w)\<rparr>)))"

definition os_Symlink :: "string \<Rightarrow> string \<Rightarrow> fsys \<Rightarrow> go_error + fsys" where
  "os_Symlink target s w =
     syscall SysSymlink False w s (\<lambda>p.
       if fs_lookup w p \<noteq> None then Inl EEXIST else Inr (fs_put p (Symlink target) w))"

definition os_Readlink :: "fsys \<Rightarrow> string \<Rightarrow> go_error + string" where
  "os_Readlink w s =
     syscall SysReadlink False w s (\<lambda>p.
       case fs_lookup w p of
         None \<Rightarrow> Inl ENOENT
       | Some (Symlink t) \<Rightarrow> Inr t
       | Some _ \<Rightarrow> Inl EINVAL)"

text \<open>
  \<open>os.Rename\<close>: an existing directory at the new name is refused with \<open>EEXIST\<close> before the system
  call, and a directory is never moved onto a file.
\<close>

definition os_Rename :: "string \<Rightarrow> string \<Rightarrow> fsys \<Rightarrow> go_error + fsys" where
  "os_Rename old new w =
     syscall SysRename False w old (\<lambda>p.
       case fs_lookup w p of
         None \<Rightarrow> Inl ENOENT
       | Some n \<Rightarrow>
           case fs_resolve False w new of
             Inl e \<Rightarrow> Inl e
           | Inr q \<Rightarrow>
               if is_dir (fs_lookup w q) then Inl EEXIST
               else if is_dir (Some n) \<and> fs_lookup w q \<noteq> None then Inl ENOTDIR
               else if is_dir (Some n) \<and> prefix p q then Inl EINVAL
               else if p = q then Inr w
               else Inr (fs_move p q w))"

definition set_mode :: "int \<Rightarrow> fnode \<Rightarrow> fnode" where
  "set_mode perm n =
     (case n of File c m t \<Rightarrow> File c perm t | Dir m \<Rightarrow> Dir perm | _ \<Rightarrow> n)"

definition os_Chmod :: "string \<Rightarrow> int \<Rightarrow> fsys \<Rightarrow> go_error + fsys" where
  "os_Chmod s perm w =
     syscall SysChmod True w s (\<lambda>p.
       case fs_lookup w p of None \<Rightarrow> Inl ENOENT | Some n \<Rightarrow> Inr (fs_put p (set_mode (syscallMode perm) n) w))"

text \<open>Ownership is not part of the state: \<open>os.Chown\<close> only fails or succeeds.\<close>

definition os_Chown :: "string \<Rightarrow> fsys \<Rightarrow> go_error + fsys" where
  "os_Chown s w =
     syscall SysChown True w s (\<lambda>p.
       case fs_lookup w p of None \<Rightarrow> Inl ENOENT | Some n \<Rightarrow> Inr w)"

definition os_ReadDirNames :: "fsys \<Rightarrow> string \<Rightarrow> go_error + string list" where
  "os_ReadDirNames w s =
     syscall SysReaddir True w s (\<lambda>p.
       case fs_lookup w p of
         None \<Rightarrow> Inl ENOENT
       | Some (Dir m) \<Rightarrow> Inr (fs_children w p)
       | Some _ \<Rightarrow> Inl ENOTDIR)"

text \<open>
  \<open>filepath.Walk\<close> and \<open>filepath.WalkDir\<close> visit a tree in lexical order, a directory before its
  entries, without following links: the order of the lists of names.
\<close>

definition walk_below :: "fsys \<Rightarrow> fpath \<Rightarrow> fpath list" where
  "walk_below w p = sort (remdups (filter (prefix p) (map fst (entries w))))"


subsection \<open>Reading the state after an update\<close>

lemma fs_fields [simp]:
  "faults (fs_put p n w) = faults w" "faults (fs_del_tree p w) = faults w"
  "faults (fs_move p q w) = faults w"
  "umask (fs_put p n w) = umask w" "umask (fs_del_tree p w) = umask w"
  "umask (fs_move p q w) = umask w"
  "clock (fs_put p n w) = clock w" "clock (fs_del_tree p w) = clock w"
  "clock (fs_move p q w) = clock w"
  by (simp_all add: fs_put_def fs_del_tree_def fs_move_def Let_def)

lemma fs_lookup_root [simp]: "fs_lookup w [] = Some (Dir 493)"
  by (simp add: fs_lookup_def)

lemma fs_lookup_put [simp]:
  "fs_lookup (fs_put p n w) q = (if q \<noteq> [] \<and> q = p then Some n else fs_lookup w q)"
  by (simp add: fs_lookup_def fs_put_def AList.update_conv')

lemma fs_lookup_del_tree [simp]:
  "fs_lookup (fs_del_tree p w) q = (if q \<noteq> [] \<and> prefix p q then None else fs_lookup w q)"
  by (simp add: fs_lookup_def fs_del_tree_def)

lemma map_of_moved:
  "map_of (map (\<lambda>(r, n). (q @ drop (length p) r, n)) (filter (\<lambda>(r, n). prefix p r) es)) r =
   (if prefix q r then map_of es (p @ drop (length q) r) else None)"
  by (induction es) (auto simp: prefix_def)

lemma fs_lookup_move:
  assumes "p \<noteq> []" and "q \<noteq> []"
  shows "fs_lookup (fs_move p q w) r =
    (if r \<noteq> [] \<and> prefix q r then fs_lookup w (p @ drop (length q) r)
     else if r \<noteq> [] \<and> prefix p r then None
     else fs_lookup w r)"
proof -
  have "map_of (filter (\<lambda>(r, n). \<not> prefix p r \<and> \<not> prefix q r) (entries w)) r =
    (if \<not> prefix p r \<and> \<not> prefix q r then map_of (entries w) r else None)"
    using map_of_filter_keys [of "\<lambda>r. \<not> prefix p r \<and> \<not> prefix q r"] by simp
  with assms show ?thesis
    by (auto simp: fs_lookup_def fs_move_def Let_def map_add_def map_of_moved split: option.splits)
qed

subsection \<open>Resolution through directories\<close>

lemma is_dir_simps [simp]:
  "is_dir (Some (Dir m))" "\<not> is_dir None" "\<not> is_dir (Some (File c m t))"
  "\<not> is_dir (Some (Symlink l))" "\<not> is_dir (Some (Special k))"
  by (simp_all add: is_dir_def)

lemma is_dirE: "is_dir x \<Longrightarrow> (\<And>m. x = Some (Dir m) \<Longrightarrow> P) \<Longrightarrow> P"
  by (auto simp: is_dir_def split: option.splits fnode.splits)

definition is_link :: "fnode option \<Rightarrow> bool" where
  "is_link x = (case x of Some (Symlink l) \<Rightarrow> True | _ \<Rightarrow> False)"

lemma is_link_simps [simp]:
  "is_link (Some (Symlink l))" "\<not> is_link None" "\<not> is_link (Some (File c m t))"
  "\<not> is_link (Some (Dir m))" "\<not> is_link (Some (Special k))"
  by (simp_all add: is_link_def)

text \<open>
  A path all of whose elements are directories, none reached through a link: then the path names
  itself.
\<close>

fun dir_chain :: "fsys \<Rightarrow> fpath \<Rightarrow> string list \<Rightarrow> bool" where
  "dir_chain w cur [] = True"
| "dir_chain w cur (c # cs) =
     (c \<noteq> ''..'' \<and> is_dir (fs_lookup w (cur @ [c])) \<and> dir_chain w (cur @ [c]) cs)"

abbreviation real_dir :: "fsys \<Rightarrow> fpath \<Rightarrow> bool" where
  "real_dir w ns \<equiv> dir_chain w [] ns"

lemma dir_chain_append:
  "dir_chain w cur (xs @ ys) \<longleftrightarrow> dir_chain w cur xs \<and> dir_chain w (cur @ xs) ys"
  by (induction xs arbitrary: cur) auto

lemma resolve_dir_chain:
  "dir_chain w cur cs \<Longrightarrow> resolve f n w cur (cs @ rest) = resolve f n w (cur @ cs) rest"
proof (induction cs arbitrary: cur)
  case (Cons c cs)
  then obtain m where "fs_lookup w (cur @ [c]) = Some (Dir m)"
    by (auto elim: is_dirE)
  with Cons show ?case by (simp add: resolve.simps)
qed simp

lemma resolve_last:
  "c \<noteq> ''..'' \<Longrightarrow> \<not> f \<or> \<not> is_link (fs_lookup w (cur @ [c])) \<Longrightarrow>
   resolve f n w cur [c] = Inr (cur @ [c])"
  by (auto simp: resolve.simps split: option.splits fnode.splits)

lemma resolve_below_missing:
  "c \<noteq> ''..'' \<Longrightarrow> fs_lookup w (cur @ [c]) = None \<Longrightarrow> cs \<noteq> [] \<Longrightarrow>
   resolve f n w cur (c # cs) = Inl ENOENT"
  by (simp add: resolve.simps)

lemma fs_resolve_dir:
  assumes "list_all name_ok ns" and "real_dir w ns"
  shows "fs_resolve f w (abs_path ns) = Inr ns"
  using assms resolve_dir_chain [of w "[]" ns f max_symlinks "[]"]
  by (simp add: fs_resolve_def)

lemma fs_resolve_in_dir:
  assumes "list_all name_ok ns" and "name_ok c" and "real_dir w ns"
    and "\<not> f \<or> \<not> is_link (fs_lookup w (ns @ [c]))"
  shows "fs_resolve f w (abs_path (ns @ [c])) = Inr (ns @ [c])"
proof -
  from assms(2) have "c \<noteq> ''..''" by (simp add: name_ok_def)
  with assms have "resolve f max_symlinks w [] (ns @ [c]) = Inr (ns @ [c])"
    by (simp add: resolve_dir_chain resolve_last)
  with assms show ?thesis by (simp add: fs_resolve_def)
qed

lemma real_dir_lookup: "real_dir w ns \<Longrightarrow> is_dir (fs_lookup w ns)"
  by (cases ns rule: rev_cases) (auto simp: dir_chain_append)

text \<open>Updates away from a chain of directories do not disturb it.\<close>

lemma dir_chain_cong:
  assumes "\<And>i. 0 < i \<Longrightarrow> i \<le> length cs \<Longrightarrow>
    is_dir (fs_lookup w (cur @ take i cs)) \<Longrightarrow> is_dir (fs_lookup w' (cur @ take i cs))"
    and "dir_chain w cur cs"
  shows "dir_chain w' cur cs"
  using assms
proof (induction cs arbitrary: cur)
  case (Cons c cs)
  have "is_dir (fs_lookup w' (cur @ [c]))"
    using Cons.prems(1) [of 1] Cons.prems(2) by simp
  moreover have "dir_chain w' (cur @ [c]) cs"
  proof (rule Cons.IH)
    fix i
    assume "0 < i" "i \<le> length cs" "is_dir (fs_lookup w ((cur @ [c]) @ take i cs))"
    then show "is_dir (fs_lookup w' ((cur @ [c]) @ take i cs))"
      using Cons.prems(1) [of "Suc i"] by simp
  qed (use Cons.prems(2) in simp)
  ultimately show ?case using Cons.prems(2) by simp
qed simp

lemma dir_chain_put:
  assumes "dir_chain w cur cs" and "is_dir (Some n) \<or> \<not> is_dir (fs_lookup w p)"
  shows "dir_chain (fs_put p n w) cur cs"
  by (rule dir_chain_cong [OF _ assms(1)]) (use assms(2) in auto)

lemma dir_chain_del_tree:
  assumes "dir_chain w cur cs" and "\<not> prefix p (cur @ cs)" and "p \<noteq> []"
  shows "dir_chain (fs_del_tree p w) cur cs"
proof (rule dir_chain_cong [OF _ assms(1)])
  fix i
  assume "is_dir (fs_lookup w (cur @ take i cs))"
  moreover have "\<not> prefix p (cur @ take i cs)"
    using assms(2) by (meson prefix_order.trans same_prefix_prefix take_is_prefix)
  ultimately show "is_dir (fs_lookup (fs_del_tree p w) (cur @ take i cs))" by simp
qed

subsection \<open>System calls on a file of a real directory\<close>

lemma syscall_in_dir:
  assumes "list_all name_ok ns" "name_ok c" "real_dir w ns"
    and "\<not> follow \<or> \<not> is_link (fs_lookup w (ns @ [c]))" "faults w op (abs_path (ns @ [c])) = None"
  shows "syscall op follow w (abs_path (ns @ [c])) act =
    (case act (ns @ [c]) of Inl e \<Rightarrow> Inl (OsError e (abs_path (ns @ [c]))) | Inr a \<Rightarrow> Inr a)"
  using assms fs_resolve_in_dir [of ns c w follow] by (simp add: syscall_def)

lemma os_ReadFile_in_dir:
  assumes "list_all name_ok ns" "name_ok c" "real_dir w ns"
    and "faults w SysRead (abs_path (ns @ [c])) = None"
  shows "fs_lookup w (ns @ [c]) = Some (File d m t) \<Longrightarrow> os_ReadFile w (abs_path (ns @ [c])) = Inr d"
    and "fs_lookup w (ns @ [c]) = None \<Longrightarrow>
      os_ReadFile w (abs_path (ns @ [c])) = Inl (OsError ENOENT (abs_path (ns @ [c])))"
  using assms by (simp_all add: os_ReadFile_def syscall_in_dir)

end
