(* ===== verification/HPK_Endpoint.thy ===== *)
theory HPK_Endpoint
  imports HPK_FS
begin

text \<open>
  Package \<open>compute/endpoint\<close> (\<open>paths.go\<close>, \<open>utils.go\<close>): the layout of the \<open>.hpk\<close> directory, where a
  pod and its containers keep their control files, logs, volumes and job files; the walk over the
  pod directories; and the parser that maps the path of a control file back to the pod and the file
  (the regular expression of \<open>ParseControlFilePath\<close> is a search over its capture groups in the
  order of Go's leftmost-first matching: the namespace as long as possible, then the pod as short
  as possible). The lemmas show that the parser inverts the layout, that a parsed path always has
  the expected shape, and that the walk visits exactly the pod directories.
\<close>

record objkey =
  key_namespace :: string
  key_name :: string

subsection \<open>Constants\<close>

definition PodGlobalDirectoryPermissions :: int where
  "PodGlobalDirectoryPermissions = 511"  \<comment> \<open>0o777\<close>

definition PodSpecJsonFilePermissions :: int where
  "PodSpecJsonFilePermissions = 384"  \<comment> \<open>0o600\<close>

definition ContainerJobPermissions :: int where
  "ContainerJobPermissions = 511"  \<comment> \<open>0o777\<close>

definition ExtensionSysError :: string where "ExtensionSysError = ''.syserror''"
definition ExtensionIP :: string where "ExtensionIP = ''.ip''"
definition ExtensionExitCode :: string where "ExtensionExitCode = ''.exitCode''"
definition ExtensionJobID :: string where "ExtensionJobID = ''.jobid''"
definition ExtensionCRD :: string where "ExtensionCRD = ''.crd''"
definition ExtensionStdout :: string where "ExtensionStdout = ''.stdout''"
definition ExtensionStderr :: string where "ExtensionStderr = ''.stderr''"
definition ExtensionEnvironment :: string where "ExtensionEnvironment = ''.env''"
definition ExtensionLogs :: string where "ExtensionLogs = ''.logs''"

lemmas extension_defs = ExtensionSysError_def ExtensionIP_def ExtensionExitCode_def
  ExtensionJobID_def ExtensionCRD_def ExtensionStdout_def ExtensionStderr_def
  ExtensionEnvironment_def ExtensionLogs_def

subsection \<open>HPK paths\<close>

definition HPK :: "string \<Rightarrow> string" where
  "HPK rootPath = filepath_Join [rootPath, ''.hpk'']"

definition HPKPath_String :: "string \<Rightarrow> string outcome" where
  "HPKPath_String p = (if p = [] then Panic ''HPK path has not been initialized'' else Ret p)"

definition ImageDir :: "string \<Rightarrow> string" where
  "ImageDir p = filepath_Join [p, ''.images'']"

definition CorruptedDir :: "string \<Rightarrow> string" where
  "CorruptedDir p = filepath_Join [p, ''.corrupted'']"

text \<open>
  \<open>HPKPath.Pod\<close>. Once \<open>runtime.Initialize\<close> has set the HPK path it is never empty, and the other
  components use \<open>pod_dir\<close>, the value that \<open>Pod\<close> then returns.
\<close>

definition pod_dir :: "string \<Rightarrow> objkey \<Rightarrow> string" where
  "pod_dir p podRef = filepath_Join [p, key_namespace podRef, key_name podRef]"

definition HPKPath_Pod :: "string \<Rightarrow> objkey \<Rightarrow> string outcome" where
  "HPKPath_Pod p podRef =
     bind_outcome (HPKPath_String p)
       (\<lambda>s. Ret (filepath_Join [s, key_namespace podRef, key_name podRef]))"

subsection \<open>Pod and container paths\<close>

definition JobDir :: "string \<Rightarrow> string" where
  "JobDir p = filepath_Join [p, ''job'']"

definition VolumeDir :: "string \<Rightarrow> string" where
  "VolumeDir p = filepath_Join [p, ''volumes'']"

definition LogDir :: "string \<Rightarrow> string" where
  "LogDir p = filepath_Join [p, ''logs'']"

definition ControlFileDir :: "string \<Rightarrow> string" where
  "ControlFileDir p = filepath_Join [p, ''controlfiles'']"

definition EncodedJSONPath :: "string \<Rightarrow> string" where
  "EncodedJSONPath p = filepath_Join [JobDir p, ''pod'' @ ExtensionCRD]"

definition ConstructorFilePath :: "string \<Rightarrow> string" where
  "ConstructorFilePath p = filepath_Join [JobDir p, ''constructor.sh'']"

definition CgroupFilePath :: "string \<Rightarrow> string" where
  "CgroupFilePath p = filepath_Join [JobDir p, ''cgroup.toml'']"

definition SubmitJobPath :: "string \<Rightarrow> string" where
  "SubmitJobPath p = filepath_Join [JobDir p, ''submit.sh'']"

definition StdoutPath :: "string \<Rightarrow> string" where
  "StdoutPath p = filepath_Join [LogDir p, ExtensionStdout]"

definition StderrPath :: "string \<Rightarrow> string" where
  "StderrPath p = filepath_Join [LogDir p, ExtensionStderr]"

definition SysErrorFilePath :: "string \<Rightarrow> string" where
  "SysErrorFilePath p = filepath_Join [ControlFileDir p, ExtensionSysError]"

definition IPAddressPath :: "string \<Rightarrow> string" where
  "IPAddressPath p = filepath_Join [ControlFileDir p, ExtensionIP]"

text \<open>A \<open>ContainerPath\<close> is a pod path and a container name.\<close>

definition LogsPath :: "string \<Rightarrow> string \<Rightarrow> string" where
  "LogsPath p containerName = filepath_Join [LogDir p, containerName @ ExtensionLogs]"

definition IDPath :: "string \<Rightarrow> string \<Rightarrow> string" where
  "IDPath p containerName = filepath_Join [ControlFileDir p, containerName @ ExtensionJobID]"

definition ExitCodePath :: "string \<Rightarrow> string \<Rightarrow> string" where
  "ExitCodePath p containerName = filepath_Join [ControlFileDir p, containerName @ ExtensionExitCode]"

definition EnvFilePath :: "string \<Rightarrow> string \<Rightarrow> string" where
  "EnvFilePath p containerName = filepath_Join [JobDir p, containerName @ ExtensionEnvironment]"

subsection \<open>Queries on the file system\<close>

text \<open>
  \<open>PodEnvironmentIsOK\<close>: the second result is the reason.
\<close>

definition PodEnvironmentIsOK :: "fsys \<Rightarrow> string \<Rightarrow> bool \<times> string" where
  "PodEnvironmentIsOK w p =
     (case os_Open w (EncodedJSONPath p) of
        Inl e \<Rightarrow> (False, ''no pod specification was found'')
      | Inr f \<Rightarrow>
          (case os_Open w (SysErrorFilePath p) of
             Inl e \<Rightarrow> if os_IsNotExist e then (True, []) else (False, ''pod has failed with a system error'')
           | Inr f \<Rightarrow> (False, ''pod has failed with a system error'')))"

text \<open>
  \<open>IsEmpty\<close>: \<open>Readdirnames(1)\<close> returns \<open>io.EOF\<close> exactly when there is no entry.
\<close>

definition IsEmpty :: "fsys \<Rightarrow> string \<Rightarrow> go_error + bool" where
  "IsEmpty w name =
     (case os_Open w name of
        Inl e \<Rightarrow> Inl e
      | Inr f \<Rightarrow>
          (case os_ReadDirNames w name of
             Inl e \<Rightarrow> Inl e
           | Inr ns \<Rightarrow> Inr (ns = [])))"

subsection \<open>Walking the pod directories\<close>

text \<open>
  \<open>filepath.WalkDir\<close> with the callback of \<open>WalkPodDirectories\<close>: \<open>skipped\<close> are the directories the
  callback has answered with \<open>SkipDir\<close>, \<open>st\<close> is what the function \<open>f\<close> accumulates, and the
  entries of a directory are read after the callback accepted it.
\<close>

definition walk_string :: "string \<Rightarrow> fpath \<Rightarrow> fpath \<Rightarrow> string" where
  "walk_string p base q = p @ concat (map (\<lambda>c. slash # c) (drop (length base) q))"

fun walk_pods :: "fsys \<Rightarrow> string \<Rightarrow> fpath \<Rightarrow> (string \<Rightarrow> 's \<Rightarrow> go_error option \<times> 's) \<Rightarrow>
    fpath list \<Rightarrow> fpath list \<Rightarrow> 's \<Rightarrow> go_error option \<times> 's" where
  "walk_pods w p base f skipped [] st = (None, st)"
| "walk_pods w p base f skipped (q # qs) st =
     (let path = walk_string p base q;
          maxDepth = strings_Count p slash + 2;
          depth = strings_Count path slash;
          descend = (\<lambda>st'. case faults w SysReaddir path of
              Some e \<Rightarrow> (Some (Wrapped (OsError e path) ''Pod traversal error''), st')
            | None \<Rightarrow> walk_pods w p base f skipped qs st')
      in if list_ex (\<lambda>s. prefix s q) skipped then walk_pods w p base f skipped qs st
         else if \<not> is_dir (fs_lookup w q) then walk_pods w p base f skipped qs st
         else if path = CorruptedDir p \<or> path = ImageDir p
              then walk_pods w p base f (q # skipped) qs st
         else if depth < maxDepth then descend st
         else if depth = maxDepth then
           (case f path st of
              (Some e, st') \<Rightarrow> (Some e, st')
            | (None, st') \<Rightarrow> descend st')
         else walk_pods w p base f (q # skipped) qs st)"

definition WalkPodDirectories :: "fsys \<Rightarrow> string \<Rightarrow> (string \<Rightarrow> 's \<Rightarrow> go_error option \<times> 's) \<Rightarrow>
    's \<Rightarrow> (go_error option \<times> 's) outcome" where
  "WalkPodDirectories w p f st =
     bind_outcome (HPKPath_String p) (\<lambda>s.
       Ret (case os_Lstat w s of
              Inl e \<Rightarrow> (Some (Wrapped e ''Pod traversal error''), st)
            | Inr n \<Rightarrow>
                (case fs_resolve False w s of
                   Inl e \<Rightarrow> (Some (Wrapped (OsError e s) ''Pod traversal error''), st)
                 | Inr base \<Rightarrow> walk_pods w s base f [] (walk_below w base) st)))"

subsection \<open>Parsing the path of a control file\<close>

definition is_space :: "char \<Rightarrow> bool" where
  "is_space c = (c = CHR '' '' \<or> c = CHR 0x09 \<or> c = CHR 0x0A \<or> c = CHR 0x0C \<or> c = CHR 0x0D)"

definition nonspace :: "string \<Rightarrow> bool" where
  "nonspace s = list_all (\<lambda>c. \<not> is_space c) s"

fun first_some :: "('a \<Rightarrow> 'b option) \<Rightarrow> 'a list \<Rightarrow> 'b option" where
  "first_some f [] = None"
| "first_some f (x # xs) = (case f x of None \<Rightarrow> first_some f xs | Some y \<Rightarrow> Some y)"

definition control_infix :: string where
  "control_infix = ''/controlfiles/''"

text \<open>
  The tail of the expression, \<open>(?P<pod>\S+?)/controlfiles/(?P<file>.*)$\<close>: the pod is matched
  lazily, and \<open>.\<close> does not match a newline.
\<close>

definition match_pod_file :: "string \<Rightarrow> (string \<times> string) option" where
  "match_pod_file s =
     first_some (\<lambda>j.
       let pod = take j s; rest = drop j s; f = drop (length control_infix) rest
       in if nonspace pod \<and> prefix control_infix rest \<and> CHR 0x0A \<notin> set f then Some (pod, f) else None)
     [1..<Suc (length s)]"

text \<open>The whole expression; the namespace is matched greedily.\<close>

definition match_control_path :: "string \<Rightarrow> (string \<times> string \<times> string) option" where
  "match_control_path rel =
     (if prefix [slash] rel then
        let body = tl rel
        in first_some (\<lambda>i.
             let ns = take i body; rest = drop i body
             in if nonspace ns \<and> prefix [slash] rest
                then map_option (\<lambda>(pod, f). (ns, pod, f)) (match_pod_file (tl rest))
                else None)
           (rev [1..<Suc (length body)])
      else None)"

definition ParseControlFilePath :: "string \<Rightarrow> string \<Rightarrow> (objkey \<times> string \<times> bool) outcome" where
  "ParseControlFilePath p absPath =
     (let bad = (\<lparr>key_namespace = [], key_name = []\<rparr>, [], True)
      in if \<not> filepath_IsAbs absPath then Ret bad
         else bind_outcome (HPKPath_String p) (\<lambda>s.
           case match_control_path (strings_TrimPrefix absPath s) of
             None \<Rightarrow> Ret bad
           | Some (ns, pod, f) \<Rightarrow> Ret (\<lparr>key_namespace = ns, key_name = pod\<rparr>, f, False)))"

subsection \<open>Layout lemmas\<close>

text \<open>
  The names that occur in the layout are plain: lemmas for clean absolute HPK paths.
\<close>

lemma layout_names [simp]:
  "name_ok ''.hpk''" "name_ok ''.images''" "name_ok ''.corrupted''" "name_ok ''job''"
  "name_ok ''volumes''" "name_ok ''logs''" "name_ok ''controlfiles''"
  "name_ok (''pod'' @ ExtensionCRD)" "name_ok ''pod.crd''" "name_ok ''constructor.sh''" "name_ok ''cgroup.toml''"
  "name_ok ''submit.sh''" "name_ok ExtensionStdout" "name_ok ExtensionStderr"
  "name_ok ExtensionSysError" "name_ok ExtensionIP"
  by (simp_all add: name_ok_def extension_defs)

lemma name_ok_container [simp]:
  assumes "name_ok c"
  shows "name_ok (c @ ExtensionLogs)" "name_ok (c @ ExtensionJobID)"
    "name_ok (c @ ExtensionExitCode)" "name_ok (c @ ExtensionEnvironment)"
  using assms by (auto simp: name_ok_def extension_defs append_eq_Cons_conv)

definition key_ok :: "objkey \<Rightarrow> bool" where
  "key_ok k = (name_ok (key_namespace k) \<and> name_ok (key_name k))"

lemma pod_dir_abs [go_simps]:
  "list_all name_ok root \<Longrightarrow> key_ok k \<Longrightarrow>
   pod_dir (abs_path root) k = abs_path (root @ [key_namespace k, key_name k])"
  by (simp add: pod_dir_def key_ok_def)

lemma HPKPath_Pod_abs: "p \<noteq> [] \<Longrightarrow> HPKPath_Pod p k = Ret (pod_dir p k)"
  by (simp add: HPKPath_Pod_def HPKPath_String_def pod_dir_def)

lemma pod_layout_abs [go_simps]:
  assumes "list_all name_ok d"
  shows "JobDir (abs_path d) = abs_path (d @ [''job''])"
    and "VolumeDir (abs_path d) = abs_path (d @ [''volumes''])"
    and "LogDir (abs_path d) = abs_path (d @ [''logs''])"
    and "ControlFileDir (abs_path d) = abs_path (d @ [''controlfiles''])"
    and "EncodedJSONPath (abs_path d) = abs_path (d @ [''job'', ''pod.crd''])"
    and "SubmitJobPath (abs_path d) = abs_path (d @ [''job'', ''submit.sh''])"
    and "SysErrorFilePath (abs_path d) = abs_path (d @ [''controlfiles'', ''.syserror''])"
    and "IPAddressPath (abs_path d) = abs_path (d @ [''controlfiles'', ''.ip''])"
  using assms
  by (simp_all add: JobDir_def VolumeDir_def LogDir_def ControlFileDir_def EncodedJSONPath_def
      SubmitJobPath_def SysErrorFilePath_def IPAddressPath_def)
    (simp_all add: extension_defs)

lemma container_layout_abs [go_simps]:
  assumes "list_all name_ok d" and "name_ok c"
  shows "LogsPath (abs_path d) c = abs_path (d @ [''logs'', c @ ''.logs''])"
    and "IDPath (abs_path d) c = abs_path (d @ [''controlfiles'', c @ ''.jobid''])"
    and "ExitCodePath (abs_path d) c = abs_path (d @ [''controlfiles'', c @ ''.exitCode''])"
    and "EnvFilePath (abs_path d) c = abs_path (d @ [''job'', c @ ''.env''])"
  using assms
  by (simp_all add: LogsPath_def IDPath_def ExitCodePath_def EnvFilePath_def pod_layout_abs)
    (simp_all add: extension_defs)


subsection \<open>The parser inverts the layout\<close>

lemma first_some_Some: "first_some f xs = Some y \<Longrightarrow> \<exists>x\<in>set xs. f x = Some y"
  by (induction xs) (auto split: option.splits)

lemma first_some_None: "first_some f xs = None \<longleftrightarrow> (\<forall>x\<in>set xs. f x = None)"
  by (induction xs) (auto split: option.splits)

definition control_shape :: "string \<Rightarrow> string \<Rightarrow> string \<Rightarrow> string \<Rightarrow> bool" where
  "control_shape rel ns pod f \<longleftrightarrow>
     rel = slash # ns @ slash # pod @ control_infix @ f \<and> ns \<noteq> [] \<and> pod \<noteq> [] \<and>
     nonspace ns \<and> nonspace pod \<and> CHR 0x0A \<notin> set f"

lemma match_pod_file_Some:
  assumes "match_pod_file s = Some (pod, f)"
  shows "s = pod @ control_infix @ f \<and> pod \<noteq> [] \<and> nonspace pod \<and> CHR 0x0A \<notin> set f"
proof -
  from assms obtain j where j: "1 \<le> j" "j \<le> length s" "pod = take j s" "nonspace pod"
      "prefix control_infix (drop j s)" "f = drop (length control_infix) (drop j s)"
      "CHR 0x0A \<notin> set f"
    by (auto simp: match_pod_file_def Let_def dest!: first_some_Some split: if_splits)
  from j(5) obtain zs where zs: "drop j s = control_infix @ zs" by (auto simp: prefix_def)
  with j(6) have "f = zs" by (simp del: drop_drop)
  with zs have "drop j s = control_infix @ f" by simp
  then have "s = pod @ control_infix @ f" using j(3) append_take_drop_id [of j s] by simp
  moreover from j(1-3) have "pod \<noteq> []" by (cases s) auto
  ultimately show ?thesis using j(4,7) by blast
qed

lemma length_in_upt: "xs \<noteq> [] \<Longrightarrow> length xs \<le> n \<Longrightarrow> length xs \<in> set [1..<Suc n]"
  by (cases xs) (auto simp del: upt_Suc)

lemma match_pod_file_complete:
  assumes "s = pod @ control_infix @ f" "pod \<noteq> []" "nonspace pod" "CHR 0x0A \<notin> set f"
  shows "match_pod_file s \<noteq> None"
proof
  assume none: "match_pod_file s = None"
  from assms have "length pod \<in> set [1..<Suc (length s)]"
    by (intro length_in_upt) auto
  with none show False using assms(2-)
    unfolding match_pod_file_def first_some_None Let_def
    by (auto dest!: bspec simp: assms(1) simp del: upt_Suc set_upt)
qed

text \<open>What the expression accepts, and that it accepts nothing else.\<close>

lemma match_control_path_Some:
  assumes "match_control_path rel = Some (ns, pod, f)"
  shows "control_shape rel ns pod f"
proof -
  from assms obtain body where rel: "rel = slash # body"
    by (auto simp: match_control_path_def prefix_def split: if_splits)
  from assms obtain i where i: "1 \<le> i" "i \<le> length body" "ns = take i body" "nonspace ns"
      "prefix [slash] (drop i body)" "match_pod_file (tl (drop i body)) = Some (pod, f)"
    by (auto simp: match_control_path_def rel Let_def dest!: first_some_Some split: if_splits)
  from i(5) have "drop i body = slash # tl (drop i body)" by (auto simp: prefix_def)
  with i(3) have "body = ns @ slash # tl (drop i body)" by (metis append_take_drop_id)
  moreover from match_pod_file_Some [OF i(6)]
  have "tl (drop i body) = pod @ control_infix @ f" "pod \<noteq> []" "nonspace pod" "CHR 0x0A \<notin> set f"
    by auto
  ultimately show ?thesis using rel i by (auto simp: control_shape_def)
qed

lemma match_control_path_complete:
  assumes "control_shape rel ns pod f"
  shows "match_control_path rel \<noteq> None"
proof
  assume none: "match_control_path rel = None"
  define body where "body = ns @ slash # pod @ control_infix @ f"
  with assms have rel: "rel = slash # body" by (simp add: control_shape_def)
  have "length ns \<in> set (rev [1..<Suc (length body)])"
    unfolding set_rev using assms
    by (intro length_in_upt) (auto simp: body_def control_shape_def)
  moreover have "match_pod_file (pod @ control_infix @ f) \<noteq> None"
    using assms by (intro match_pod_file_complete) (auto simp: control_shape_def)
  moreover from none have "\<forall>i\<in>set (rev [1..<Suc (length body)]).
      nonspace (take i body) \<and> prefix [slash] (drop i body) \<longrightarrow>
      match_pod_file (tl (drop i body)) = None"
    by (auto simp: match_control_path_def rel first_some_None Let_def simp del: upt_Suc set_upt)
  ultimately show False using assms by (auto simp: body_def control_shape_def dest!: bspec)
qed

lemma control_infix_slashes: "count_list control_infix slash = 2"
  by (simp add: control_infix_def)

text \<open>With plain names the shape determines the three parts: there are only four slashes.\<close>

lemma control_shape_unique:
  assumes "control_shape rel ns pod f" and "control_shape rel ns' pod' f'"
    and "slash \<notin> set ns" "slash \<notin> set pod" "slash \<notin> set f"
  shows "ns' = ns \<and> pod' = pod \<and> f' = f"
proof -
  from assms have eq: "ns' @ slash # pod' @ control_infix @ f' = ns @ slash # pod @ control_infix @ f"
    by (simp add: control_shape_def)
  then have "count_list (ns' @ slash # pod' @ control_infix @ f') slash = 3"
    using assms(3-5) by (simp add: control_infix_slashes)
  then have "count_list ns' slash = 0" "count_list pod' slash = 0"
    by (simp_all add: control_infix_slashes)
  then have no: "slash \<notin> set ns'" "slash \<notin> set pod'" by (simp_all add: count_list_0_iff)
  from eq have ns: "ns' = ns" and eq2: "pod' @ control_infix @ f' = pod @ control_infix @ f"
    using no assms(3) by (auto simp: append_sep_eq_iff)
  have "control_infix = slash # tl control_infix" by (simp add: control_infix_def)
  with eq2 have "pod' @ slash # tl control_infix @ f' = pod @ slash # tl control_infix @ f"
    by (metis append_Cons)
  then have "pod' = pod" "f' = f"
    using no assms(4) by (auto simp: append_sep_eq_iff)
  with ns show ?thesis by simp
qed

definition control_name_ok :: "string \<Rightarrow> bool" where
  "control_name_ok f = (name_ok f \<and> CHR 0x0A \<notin> set f)"

lemma match_control_path_names:
  assumes "name_ok ns" "nonspace ns" "name_ok pod" "nonspace pod" "control_name_ok f"
  shows "match_control_path (slash # ns @ slash # pod @ control_infix @ f) = Some (ns, pod, f)"
proof -
  let ?rel = "slash # ns @ slash # pod @ control_infix @ f"
  have shape: "control_shape ?rel ns pod f"
    using assms by (simp add: control_shape_def name_ok_def control_name_ok_def)
  then obtain m where m: "match_control_path ?rel = Some m"
    using match_control_path_complete by blast
  obtain ns' pod' f' where m3: "m = (ns', pod', f')" by (cases m) auto
  with m have "control_shape ?rel ns' pod' f'" by (simp add: match_control_path_Some)
  then have "ns' = ns \<and> pod' = pod \<and> f' = f"
    using shape assms by (intro control_shape_unique) (auto simp: name_ok_def control_name_ok_def)
  with m m3 show ?thesis by simp
qed

lemma abs_path_control:
  assumes "root \<noteq> []"
  shows "abs_path (root @ [ns, pod, ''controlfiles'', f]) =
    abs_path root @ slash # ns @ slash # pod @ control_infix @ f"
  using abs_path_append [OF assms, of "[ns, pod, ''controlfiles'', f]"]
  by (simp add: abs_path_def control_infix_def)

lemma ParseControlFilePath_shape:
  "ParseControlFilePath p absPath = Ret (k, f, False) \<longleftrightarrow>
   filepath_IsAbs absPath \<and> p \<noteq> [] \<and>
   match_control_path (strings_TrimPrefix absPath p) = Some (key_namespace k, key_name k, f)"
  by (cases k) (auto simp: ParseControlFilePath_def HPKPath_String_def Let_def split: option.splits)

lemma control_shape_slashes: "control_shape rel ns pod f \<Longrightarrow> 4 \<le> count_list rel slash"
  by (simp add: control_shape_def control_infix_slashes)

lemma count_slash_abs_path:
  "list_all name_ok ns \<Longrightarrow> ns \<noteq> [] \<Longrightarrow> count_list (abs_path ns) slash = length ns"
proof (induction ns)
  case (Cons n ns)
  then show ?case
    by (cases ns) (auto simp: abs_path_def name_ok_def strings_Join_Cons count_list_0_iff)
qed simp

lemma ParseControlFilePath_control:
  assumes "list_all name_ok root" "root \<noteq> []" "key_ok k"
    and "nonspace (key_namespace k)" "nonspace (key_name k)" "control_name_ok f"
  shows "ParseControlFilePath (abs_path root)
      (filepath_Join [ControlFileDir (pod_dir (abs_path root) k), f]) = Ret (k, f, False)"
  using assms
  by (simp add: ParseControlFilePath_shape go_simps key_ok_def control_name_ok_def
      abs_path_control match_control_path_names)

text \<open>
  C3. The parser inverts the layout: the path of any control file of any pod, built with the
  functions of \<open>paths.go\<close>, is parsed back to the pod's key and the file's name.
\<close>

theorem ParseControlFilePath_roundtrip:
  assumes "list_all name_ok root" "root \<noteq> []" "key_ok k"
    and "nonspace (key_namespace k)" "nonspace (key_name k)" "control_name_ok f"
  shows "ParseControlFilePath (abs_path root)
      (filepath_Join [ControlFileDir (pod_dir (abs_path root) k), f]) = Ret (k, f, False)"
  by (rule ParseControlFilePath_control) (use assms in auto)

theorem ParseControlFilePath_roundtrip_witness:
  "ParseControlFilePath (abs_path [''home'', ''.hpk''])
     (filepath_Join [ControlFileDir (pod_dir (abs_path [''home'', ''.hpk''])
        \<lparr>key_namespace = ''default'', key_name = ''web''\<rparr>), ''main.exitCode'']) =
   Ret (\<lparr>key_namespace = ''default'', key_name = ''web''\<rparr>, ''main.exitCode'', False)"
  by (rule ParseControlFilePath_roundtrip)
    (simp_all add: name_ok_def key_ok_def nonspace_def is_space_def control_name_ok_def)

text \<open>
  The parser accepts exactly the paths of the shape
  \<open>/<namespace>/<pod>/controlfiles/<file>\<close> after the HPK path is trimmed; every other path is
  reported as invalid. In particular the entries of a pod's own directory are never control files.
\<close>

theorem ParseControlFilePath_exact:
  assumes "p \<noteq> []" "filepath_IsAbs absPath"
  shows "(\<exists>k f. ParseControlFilePath p absPath = Ret (k, f, False)) \<longleftrightarrow>
    (\<exists>ns pod f. control_shape (strings_TrimPrefix absPath p) ns pod f)"
proof
  assume "\<exists>k f. ParseControlFilePath p absPath = Ret (k, f, False)"
  then show "\<exists>ns pod f. control_shape (strings_TrimPrefix absPath p) ns pod f"
    using match_control_path_Some by (fastforce simp: ParseControlFilePath_shape)
next
  assume "\<exists>ns pod f. control_shape (strings_TrimPrefix absPath p) ns pod f"
  then obtain ns pod f where "match_control_path (strings_TrimPrefix absPath p) = Some (ns, pod, f)"
    using match_control_path_complete by (metis option.exhaust prod_cases3)
  then have "ParseControlFilePath p absPath =
      Ret (\<lparr>key_namespace = ns, key_name = pod\<rparr>, f, False)"
    using assms by (simp add: ParseControlFilePath_shape)
  then show "\<exists>k f. ParseControlFilePath p absPath = Ret (k, f, False)" by blast
qed

theorem ParseControlFilePath_exact_witness:
  "(\<exists>k f. ParseControlFilePath ''/h'' ''/h/a/b/controlfiles/.ip'' = Ret (k, f, False)) \<longleftrightarrow>
   (\<exists>ns pod f. control_shape (strings_TrimPrefix ''/h/a/b/controlfiles/.ip'' ''/h'') ns pod f)"
  by (rule ParseControlFilePath_exact) (simp_all add: filepath_IsAbs_def)

text \<open>
  A path directly below a pod's directory (an event that a watch on that directory reports)
  is never a control file.
\<close>

theorem ParseControlFilePath_pod_dir_entry:
  assumes "list_all name_ok root" "root \<noteq> []" "key_ok k" "name_ok x"
  shows "\<exists>k' f. ParseControlFilePath (abs_path root)
      (filepath_Join [pod_dir (abs_path root) k, x]) = Ret (k', f, True)"
proof -
  let ?sub = "[key_namespace k, key_name k, x]"
  have path: "filepath_Join [pod_dir (abs_path root) k, x] = abs_path root @ abs_path ?sub"
    using assms by (simp add: go_simps key_ok_def flip: abs_path_append)
  have "count_list (abs_path ?sub) slash = 3"
    using assms by (simp add: count_slash_abs_path key_ok_def)
  then have "\<not> control_shape (abs_path ?sub) ns pod f" for ns pod f
    using control_shape_slashes [of "abs_path ?sub" ns pod f] by auto
  then have "match_control_path (abs_path ?sub) = None"
    by (metis match_control_path_Some option.exhaust prod_cases3)
  then show ?thesis
    by (simp add: path ParseControlFilePath_def HPKPath_String_def Let_def)
qed

theorem ParseControlFilePath_pod_dir_entry_witness:
  "\<exists>k' f. ParseControlFilePath (abs_path [''h'', ''.hpk''])
      (filepath_Join [pod_dir (abs_path [''h'', ''.hpk'']) \<lparr>key_namespace = ''default'', key_name = ''web''\<rparr>,
        ''controlfiles'']) = Ret (k', f, True)"
  by (rule ParseControlFilePath_pod_dir_entry) (simp_all add: name_ok_def key_ok_def)

subsection \<open>The walk visits exactly the pods\<close>

text \<open>
  What the walk should do: call \<open>f\<close> on the pod directories in order, and stop at the first error.
\<close>

fun visit_all :: "(string \<Rightarrow> 's \<Rightarrow> go_error option \<times> 's) \<Rightarrow> string list \<Rightarrow> 's \<Rightarrow> go_error option \<times> 's" where
  "visit_all f [] st = (None, st)"
| "visit_all f (d # ds) st =
     (case f d st of (Some e, st') \<Rightarrow> (Some e, st') | (None, st') \<Rightarrow> visit_all f ds st')"

definition sys_dir :: "fpath \<Rightarrow> fpath \<Rightarrow> bool" where
  "sys_dir root q = (q = root @ [''.corrupted''] \<or> q = root @ [''.images''])"

definition under_sys :: "fpath \<Rightarrow> fpath \<Rightarrow> bool" where
  "under_sys root q = (prefix (root @ [''.corrupted'']) q \<or> prefix (root @ [''.images'']) q)"

definition is_pod_path :: "fsys \<Rightarrow> fpath \<Rightarrow> fpath \<Rightarrow> bool" where
  "is_pod_path w root q =
     (length q = length root + 2 \<and> is_dir (fs_lookup w q) \<and> \<not> under_sys root q)"

definition pod_directories :: "fsys \<Rightarrow> fpath \<Rightarrow> string list" where
  "pod_directories w root = map abs_path (filter (is_pod_path w root) (walk_below w root))"

text \<open>Every entry lies in a directory.\<close>

definition fs_wf :: "fsys \<Rightarrow> bool" where
  "fs_wf w = list_all (\<lambda>(q, n). q \<noteq> [] \<and> list_all name_ok q \<and> is_dir (fs_lookup w (butlast q))) (entries w)"

lemma under_sys_iff: "under_sys root q \<longleftrightarrow> (\<exists>s. sys_dir root s \<and> prefix s q)"
  by (auto simp: under_sys_def sys_dir_def)

lemma walk_string_abs:
  assumes "root \<noteq> []" "prefix root q"
  shows "walk_string (abs_path root) root q = abs_path q"
proof -
  have "concat (map (\<lambda>c. slash # c) ms) = (if ms = [] then [] else abs_path ms)" for ms
    by (induction ms) (auto simp: abs_path_def strings_Join_Cons)
  then show ?thesis using assms by (auto simp: walk_string_def prefix_def abs_path_append)
qed

lemma prefix_le_list: "prefix xs ys \<Longrightarrow> xs \<le> (ys :: 'a :: linorder list)"
proof (induction xs arbitrary: ys)
  case (Cons x xs)
  then show ?case by (cases ys) auto
qed simp

text \<open>
  The state of the walk: what the skipped directories are, and that a path below a system
  directory is either skipped already or still behind that directory.
\<close>

definition walk_inv :: "fsys \<Rightarrow> fpath \<Rightarrow> fpath list \<Rightarrow> fpath list \<Rightarrow> bool" where
  "walk_inv w root skipped qs \<longleftrightarrow>
     sorted qs \<and> (\<forall>q\<in>set qs. prefix root q \<and> list_all name_ok q) \<and>
     (\<forall>s\<in>set skipped. sys_dir root s \<or> length root + 2 < length s) \<and>
     (\<forall>q\<in>set qs. under_sys root q \<longrightarrow> is_dir (fs_lookup w q) \<longrightarrow>
        (\<exists>s. sys_dir root s \<and> prefix s q \<and>
          (s \<in> set skipped \<or> s \<in> set qs \<and> is_dir (fs_lookup w s))))"

lemma walk_inv_tl:
  assumes "walk_inv w root skipped (q # qs)"
    and "sys_dir root q \<Longrightarrow> is_dir (fs_lookup w q) \<Longrightarrow> \<exists>s\<in>set skipped'. sys_dir root s \<and> prefix s q"
    and "set skipped \<subseteq> set skipped'" "\<forall>s\<in>set skipped'. sys_dir root s \<or> length root + 2 < length s"
  shows "walk_inv w root skipped' qs"
  unfolding walk_inv_def
proof (intro conjI ballI impI)
  fix r
  assume r: "r \<in> set qs" "under_sys root r" "is_dir (fs_lookup w r)"
  with assms(1) obtain s where s: "sys_dir root s" "prefix s r"
      "s \<in> set skipped \<or> s \<in> set (q # qs) \<and> is_dir (fs_lookup w s)"
    unfolding walk_inv_def by (metis list.set_intros(2))
  show "\<exists>s. sys_dir root s \<and> prefix s r \<and> (s \<in> set skipped' \<or> s \<in> set qs \<and> is_dir (fs_lookup w s))"
  proof (cases "s \<in> set skipped \<or> s \<in> set qs \<and> is_dir (fs_lookup w s)")
    case True
    with s assms(3) show ?thesis by blast
  next
    case False
    with s have "s = q" "is_dir (fs_lookup w q)" by auto
    with assms(2) s obtain s' where "s' \<in> set skipped'" "sys_dir root s'" "prefix s' q" by blast
    with s \<open>s = q\<close> show ?thesis by (meson prefix_order.trans)
  qed
qed (use assms in \<open>auto simp: walk_inv_def\<close>)

lemma walk_inv_skipped:
  assumes "walk_inv w root skipped (q # qs)" "list_ex (\<lambda>s. prefix s q) skipped"
  shows "\<not> is_pod_path w root q"
proof -
  from assms obtain s where "s \<in> set skipped" "prefix s q" by (auto simp: list_ex_iff)
  with assms(1) show ?thesis
    by (fastforce simp: walk_inv_def is_pod_path_def under_sys_iff dest: prefix_length_le)
qed

lemma walk_inv_under_sys:
  assumes "walk_inv w root skipped (q # qs)" "under_sys root q" "\<not> list_ex (\<lambda>s. prefix s q) skipped"
    and "is_dir (fs_lookup w q)"
  shows "sys_dir root q"
proof -
  from assms(1,2,4) obtain s where s: "sys_dir root s" "prefix s q" "s \<in> set skipped \<or> s \<in> set (q # qs)"
    unfolding walk_inv_def by (meson list.set_intros(1))
  with assms(3) have "s \<in> set (q # qs)" by (auto simp: list_ex_iff)
  with assms(1) have "q \<le> s" by (auto simp: walk_inv_def)
  with s(2) prefix_le_list [of s q] have "s = q" by simp
  with s show ?thesis by simp
qed

text \<open>The tests of the callback, on clean paths.\<close>

lemma walk_tests:
  assumes "list_all name_ok root" "root \<noteq> []" "prefix root q" "list_all name_ok q"
  shows "abs_path q = CorruptedDir (abs_path root) \<or> abs_path q = ImageDir (abs_path root) \<longleftrightarrow> sys_dir root q"
    and "strings_Count (abs_path q) slash = length q"
    and "strings_Count (abs_path root) slash = length root"
proof -
  have "list_all name_ok (root @ [''.corrupted''])" "list_all name_ok (root @ [''.images''])"
    using assms by simp_all
  with assms show "abs_path q = CorruptedDir (abs_path root) \<or> abs_path q = ImageDir (abs_path root) \<longleftrightarrow> sys_dir root q"
    by (simp add: CorruptedDir_def ImageDir_def sys_dir_def abs_path_inject)
  have "q \<noteq> []" using assms by auto
  with assms show "strings_Count (abs_path q) slash = length q" "strings_Count (abs_path root) slash = length root"
    by (simp_all add: strings_Count_def count_slash_abs_path)
qed

lemma walk_pods_spec:
  assumes "list_all name_ok root" "root \<noteq> []" "\<And>s. faults w SysReaddir s = None"
  shows "walk_inv w root skipped qs \<Longrightarrow>
    walk_pods w (abs_path root) root f skipped qs st =
    visit_all f (map abs_path (filter (is_pod_path w root) qs)) st"
proof (induction qs arbitrary: skipped st)
  case (Cons q qs)
  then have q: "prefix root q" "list_all name_ok q"
    and sk: "\<forall>s\<in>set skipped. sys_dir root s \<or> length root + 2 < length s"
    by (auto simp: walk_inv_def)
  note tests = walk_tests [OF assms(1,2) q] walk_string_abs [OF assms(2) q(1)]
  have keep: "walk_inv w root skipped qs" if hit: "sys_dir root q \<Longrightarrow> is_dir (fs_lookup w q) \<Longrightarrow> list_ex (\<lambda>s. prefix s q) skipped"
  proof (rule walk_inv_tl [OF Cons.prems])
    assume sys: "sys_dir root q" and "is_dir (fs_lookup w q)"
    with hit obtain s where s: "s \<in> set skipped" "prefix s q" by (auto simp: list_ex_iff)
    moreover from sys s(2) have "length s \<le> Suc (length root)"
      by (auto simp: sys_dir_def dest: prefix_length_le)
    ultimately show "\<exists>s\<in>set skipped. sys_dir root s \<and> prefix s q" using sk by force
  qed (use sk in auto)
  have add: "walk_inv w root (q # skipped) qs" if "sys_dir root q \<or> length root + 2 < length q"
    by (rule walk_inv_tl [OF Cons.prems]) (use sk that in auto)
  consider (skip) "list_ex (\<lambda>s. prefix s q) skipped"
    | (plain) "\<not> list_ex (\<lambda>s. prefix s q) skipped" "\<not> is_dir (fs_lookup w q)"
    | (sys) "\<not> list_ex (\<lambda>s. prefix s q) skipped" "is_dir (fs_lookup w q)" "sys_dir root q"
    | (dir) "\<not> list_ex (\<lambda>s. prefix s q) skipped" "is_dir (fs_lookup w q)" "\<not> sys_dir root q"
    by blast
  then show ?case
  proof cases
    case skip
    with Cons.IH [OF keep] walk_inv_skipped [OF Cons.prems] show ?thesis by simp
  next
    case plain
    with Cons.IH [OF keep] show ?thesis by (simp add: is_pod_path_def)
  next
    case sys
    then have "\<not> is_pod_path w root q" by (auto simp: is_pod_path_def sys_dir_def)
    with sys Cons.IH [OF add] show ?thesis by (simp add: tests)
  next
    case dir
    then have pod: "is_pod_path w root q \<longleftrightarrow> length q = length root + 2"
      using walk_inv_under_sys [OF Cons.prems _ dir(1,2)] by (auto simp: is_pod_path_def)
    show ?thesis
    proof (cases "length root + 2 < length q")
      case True
      with dir pod Cons.IH [OF add] show ?thesis by (simp add: tests)
    next
      case False
      with dir pod Cons.IH [OF keep] assms(3) show ?thesis
        by (auto simp: tests split: option.splits prod.splits)
    qed
  qed
qed simp

lemma is_dir_key: "is_dir (fs_lookup w q) \<Longrightarrow> q \<noteq> [] \<Longrightarrow> q \<in> set (map fst (entries w))"
  by (auto simp: fs_lookup_def elim!: is_dirE dest!: map_of_SomeD intro: rev_image_eqI)

lemma fs_wf_ancestor:
  assumes "fs_wf w"
  shows "q \<in> set (map fst (entries w)) \<Longrightarrow> strict_prefix s q \<Longrightarrow> s \<noteq> [] \<Longrightarrow>
    s \<in> set (map fst (entries w)) \<and> is_dir (fs_lookup w s)"
proof (induction q rule: rev_induct)
  case (snoc c q)
  with assms have q: "is_dir (fs_lookup w q)" by (fastforce simp: fs_wf_def list_all_iff)
  show ?case
  proof (cases "s = q")
    case True
    with q snoc.prems(3) is_dir_key show ?thesis by blast
  next
    case False
    with snoc.prems have sp: "strict_prefix s q" by (auto simp: strict_prefix_def)
    with snoc.prems(3) have "q \<noteq> []" by auto
    with q have "q \<in> set (map fst (entries w))" by (rule is_dir_key)
    with snoc.IH sp snoc.prems(3) show ?thesis by blast
  qed
qed simp

lemma walk_inv_start:
  assumes "fs_wf w"
  shows "walk_inv w root [] (walk_below w root)"
proof -
  have "list_all name_ok q" if "q \<in> set (walk_below w root)" for q
    using that assms by (auto simp: walk_below_def fs_wf_def list_all_iff)
  moreover have "\<exists>s. sys_dir root s \<and> prefix s q \<and> s \<in> set (walk_below w root) \<and> is_dir (fs_lookup w s)"
    if q: "q \<in> set (walk_below w root)" "under_sys root q" "is_dir (fs_lookup w q)" for q
  proof -
    from q(2) obtain s where s: "sys_dir root s" "prefix s q" by (auto simp: under_sys_iff)
    then have "prefix root s" "s \<noteq> []" by (auto simp: sys_dir_def)
    with q s fs_wf_ancestor [OF assms, of q s] show ?thesis
      by (cases "s = q") (auto simp: walk_below_def strict_prefix_def)
  qed
  ultimately show ?thesis by (auto simp: walk_inv_def walk_below_def)
qed

lemma WalkPodDirectories_spec:
  assumes "list_all name_ok root" "root \<noteq> []" "real_dir w root" "fs_wf w"
    and "\<And>s. faults w SysReaddir s = None" "faults w SysLstat (abs_path root) = None"
  shows "WalkPodDirectories w (abs_path root) f st = Ret (visit_all f (pod_directories w root) st)"
proof -
  obtain m where "fs_lookup w root = Some (Dir m)"
    using real_dir_lookup [OF assms(3)] by (auto elim: is_dirE)
  then have "os_Lstat w (abs_path root) = Inr (Dir m)"
    using assms fs_resolve_dir [OF assms(1,3)] by (simp add: os_Lstat_def syscall_def node_at_def)
  with assms fs_resolve_dir [OF assms(1,3)] show ?thesis
    by (simp add: WalkPodDirectories_def HPKPath_String_def pod_directories_def
        walk_pods_spec walk_inv_start)
qed

text \<open>
  C36. The walk calls its function on the pod directories (the directories two levels below the HPK
  root, outside \<open>.images\<close> and \<open>.corrupted\<close>), each once, in lexical order, and on nothing else; it
  stops at the first error the function returns.
\<close>

theorem WalkPodDirectories_visits:
  assumes "list_all name_ok root" "root \<noteq> []" "real_dir w root" "fs_wf w"
    and "\<And>s. faults w SysReaddir s = None" "faults w SysLstat (abs_path root) = None"
  shows "WalkPodDirectories w (abs_path root) f st = Ret (visit_all f (pod_directories w root) st)"
  by (rule WalkPodDirectories_spec) (use assms in auto)

definition demo_fs :: fsys where
  "demo_fs = \<lparr>entries = [([''h''], Dir 493), ([''h'', ''.images''], Dir 493),
     ([''h'', ''.images'', ''x''], Dir 493), ([''h'', ''default''], Dir 493),
     ([''h'', ''default'', ''web''], Dir 493), ([''h'', ''default'', ''db''], Dir 493),
     ([''h'', ''default'', ''web'', ''job''], Dir 493),
     ([''h'', ''default'', ''note''], File ''x'' 420 0)],
   umask = 18, clock = 100,
   utc = \<lparr>year = 2023, month = 5, day = 6, hour = 7, minute = 8, second = 9\<rparr>,
   rand_suffixes = [''1'', ''2''], faults = (\<lambda>op s. None)\<rparr>"

theorem WalkPodDirectories_visits_witness:
  "WalkPodDirectories demo_fs (abs_path [''h'']) (\<lambda>d ds. (None, ds @ [d])) [] =
   Ret (visit_all (\<lambda>d ds. (None, ds @ [d])) (pod_directories demo_fs [''h'']) [])"
  by (rule WalkPodDirectories_visits)
    (simp_all add: demo_fs_def name_ok_def fs_wf_def fs_lookup_def)

end
