(* ===== verification/HPK_K8s.thy ===== *)
theory HPK_K8s
  imports HPK_Endpoint
begin

text \<open>
  The Kubernetes API objects (\<open>corev1\<close>, \<open>metav1\<close>) that the sources read and write, with the fields
  that they use. A pointer field is an option, a Go map is an association list with distinct keys,
  a map's \<open>m[k] = v\<close> is \<open>AList.update\<close>. A \<open>resource.Quantity\<close> is represented by its text, as in the
  JSON form of the objects; its operations belong to the Kubernetes library and are parameters of
  the definitions that use them. A \<open>metav1.Time\<close> is \<open>None\<close> for the zero time and \<open>Some t\<close> otherwise.
\<close>

type_synonym gotime = "int option"
type_synonym quantity = string
type_synonym resource_list = "(string \<times> quantity) list"
type_synonym strmap = "(string \<times> string) list"

definition now :: "fsys \<Rightarrow> gotime" where
  "now w = Some (clock w)"

subsection \<open>Metadata\<close>

record objectmeta =
  om_namespace :: string
  om_name :: string
  om_uid :: string
  om_labels :: strmap
  om_annotations :: strmap
  om_resourceVersion :: string

text \<open>\<open>m[k]\<close> of a Go map with string values: the empty string when the key is absent.\<close>

definition map_get :: "strmap \<Rightarrow> string \<Rightarrow> string" where
  "map_get m k = (case map_of m k of None \<Rightarrow> [] | Some v \<Rightarrow> v)"

subsection \<open>Container and pod specification\<close>

record field_ref =
  fr_apiVersion :: string
  fr_fieldPath :: string

record envvar =
  ev_name :: string
  ev_value :: string
  ev_fieldRef :: "field_ref option"

record volume_mount =
  vm_name :: string
  vm_mountPath :: string
  vm_subPath :: string
  vm_subPathExpr :: string
  vm_readOnly :: bool

record windows_options =
  wo_gmsaCredentialSpecName :: "string option"
  wo_gmsaCredentialSpec :: "string option"
  wo_runAsUserName :: "string option"
  wo_hostProcess :: "bool option"

record security_context =
  sc_capabilities :: "string option"
  sc_privileged :: "bool option"
  sc_seLinuxOptions :: "string option"
  sc_windowsOptions :: "windows_options option"
  sc_runAsUser :: "int option"
  sc_runAsGroup :: "int option"
  sc_runAsNonRoot :: "bool option"
  sc_readOnlyRootFilesystem :: "bool option"
  sc_allowPrivilegeEscalation :: "bool option"
  sc_procMount :: "string option"

record pod_security_context =
  psc_seLinuxOptions :: "string option"
  psc_windowsOptions :: "windows_options option"
  psc_runAsUser :: "int option"
  psc_runAsGroup :: "int option"
  psc_runAsNonRoot :: "bool option"

record container =
  c_name :: string
  c_image :: string
  c_command :: "string list option"
  c_args :: "string list option"
  c_env :: "envvar list"
  c_requests :: resource_list
  c_volumeMounts :: "volume_mount list"
  c_securityContext :: "security_context option"
  c_startupProbe :: bool
  c_livenessProbe :: bool
  c_readinessProbe :: bool

subsection \<open>Volumes\<close>

record key_to_path =
  ktp_key :: string
  ktp_path :: string
  ktp_mode :: "int option"

record object_source =  \<comment> \<open>a ConfigMap or Secret volume source or projection\<close>
  os_name :: string
  os_items :: "key_to_path list"
  os_defaultMode :: "int option"
  os_optional :: "bool option"

record downward_file =
  df_path :: string
  df_fieldRef :: "field_ref option"
  df_resourceFieldRef :: bool
  df_mode :: "int option"

record token_projection =
  tp_audience :: string
  tp_expirationSeconds :: "int option"
  tp_path :: string

record projection_source =
  ps_secret :: "object_source option"
  ps_configMap :: "object_source option"
  ps_downwardAPI :: "downward_file list option"
  ps_serviceAccountToken :: "token_projection option"

record projected_source =
  pj_sources :: "projection_source list"
  pj_defaultMode :: "int option"

record host_path =
  hp_path :: string
  hp_type :: "string option"

record volume =
  vol_name :: string
  vol_emptyDir :: bool
  vol_configMap :: "object_source option"
  vol_secret :: "object_source option"
  vol_downwardAPI :: "downward_file list option"
  vol_hostPath :: "host_path option"
  vol_persistentVolumeClaim :: "string option"  \<comment> \<open>the name of the claim\<close>
  vol_projected :: "projected_source option"

record podspec =
  ps_volumes :: "volume list"
  ps_initContainers :: "container list"
  ps_containers :: "container list"
  ps_ephemeralContainers :: "container list"
  ps_affinity :: bool
  ps_dnsConfig :: bool
  ps_securityContext :: "pod_security_context option"
  ps_serviceAccountName :: string
  ps_nodeName :: string

subsection \<open>Status\<close>

datatype pod_phase = NoPhase | Pending | Running | Succeeded | Failed | UnknownPhase

record waiting =
  wait_reason :: string
  wait_message :: string

record terminated =
  term_exitCode :: int
  term_signal :: int
  term_reason :: string
  term_message :: string
  term_startedAt :: gotime
  term_finishedAt :: gotime
  term_containerID :: string

record container_state =
  st_waiting :: "waiting option"
  st_running :: "gotime option"  \<comment> \<open>the field \<open>StartedAt\<close>\<close>
  st_terminated :: "terminated option"

record container_status =
  cs_name :: string
  cs_state :: container_state
  cs_lastTerminationState :: container_state
  cs_ready :: bool
  cs_restartCount :: int
  cs_image :: string
  cs_imageID :: string
  cs_containerID :: string
  cs_started :: "bool option"

definition empty_state :: container_state where
  "empty_state = \<lparr>st_waiting = None, st_running = None, st_terminated = None\<rparr>"

text \<open>The zero value of a \<open>ContainerStatus\<close>.\<close>

definition zero_status :: container_status where
  "zero_status = \<lparr>cs_name = [], cs_state = empty_state, cs_lastTerminationState = empty_state,
     cs_ready = False, cs_restartCount = 0, cs_image = [], cs_imageID = [], cs_containerID = [],
     cs_started = None\<rparr>"

datatype condition_status = ConditionTrue | ConditionFalse | ConditionUnknown

record pod_condition =
  pc_type :: string
  pc_status :: condition_status
  pc_lastTransitionTime :: gotime
  pc_reason :: string
  pc_message :: string

record podstatus =
  s_phase :: pod_phase
  s_conditions :: "pod_condition list"
  s_message :: string
  s_reason :: string
  s_hostIP :: string
  s_podIP :: string
  s_podIPs :: "string list"
  s_initContainerStatuses :: "container_status list"
  s_containerStatuses :: "container_status list"

record pod =
  p_meta :: objectmeta
  p_spec :: podspec
  p_status :: podstatus

definition PodInitialized :: string where "PodInitialized = ''Initialized''"
definition PodReady :: string where "PodReady = ''Ready''"
definition ContainersReady :: string where "ContainersReady = ''ContainersReady''"

lemmas condition_types = PodInitialized_def PodReady_def ContainersReady_def

text \<open>\<open>client.ObjectKeyFromObject\<close>.\<close>

definition ObjectKeyFromObject :: "pod \<Rightarrow> objkey" where
  "ObjectKeyFromObject p = \<lparr>key_namespace = om_namespace (p_meta p), key_name = om_name (p_meta p)\<rparr>"

subsection \<open>Updates of nested fields\<close>

definition upd_status :: "(podstatus \<Rightarrow> podstatus) \<Rightarrow> pod \<Rightarrow> pod" where
  "upd_status f p = p\<lparr>p_status := f (p_status p)\<rparr>"

definition upd_annotations :: "(strmap \<Rightarrow> strmap) \<Rightarrow> pod \<Rightarrow> pod" where
  "upd_annotations f p = p\<lparr>p_meta := (p_meta p)\<lparr>om_annotations := f (om_annotations (p_meta p))\<rparr>\<rparr>"

lemma upd_status_simps [simp]:
  "p_status (upd_status f p) = f (p_status p)" "p_meta (upd_status f p) = p_meta p"
  "p_spec (upd_status f p) = p_spec p"
  by (simp_all add: upd_status_def)

lemma upd_annotations_simps [simp]:
  "p_status (upd_annotations f p) = p_status p" "p_spec (upd_annotations f p) = p_spec p"
  "om_annotations (p_meta (upd_annotations f p)) = f (om_annotations (p_meta p))"
  "om_namespace (p_meta (upd_annotations f p)) = om_namespace (p_meta p)"
  "om_name (p_meta (upd_annotations f p)) = om_name (p_meta p)"
  by (simp_all add: upd_annotations_def)

lemma ObjectKey_upd [simp]:
  "ObjectKeyFromObject (upd_status f p) = ObjectKeyFromObject p"
  "ObjectKeyFromObject (upd_annotations g p) = ObjectKeyFromObject p"
  by (simp_all add: ObjectKeyFromObject_def)

end
