(* ===== verification/HPK_Slurm.thy ===== *)
theory HPK_Slurm
  imports HPK_K8s
begin

text \<open>
  Packages \<open>pkg/process\<close> and \<open>compute/slurm\<close> (\<open>idtype.go\<close>, \<open>submit.go\<close>, \<open>cancel.go\<close>,
  \<open>connect.go\<close>). The state \<open>host\<close> is the file system and the commands run so far. What an external
  command (\<open>sbatch\<close>, \<open>scancel\<close>, \<open>sinfo\<close>, \<open>apptainer\<close>) answers and writes is a parameter \<open>proc\<close>.
  The lemmas show that a submitted job's id is the one Slurm printed, that the id stored in a pod
  is read back, and how the failures of \<open>scancel\<close> are classified.
\<close>

subsection \<open>Running commands (exec.go)\<close>

datatype proc_result =
    ProcOk string                 \<comment> \<open>exit code 0; the combined output\<close>
  | ProcNoStart go_error
  | ProcFailed string go_error    \<comment> \<open>the combined output and the exit error\<close>

record host =
  h_fs :: fsys
  h_cmds :: "(string \<times> string list) list"

type_synonym proc = "string \<Rightarrow> string list \<Rightarrow> host \<Rightarrow> proc_result \<times> fsys"

text \<open>
  \<open>process.ExecuteInDir\<close> returns the output also in case of error. How a command behaves depends on the
  working directory, \<open>[]\<close> for that of the program itself; \<open>Execute\<close> runs it there.
\<close>

definition ExecuteInDir :: "(string \<Rightarrow> proc) \<Rightarrow> string \<Rightarrow> string \<Rightarrow> string list \<Rightarrow> host \<Rightarrow> string \<times> go_error option \<times> host" where
  "ExecuteInDir proc dir command arguments h =
     (let (r, fs) = proc dir command arguments h;
          h' = h\<lparr>h_fs := fs, h_cmds := h_cmds h @ [(command, arguments)]\<rparr>
      in case r of
           ProcOk out \<Rightarrow> (out, None, h')
         | ProcNoStart e \<Rightarrow> ([], Some (Wrapped e ''could not start process''), h')
         | ProcFailed out e \<Rightarrow> (out, Some (Wrapped e ''process error''), h'))"

definition Execute :: "proc \<Rightarrow> string \<Rightarrow> string list \<Rightarrow> host \<Rightarrow> string \<times> go_error option \<times> host" where
  "Execute proc command arguments h = ExecuteInDir (\<lambda>dir. proc) [] command arguments h"

lemmas Execute_defs = Execute_def ExecuteInDir_def

text \<open>
  The variant with logging copies the output to a writer as well, here the text \<open>log\<close> written so far (a
  writer that accepts everything); the asynchronous variant only starts the process, \<open>start\<close> says whether
  that fails, and returns the command in either case.
\<close>

definition LoggedExecuteInDir :: "(string \<Rightarrow> proc) \<Rightarrow> string \<Rightarrow> string \<Rightarrow> string \<Rightarrow> string list \<Rightarrow> host \<Rightarrow>
    (string \<times> go_error option) \<times> string \<times> host" where
  "LoggedExecuteInDir proc dir log command arguments h =
     (let (r, fs) = proc dir command arguments h;
          h' = h\<lparr>h_fs := fs, h_cmds := h_cmds h @ [(command, arguments)]\<rparr>
      in case r of
           ProcOk out \<Rightarrow> ((out, None), log @ out, h')
         | ProcNoStart e \<Rightarrow> (([], Some (Wrapped e ''could not start process'')), log, h')
         | ProcFailed out e \<Rightarrow> ((out, Some (Wrapped e ''process error'')), log @ out, h'))"

record exec_cmd =
  ex_Path :: string
  ex_Args :: "string list"
  ex_Dir :: string

definition ExecuteAsyncInDir :: "(exec_cmd \<Rightarrow> go_error option) \<Rightarrow> string \<Rightarrow> string \<Rightarrow> string list \<Rightarrow> exec_cmd \<times> go_error option" where
  "ExecuteAsyncInDir start dir command arguments =
     (let cmd = \<lparr>ex_Path = command, ex_Args = arguments, ex_Dir = []\<rparr>;
          cmd = (if dir \<noteq> [] then cmd\<lparr>ex_Dir := dir\<rparr> else cmd)
      in case start cmd of Some e \<Rightarrow> (cmd, Some (Wrapped e ''process error'')) | None \<Rightarrow> (cmd, None))"

definition ExecuteAsync :: "(exec_cmd \<Rightarrow> go_error option) \<Rightarrow> string \<Rightarrow> string list \<Rightarrow> exec_cmd \<times> go_error option" where
  "ExecuteAsync start command arguments = ExecuteAsyncInDir start [] command arguments"

text \<open>The variant with logging answers like the other one and appends exactly the output it returns.\<close>

lemma LoggedExecuteInDir_output:
  assumes "ExecuteInDir proc dir command arguments h = (out, err, h')"
  shows "LoggedExecuteInDir proc dir log command arguments h = ((out, err), log @ out, h')"
  using assms by (auto simp: ExecuteInDir_def LoggedExecuteInDir_def Let_def split: prod.splits proc_result.splits)

text \<open>\<open>ExecuteString\<close>: \<open>strings.Split\<close> never returns an empty list, so its last branch is dead.\<close>

definition ExecuteString :: "proc \<Rightarrow> string \<Rightarrow> host \<Rightarrow> string \<times> go_error option \<times> host" where
  "ExecuteString proc command h =
     (case split_char CHR '' '' command of
        [] \<Rightarrow> ([], Some (Message (''invalid command to run '' @ command)), h)
      | c # arguments \<Rightarrow>
          (case Execute proc c arguments h of
             (out, None, h') \<Rightarrow> (out, None, h')
           | (out, Some e, h') \<Rightarrow> (out, Some (Wrapped e ''error''), h')))"

subsection \<open>Job ids (idtype.go)\<close>

definition JobIDTypeInstance :: string where "JobIDTypeInstance = ''instance://''"
definition JobIDTypeProcess :: string where "JobIDTypeProcess = ''pid://''"
definition JobIDTypeSlurm :: string where "JobIDTypeSlurm = ''slurm://''"
definition JobIDTypeEmpty :: string where "JobIDTypeEmpty = ''Empty''"

definition pod_id_key :: string where "pod_id_key = ''pod.hpk/id''"

definition parseIDType :: "string \<Rightarrow> string outcome" where
  "parseIDType raw =
     (if strings_HasPrefix raw JobIDTypeSlurm then Ret (strings_Split raw JobIDTypeSlurm ! 1)
      else if strings_HasPrefix raw JobIDTypeProcess then Ret (strings_Split raw JobIDTypeProcess ! 1)
      else Panic (''unknown id format: '' @ raw))"

definition SetPodID :: "pod \<Rightarrow> string \<Rightarrow> string \<Rightarrow> pod" where
  "SetPodID pod idType value = upd_annotations (AList.update pod_id_key (idType @ value)) pod"

definition SetContainerStatusID :: "container_status \<Rightarrow> string \<Rightarrow> container_status outcome" where
  "SetContainerStatusID status typedValue =
     bind_outcome (parseIDType typedValue) (\<lambda>_. Ret (status\<lparr>cs_containerID := typedValue\<rparr>))"

definition HasJobID :: "pod \<Rightarrow> bool" where
  "HasJobID pod = (map_of (om_annotations (p_meta pod)) pod_id_key \<noteq> None)"

definition GetJobID :: "pod \<Rightarrow> string outcome" where
  "GetJobID pod =
     (case map_of (om_annotations (p_meta pod)) pod_id_key of
        None \<Rightarrow> Panic ''this should not happen''
      | Some raw \<Rightarrow> parseIDType raw)"

subsection \<open>Submission and cancellation (connect.go, submit.go, cancel.go)\<close>

definition SubmitCmd :: string where "SubmitCmd = ''sbatch''"
definition CancelCmd :: string where "CancelCmd = ''scancel''"
definition StatsCmd :: string where "StatsCmd = ''sinfo''"
definition ExcludeNodes :: string where "ExcludeNodes = ''--exclude=''"
definition NewUserEnv :: string where "NewUserEnv = ''--get-user-env=10L''"

definition ConnectionOK :: bool where "ConnectionOK = True"

text \<open>
  The leftmost match of \<open>Submitted batch job (\d+)\<close>: the digits are taken greedily.
\<close>

definition submitted_text :: string where "submitted_text = ''Submitted batch job ''"

fun find_job_id :: "string \<Rightarrow> string option" where
  "find_job_id [] = None"
| "find_job_id (c # s) =
     (let ds = takeWhile is_digit (drop (length submitted_text) (c # s))
      in if prefix submitted_text (c # s) \<and> ds \<noteq> [] then Some ds else find_job_id s)"

definition SubmitJob :: "proc \<Rightarrow> string \<Rightarrow> host \<Rightarrow> string outcome \<times> host" where
  "SubmitJob proc scriptFile h =
     (case Execute proc SubmitCmd [ExcludeNodes, NewUserEnv, scriptFile] h of
        (out, Some err, h') \<Rightarrow> (Panic (''job submission error''), h')
      | (out, None, h') \<Rightarrow>
          (case find_job_id out of
             None \<Rightarrow> (Panic ''index out of range'', h')
           | Some jid \<Rightarrow>
               (case strconv_Atoi jid of
                  None \<Rightarrow> (Panic ''Invalid JobID'', h')
                | Some n \<Rightarrow> (Ret jid, h'))))"

definition ErrRety :: go_error where "ErrRety = Sentinel ''retry later''"
definition ErrInvalidJob :: go_error where "ErrInvalidJob = Sentinel ''invalid job id''"

definition CancelJob :: "proc \<Rightarrow> string \<Rightarrow> host \<Rightarrow> string \<times> go_error option \<times> host" where
  "CancelJob proc args h =
     (case Execute proc CancelCmd [args] h of
        (out, None, h') \<Rightarrow> (out, None, h')
      | (out, Some err, h') \<Rightarrow>
          if strings_Contains out ''Invalid job id specified'' then (out, Some ErrInvalidJob, h')
          else if strings_Contains out ''Job can not be altered now, try again later''
          then (out, Some ErrRety, h')
          else (out, Some (Wrapped err ''Could not run scancel''), h'))"

subsection \<open>Properties\<close>

lemma strings_Split_prefix:
  assumes "p \<noteq> []" "\<not> strings_Contains s p"
  shows "strings_Split (p @ s) p = [[], s]"
proof -
  from assms(1) obtain c p' where p: "p = c # p'" by (cases p) auto
  then have "strings_Index (p @ s) p = Some 0" by simp
  moreover from assms(2) have "strings_Index s p = None" by (simp add: strings_Contains_def)
  ultimately show ?thesis using p by (simp add: strings_Split.simps)
qed

lemma JobIDType_not_Nil [simp]: "JobIDTypeSlurm \<noteq> []" "JobIDTypeProcess \<noteq> []"
  by (simp_all add: JobIDTypeSlurm_def JobIDTypeProcess_def)

lemma GetJobID_SetPodID:
  "\<not> strings_Contains jid JobIDTypeSlurm \<Longrightarrow>
   GetJobID (SetPodID pod JobIDTypeSlurm jid) = Ret jid \<and> HasJobID (SetPodID pod JobIDTypeSlurm jid)"
  by (simp add: GetJobID_def HasJobID_def SetPodID_def update_conv' parseIDType_def
      strings_Split_prefix)

lemma strings_Index_set: "strings_Index s sub = Some i \<Longrightarrow> set sub \<subseteq> set s"
proof (induction s arbitrary: i)
  case (Cons c s)
  then show ?case using set_mono_prefix [of sub "c # s"] by (auto split: if_splits option.splits)
qed (auto split: if_splits)

lemma find_job_id_digits: "find_job_id out = Some jid \<Longrightarrow> list_all is_digit jid"
  by (induction out) (auto simp: Let_def list_all_iff split: if_splits dest: set_takeWhileD)

text \<open>A submitted job has an id of digits only, which is read back from the pod.\<close>

lemma SubmitJob_id:
  assumes "SubmitJob proc script h = (Ret jid, h')"
  shows "GetJobID (SetPodID pod JobIDTypeSlurm jid) = Ret jid \<and> HasJobID (SetPodID pod JobIDTypeSlurm jid)"
proof (rule GetJobID_SetPodID)
  from assms have "list_all is_digit jid"
    by (auto simp: SubmitJob_def dest: find_job_id_digits split: prod.splits option.splits)
  then have "CHR ''s'' \<notin> set jid" by (auto simp: list_all_iff is_digit_def)
  then show "\<not> strings_Contains jid JobIDTypeSlurm"
    using strings_Index_set [of jid JobIDTypeSlurm]
    by (cases "strings_Index jid JobIDTypeSlurm") (auto simp: strings_Contains_def JobIDTypeSlurm_def)
qed

text \<open>
  The id that \<open>SetPodID\<close> stores in a pod's annotations is the id that \<open>GetJobID\<close> reads back
  (any earlier id is replaced), and the pod then has a job id.
\<close>

theorem SetPodID_GetJobID:
  assumes "\<not> strings_Contains jid JobIDTypeSlurm"
  shows "GetJobID (SetPodID pod JobIDTypeSlurm jid) = Ret jid \<and> HasJobID (SetPodID pod JobIDTypeSlurm jid)"
  by (rule GetJobID_SetPodID [OF assms])

theorem SetPodID_GetJobID_witness:
  "GetJobID (SetPodID (undefined :: pod) JobIDTypeSlurm ''42'') = Ret ''42'' \<and>
   HasJobID (SetPodID (undefined :: pod) JobIDTypeSlurm ''42'')"
  by (rule SetPodID_GetJobID) (simp add: strings_Contains_def JobIDTypeSlurm_def)

lemma takeWhile_digits: "list_all is_digit ds \<Longrightarrow> (rest = [] \<or> \<not> is_digit (hd rest)) \<Longrightarrow>
  takeWhile is_digit (ds @ rest) = ds"
  by (induction ds) (auto simp: takeWhile_eq_Nil_iff)

text \<open>
  When \<open>sbatch\<close> prints \<open>Submitted batch job N\<close>, \<open>SubmitJob\<close> returns the text of \<open>N\<close>, for every
  non-negative 64-bit number, having run \<open>sbatch\<close> once on the script.
\<close>

theorem SubmitJob_returns_id:
  assumes "0 \<le> n" "in_int64 n"
    and "proc SubmitCmd [ExcludeNodes, NewUserEnv, script] h =
      (ProcOk (''Submitted batch job '' @ strconv_Itoa n @ [CHR 0x0A]), fs)"
  shows "SubmitJob proc script h =
    (Ret (strconv_Itoa n), h\<lparr>h_fs := fs, h_cmds := h_cmds h @ [(SubmitCmd, [ExcludeNodes, NewUserEnv, script])]\<rparr>)"
proof -
  have digits: "list_all is_digit (strconv_Itoa n)"
    using assms(1) nat_digits_all_digits by (simp add: strconv_Itoa_def)
  have "\<not> is_digit CHR 0x0A" by (simp add: is_digit_def)
  with digits have "takeWhile is_digit (strconv_Itoa n @ [CHR 0x0A]) = strconv_Itoa n"
    by (intro takeWhile_digits) simp_all
  then have "find_job_id (submitted_text @ strconv_Itoa n @ [CHR 0x0A]) = Some (strconv_Itoa n)"
    by (simp add: submitted_text_def)
  with assms show ?thesis
    by (simp add: SubmitJob_def Execute_defs submitted_text_def)
qed

theorem SubmitJob_returns_id_witness:
  "SubmitJob (\<lambda>c a h. (ProcOk (''Submitted batch job '' @ strconv_Itoa 4711 @ [CHR 0x0A]), h_fs h)) ''/s.sh''
     \<lparr>h_fs = demo_fs, h_cmds = []\<rparr> =
   (Ret (strconv_Itoa 4711), \<lparr>h_fs = demo_fs, h_cmds = [(SubmitCmd, [ExcludeNodes, NewUserEnv, ''/s.sh''])]\<rparr>)"
  using SubmitJob_returns_id [of 4711 "\<lambda>c a h. (ProcOk (''Submitted batch job '' @ strconv_Itoa 4711 @ [CHR 0x0A]), h_fs h)"
      "''/s.sh''" "\<lparr>h_fs = demo_fs, h_cmds = []\<rparr>" demo_fs]
  by (simp add: in_int64_def)

text \<open>
  The answer of \<open>CancelJob\<close>: no error exactly when \<open>scancel\<close> succeeded, \<open>ErrInvalidJob\<close> exactly
  when it failed and reported an invalid job id, \<open>ErrRety\<close> when it failed with a job that cannot be
  altered now, and in every other case an error that is neither of the two.
\<close>

theorem CancelJob_classifies:
  assumes "proc CancelCmd [jid] h = (ProcFailed out e, fs)" "\<And>s. \<not> errors_Is_sentinel e s"
  shows "\<exists>err h'. CancelJob proc jid h = (out, Some err, h') \<and>
    (errors_Is_sentinel err ''invalid job id'' \<longleftrightarrow> strings_Contains out ''Invalid job id specified'') \<and>
    (errors_Is_sentinel err ''retry later'' \<longleftrightarrow>
       \<not> strings_Contains out ''Invalid job id specified'' \<and>
       strings_Contains out ''Job can not be altered now, try again later'')"
  using assms by (simp add: CancelJob_def Execute_defs ErrInvalidJob_def ErrRety_def)

theorem CancelJob_classifies_witness:
  "\<exists>err h'. CancelJob (\<lambda>c a h. (ProcFailed ''error: Invalid job id specified'' (ExitError ''1''), h_fs h)) ''7''
     \<lparr>h_fs = demo_fs, h_cmds = []\<rparr> = (''error: Invalid job id specified'', Some err, h') \<and>
   (errors_Is_sentinel err ''invalid job id'' \<longleftrightarrow>
      strings_Contains ''error: Invalid job id specified'' ''Invalid job id specified'') \<and>
   (errors_Is_sentinel err ''retry later'' \<longleftrightarrow>
       \<not> strings_Contains ''error: Invalid job id specified'' ''Invalid job id specified'' \<and>
       strings_Contains ''error: Invalid job id specified'' ''Job can not be altered now, try again later'')"
  by (rule CancelJob_classifies [where e = "ExitError ''1''" and fs = demo_fs]) simp_all

end
