(* ===== verification/HPK_Resources.thy ===== *)
theory HPK_Resources
  imports HPK_Slurm
begin

text \<open>
  \<open>pkg/resources/aggregator.go\<close> and \<open>compute/slurm/stats.go\<close>: sums of resource lists, their
  conversion to a Slurm request, and the resources of the cluster. A \<open>resource.Quantity\<close> belongs to
  the Kubernetes library: its operations are the parameter \<open>ops\<close>. The documented laws that the
  theorems rely on are \<open>quantity_laws\<close>: a quantity has an exact amount, adding adds amounts, the zero
  value is zero and \<open>IsZero\<close> tests it.
\<close>

record quantity_ops =
  q_zero :: quantity
  q_IsZero :: "quantity \<Rightarrow> bool"
  q_Add :: "quantity \<Rightarrow> quantity \<Rightarrow> quantity"
  q_Value :: "quantity \<Rightarrow> int"
  q_ScaledMega :: "quantity \<Rightarrow> int"
  q_New :: "int \<Rightarrow> quantity"
  q_NewScaledMega :: "int \<Rightarrow> quantity"
  q_MustParse :: "string \<Rightarrow> quantity"

definition quantity_laws :: "quantity_ops \<Rightarrow> (quantity \<Rightarrow> int) \<Rightarrow> bool" where
  "quantity_laws ops amount \<longleftrightarrow>
     amount (q_zero ops) = 0 \<and> (\<forall>q. q_IsZero ops q \<longleftrightarrow> amount q = 0) \<and>
     (\<forall>a b. amount (q_Add ops a b) = amount a + amount b)"

definition ResourceCPU :: string where "ResourceCPU = ''cpu''"
definition ResourceMemory :: string where "ResourceMemory = ''memory''"
definition ResourceStorage :: string where "ResourceStorage = ''storage''"
definition ResourceEphemeralStorage :: string where "ResourceEphemeralStorage = ''ephemeral-storage''"
definition ResourcePods :: string where "ResourcePods = ''pods''"

lemmas resource_names = ResourceCPU_def ResourceMemory_def ResourceStorage_def
  ResourceEphemeralStorage_def ResourcePods_def

definition counted_resources :: "string list" where
  "counted_resources = [ResourceCPU, ResourceMemory, ResourceStorage, ResourceEphemeralStorage, ResourcePods]"

text \<open>\<open>list.Cpu()\<close>, \<open>list.Memory()\<close>, ...: the entry, or a zero quantity.\<close>

definition rl_get :: "quantity_ops \<Rightarrow> resource_list \<Rightarrow> string \<Rightarrow> quantity" where
  "rl_get ops rl name = (case map_of rl name of Some q \<Rightarrow> q | None \<Rightarrow> q_zero ops)"

subsection \<open>Aggregation (aggregator.go)\<close>

definition NewResourceList :: "quantity_ops \<Rightarrow> resource_list" where
  "NewResourceList ops = map (\<lambda>n. (n, q_zero ops)) counted_resources"

definition add_nonzero :: "quantity_ops \<Rightarrow> quantity \<Rightarrow> quantity \<Rightarrow> quantity" where
  "add_nonzero ops t q = (if q_IsZero ops q then t else q_Add ops t q)"

definition Sum :: "quantity_ops \<Rightarrow> resource_list \<Rightarrow> resource_list list \<Rightarrow> resource_list" where
  "Sum ops aggr rlist =
     (let tot = (\<lambda>n. fold (\<lambda>lst t. add_nonzero ops t (rl_get ops lst n)) rlist (rl_get ops aggr n))
      in fold (\<lambda>n m. AList.update n (tot n) m) counted_resources aggr)"

record resource_request =
  rr_CPU :: "int option"
  rr_Memory :: "int option"

definition ResourceListToStruct :: "quantity_ops \<Rightarrow> resource_list \<Rightarrow> resource_request" where
  "ResourceListToStruct ops lst =
     \<lparr>rr_CPU = (let cpu = rl_get ops lst ResourceCPU in if q_IsZero ops cpu then None else Some (q_Value ops cpu)),
      rr_Memory = (let mem = rl_get ops lst ResourceMemory in if q_IsZero ops mem then None else Some (q_ScaledMega ops mem))\<rparr>"

subsection \<open>Cluster statistics (stats.go)\<close>

record node_info =
  ni_architecture :: string
  ni_kernelVersion :: string
  ni_name :: string
  ni_cpus :: nat
  ni_cores :: nat
  ni_ephemeralStorage :: nat
  ni_freeMemory :: int
  ni_partitions :: "string list"

definition to_int64 :: "nat \<Rightarrow> int" where
  "to_int64 n = (int n + 2 ^ 63) mod 2 ^ 64 - 2 ^ 63"

definition node_ResourceList :: "quantity_ops \<Rightarrow> node_info \<Rightarrow> resource_list" where
  "node_ResourceList ops i =
     [(''cpu'', q_New ops (to_int64 (ni_cpus i))),
      (''memory'', q_NewScaledMega ops (ni_freeMemory i)),
      (''ephemeral'', q_New ops (to_int64 (ni_ephemeralStorage i))),
      (''pods'', q_MustParse ops ''110'')]"

text \<open>\<open>decode\<close> is the JSON decoder on the output of \<open>sinfo --long --json\<close>.\<close>

definition getClusterStats :: "proc \<Rightarrow> (string \<Rightarrow> go_error + node_info list) \<Rightarrow> host \<Rightarrow> node_info list outcome \<times> host" where
  "getClusterStats proc decode h =
     (case Execute proc StatsCmd [''--long'', ''--json''] h of
        (out, Some err, h') \<Rightarrow> (Panic ''stats query error'', h')
      | (out, None, h') \<Rightarrow>
          (case decode out of
             Inl err \<Rightarrow> (Panic ''stats decoding error'', h')
           | Inr nodes \<Rightarrow> (Ret nodes, h')))"

definition total_of_nodes :: "quantity_ops \<Rightarrow> node_info list \<Rightarrow> resource_list" where
  "total_of_nodes ops nodes =
     map (\<lambda>n. (n, fold (\<lambda>node t. add_nonzero ops t (rl_get ops (node_ResourceList ops node) n)) nodes (q_zero ops)))
       counted_resources"

definition TotalResources :: "proc \<Rightarrow> (string \<Rightarrow> go_error + node_info list) \<Rightarrow> quantity_ops \<Rightarrow> host \<Rightarrow> resource_list outcome \<times> host" where
  "TotalResources proc decode ops h =
     (case getClusterStats proc decode h of
        (Panic m, h') \<Rightarrow> (Panic m, h')
      | (Ret nodes, h') \<Rightarrow> (Ret (total_of_nodes ops nodes), h'))"

definition AllocatableResources :: "proc \<Rightarrow> (string \<Rightarrow> go_error + node_info list) \<Rightarrow> quantity_ops \<Rightarrow> host \<Rightarrow> resource_list outcome \<times> host" where
  "AllocatableResources proc decode ops h = TotalResources proc decode ops h"

subsection \<open>Properties\<close>

lemma amount_add_nonzero:
  "quantity_laws ops amount \<Longrightarrow> amount (add_nonzero ops t q) = amount t + amount q"
  by (auto simp: quantity_laws_def add_nonzero_def)

lemma amount_fold:
  assumes "quantity_laws ops amount"
  shows "amount (fold (\<lambda>x t. add_nonzero ops t (g x)) xs t0) = amount t0 + sum_list (map (amount \<circ> g) xs)"
  by (induction xs arbitrary: t0) (auto simp: amount_add_nonzero [OF assms])

lemma counted_distinct [simp]: "distinct counted_resources"
  by (simp add: counted_resources_def resource_names)

lemma map_of_fold_update:
  "distinct ns \<Longrightarrow>
   map_of (fold (\<lambda>n m. AList.update n (f n) m) ns al) k = (if k \<in> set ns then Some (f k) else map_of al k)"
  by (induction ns arbitrary: al) (auto simp: update_conv')

text \<open>
  Summing resource lists adds the amounts of each of the five resources, keeps every other
  entry, and works for any number of lists.
\<close>

theorem Sum_amounts:
  assumes "quantity_laws ops amount"
  shows "if n \<in> set counted_resources
    then amount (rl_get ops (Sum ops aggr rlist) n) =
      amount (rl_get ops aggr n) + sum_list (map (\<lambda>lst. amount (rl_get ops lst n)) rlist)
    else map_of (Sum ops aggr rlist) n = map_of aggr n"
  by (simp add: Sum_def Let_def rl_get_def [of ops "fold _ _ _"] map_of_fold_update
      amount_fold [OF assms] comp_def)

text \<open>An instance: a quantity is a tally, the number of \<open>+\<close> less the number of \<open>-\<close>.\<close>

definition tally :: "quantity \<Rightarrow> int" where
  "tally q = int (count_list q CHR ''+'') - int (count_list q CHR ''-'')"

definition tally_new :: "int \<Rightarrow> quantity" where
  "tally_new n = (if n \<ge> 0 then replicate (nat n) CHR ''+'' else replicate (nat (- n)) CHR ''-'')"

definition tally_ops :: quantity_ops where
  "tally_ops = \<lparr>q_zero = [], q_IsZero = (\<lambda>q. tally q = 0), q_Add = (@), q_Value = tally,
     q_ScaledMega = tally, q_New = tally_new, q_NewScaledMega = tally_new, q_MustParse = (\<lambda>s. tally_new 110)\<rparr>"

lemma count_list_replicate': "count_list (replicate n x) y = (if x = y then n else 0)"
  by (induction n) auto

lemma tally_new [simp]: "tally (tally_new n) = n"
  by (simp add: tally_def tally_new_def count_list_replicate')

lemma tally_laws: "quantity_laws tally_ops tally"
  by (simp add: quantity_laws_def tally_ops_def tally_def)

theorem Sum_amounts_witness:
  "if ResourceCPU \<in> set counted_resources
    then tally (rl_get tally_ops (Sum tally_ops (NewResourceList tally_ops) [[(''cpu'', ''++'')], [(''cpu'', ''+'')]]) ResourceCPU) =
      tally (rl_get tally_ops (NewResourceList tally_ops) ResourceCPU) +
      sum_list (map (\<lambda>lst. tally (rl_get tally_ops lst ResourceCPU)) [[(''cpu'', ''++'')], [(''cpu'', ''+'')]])
    else map_of (Sum tally_ops (NewResourceList tally_ops) [[(''cpu'', ''++'')], [(''cpu'', ''+'')]]) ResourceCPU =
      map_of (NewResourceList tally_ops) ResourceCPU"
  by (rule Sum_amounts) (rule tally_laws)

lemma total_of_nodes_amount:
  assumes "quantity_laws ops amount" "n \<in> set counted_resources"
  shows "amount (rl_get ops (total_of_nodes ops nodes) n) =
    sum_list (map (\<lambda>node. amount (rl_get ops (node_ResourceList ops node) n)) nodes)"
proof -
  have "map_of (total_of_nodes ops nodes) n =
      Some (fold (\<lambda>node t. add_nonzero ops t (rl_get ops (node_ResourceList ops node) n)) nodes (q_zero ops))"
    using assms(2) by (simp add: total_of_nodes_def map_of_map_restrict)
  moreover have "amount (q_zero ops) = 0" using assms(1) by (simp add: quantity_laws_def)
  ultimately show ?thesis
    by (simp add: rl_get_def [of ops "total_of_nodes ops nodes"] amount_fold [OF assms(1)] comp_def)
qed

text \<open>
  The resources of the cluster: the total of the CPUs is the sum over the nodes, but the total of
  the ephemeral storage is zero whatever the nodes report, because the nodes' lists hold it under the
  name \<open>ephemeral\<close> and the sum asks for \<open>ephemeral-storage\<close>.
\<close>

theorem TotalResources_amounts:
  assumes "quantity_laws ops amount" "\<And>n. amount (q_New ops n) = n * unit"
    and "getClusterStats proc decode h = (Ret nodes, h')"
  shows "\<exists>rl. TotalResources proc decode ops h = (Ret rl, h') \<and>
    amount (rl_get ops rl ResourceCPU) = sum_list (map (\<lambda>i. to_int64 (ni_cpus i)) nodes) * unit \<and>
    amount (rl_get ops rl ResourceEphemeralStorage) = 0"
proof -
  have "amount (rl_get ops (total_of_nodes ops nodes) ResourceCPU) =
      sum_list (map (\<lambda>i. to_int64 (ni_cpus i) * unit) nodes)"
    by (subst total_of_nodes_amount [OF assms(1)])
      (auto simp: counted_resources_def rl_get_def node_ResourceList_def resource_names assms(2))
  moreover have "amount (rl_get ops (total_of_nodes ops nodes) ResourceEphemeralStorage) = 0"
    using assms(1)
    by (subst total_of_nodes_amount [OF assms(1)])
      (auto simp: counted_resources_def rl_get_def node_ResourceList_def resource_names quantity_laws_def sum_list_0)
  moreover have "sum_list (map (\<lambda>i. to_int64 (ni_cpus i) * unit) nodes) =
      sum_list (map (\<lambda>i. to_int64 (ni_cpus i)) nodes) * unit"
    by (simp add: sum_list_mult_const)
  ultimately show ?thesis using assms(3) by (simp add: TotalResources_def)
qed

theorem TotalResources_amounts_witness:
  "\<exists>rl. TotalResources (\<lambda>c a h. (ProcOk [], h_fs h))
      (\<lambda>out. Inr [\<lparr>ni_architecture = ''x86_64'', ni_kernelVersion = ''5'', ni_name = ''n1'', ni_cpus = 3, ni_cores = 3,
         ni_ephemeralStorage = 9, ni_freeMemory = 7, ni_partitions = []\<rparr>]) tally_ops \<lparr>h_fs = demo_fs, h_cmds = []\<rparr> =
      (Ret rl, \<lparr>h_fs = demo_fs, h_cmds = [(StatsCmd, [''--long'', ''--json''])]\<rparr>) \<and>
    tally (rl_get tally_ops rl ResourceCPU) = sum_list [to_int64 3] * 1 \<and>
    tally (rl_get tally_ops rl ResourceEphemeralStorage) = 0"
  using TotalResources_amounts [OF tally_laws, of 1 "\<lambda>c a h. (ProcOk [], h_fs h)"
      "\<lambda>out. Inr [\<lparr>ni_architecture = ''x86_64'', ni_kernelVersion = ''5'', ni_name = ''n1'', ni_cpus = 3, ni_cores = 3,
         ni_ephemeralStorage = 9, ni_freeMemory = 7, ni_partitions = []\<rparr>]" "\<lparr>h_fs = demo_fs, h_cmds = []\<rparr>"]
  by (simp add: getClusterStats_def Execute_defs tally_ops_def)

end
