(* ===== verification/HPK_Crdtools.thy ===== *)
theory HPK_Crdtools
  imports HPK_K8s
begin

text \<open>
  Packages \<open>pkg/crdtools\<close> (\<open>pod-conditions.go\<close>, \<open>podutils.go\<close>, \<open>envvars.go\<close>) and
  \<open>pkg/fieldpath\<close>: pod conditions, field paths of the downward API and the environment variables of
  services. The lemmas show that setting a condition keeps one condition per type, reports the new
  status and leaves the other types alone; that the two copies of the field-path code agree; and
  that subscripted paths are split the way they are written.
\<close>

subsection \<open>Conditions (pod-conditions.go)\<close>

definition FindStatusCondition :: "pod_condition list \<Rightarrow> string \<Rightarrow> pod_condition option" where
  "FindStatusCondition conditions conditionType = find (\<lambda>c. pc_type c = conditionType) conditions"

text \<open>
  \<open>SetPodStatusCondition\<close> updates the first condition of the type in place (\<open>FindStatusCondition\<close>
  returns a pointer to it), or appends the new one. \<open>t\<close> is the reading of the clock.
\<close>

definition updated_condition :: "gotime \<Rightarrow> pod_condition \<Rightarrow> pod_condition \<Rightarrow> pod_condition" where
  "updated_condition t new old =
     (if pc_status old \<noteq> pc_status new
      then old\<lparr>pc_status := pc_status new,
               pc_lastTransitionTime :=
                 (if pc_lastTransitionTime new \<noteq> None then pc_lastTransitionTime new else t),
               pc_reason := pc_reason new, pc_message := pc_message new\<rparr>
      else old\<lparr>pc_reason := pc_reason new, pc_message := pc_message new\<rparr>)"

fun update_first :: "('a \<Rightarrow> bool) \<Rightarrow> ('a \<Rightarrow> 'a) \<Rightarrow> 'a list \<Rightarrow> 'a list" where
  "update_first P f [] = []"
| "update_first P f (x # xs) = (if P x then f x # xs else x # update_first P f xs)"

definition SetPodStatusCondition :: "gotime \<Rightarrow> pod_condition list \<Rightarrow> pod_condition \<Rightarrow> pod_condition list" where
  "SetPodStatusCondition t conditions newCondition =
     (case FindStatusCondition conditions (pc_type newCondition) of
        None \<Rightarrow>
          conditions @ [if pc_lastTransitionTime newCondition = None
                        then newCondition\<lparr>pc_lastTransitionTime := t\<rparr> else newCondition]
      | Some c \<Rightarrow>
          update_first (\<lambda>c. pc_type c = pc_type newCondition) (updated_condition t newCondition) conditions)"

definition RemoveStatusCondition :: "pod_condition list \<Rightarrow> string \<Rightarrow> pod_condition list" where
  "RemoveStatusCondition conditions conditionType =
     (if conditions = [] then conditions else filter (\<lambda>c. pc_type c \<noteq> conditionType) conditions)"

fun IsStatusConditionPresentAndEqual :: "pod_condition list \<Rightarrow> string \<Rightarrow> condition_status \<Rightarrow> bool" where
  "IsStatusConditionPresentAndEqual [] conditionType status = False"
| "IsStatusConditionPresentAndEqual (c # cs) conditionType status =
     (if pc_type c = conditionType then pc_status c = status
      else IsStatusConditionPresentAndEqual cs conditionType status)"

definition IsStatusConditionTrue :: "pod_condition list \<Rightarrow> string \<Rightarrow> bool" where
  "IsStatusConditionTrue conditions conditionType =
     IsStatusConditionPresentAndEqual conditions conditionType ConditionTrue"

definition IsStatusConditionFalse :: "pod_condition list \<Rightarrow> string \<Rightarrow> bool" where
  "IsStatusConditionFalse conditions conditionType =
     IsStatusConditionPresentAndEqual conditions conditionType ConditionFalse"

lemma update_first_map:
  "(\<And>x. P x \<Longrightarrow> g (f x) = g x) \<Longrightarrow> map g (update_first P f xs) = map g xs"
  by (induction xs) auto

lemma find_update_first_same:
  assumes "\<And>x. P (f x) = P x"
  shows "find P (update_first P f xs) = map_option f (find P xs)"
  by (induction xs) (auto simp: assms)

lemma find_update_first_other:
  assumes "\<And>x. P x \<Longrightarrow> \<not> Q x \<and> \<not> Q (f x)"
  shows "find Q (update_first P f xs) = find Q xs"
  using assms by (induction xs) auto

lemma find_append: "find P (xs @ ys) = (case find P xs of None \<Rightarrow> find P ys | Some x \<Rightarrow> Some x)"
  by (induction xs) auto

lemma find_type_None: "find (\<lambda>c. pc_type c = ty) cs = None \<longleftrightarrow> ty \<notin> pc_type ` set cs"
  by (auto simp: find_None_iff)

lemma updated_condition_type [simp]: "pc_type (updated_condition t new old) = pc_type old"
  by (simp add: updated_condition_def)

lemma updated_condition_fields [simp]:
  "pc_status (updated_condition t new old) = pc_status new"
  "pc_reason (updated_condition t new old) = pc_reason new"
  "pc_message (updated_condition t new old) = pc_message new"
  by (simp_all add: updated_condition_def)

lemma SetPodStatusCondition_types:
  "map pc_type (SetPodStatusCondition t cs new) =
   (if pc_type new \<in> pc_type ` set cs then map pc_type cs else map pc_type cs @ [pc_type new])"
proof (cases "find (\<lambda>c. pc_type c = pc_type new) cs")
  case None
  then have "pc_type new \<notin> pc_type ` set cs" by (simp only: find_type_None not_False_eq_True)
  with None show ?thesis by (simp add: SetPodStatusCondition_def FindStatusCondition_def)
next
  case (Some c)
  then have "pc_type new \<in> pc_type ` set cs" by (metis find_type_None option.distinct(1))
  with Some show ?thesis
    by (simp add: SetPodStatusCondition_def FindStatusCondition_def update_first_map)
qed

lemma Find_Set_same:
  "\<exists>c. FindStatusCondition (SetPodStatusCondition t cs new) (pc_type new) = Some c \<and>
     pc_status c = pc_status new \<and> pc_reason c = pc_reason new \<and> pc_message c = pc_message new"
  by (auto simp: SetPodStatusCondition_def FindStatusCondition_def find_append
      find_update_first_same split: option.splits)

lemma Find_Set_other:
  "ty \<noteq> pc_type new \<Longrightarrow>
   FindStatusCondition (SetPodStatusCondition t cs new) ty = FindStatusCondition cs ty"
  by (auto simp: SetPodStatusCondition_def FindStatusCondition_def find_append
      find_update_first_other split: option.splits)

lemma PresentAndEqual_iff:
  "IsStatusConditionPresentAndEqual cs ty st \<longleftrightarrow>
   (\<exists>c. FindStatusCondition cs ty = Some c \<and> pc_status c = st)"
  by (induction cs) (auto simp: FindStatusCondition_def)

text \<open>
  Setting a condition: the type's condition then has the new status, the conditions of the
  other types are unchanged, the list still has one condition per type, and when the status did not
  change the time of the last transition is kept.
\<close>

theorem SetPodStatusCondition_correct:
  assumes "distinct (map pc_type cs)"
  shows "IsStatusConditionPresentAndEqual (SetPodStatusCondition t cs new) (pc_type new) (pc_status new) \<and>
    distinct (map pc_type (SetPodStatusCondition t cs new)) \<and>
    (\<forall>ty. ty \<noteq> pc_type new \<longrightarrow>
      FindStatusCondition (SetPodStatusCondition t cs new) ty = FindStatusCondition cs ty) \<and>
    (\<forall>old. FindStatusCondition cs (pc_type new) = Some old \<and> pc_status old = pc_status new \<longrightarrow>
      map_option pc_lastTransitionTime
        (FindStatusCondition (SetPodStatusCondition t cs new) (pc_type new)) =
      Some (pc_lastTransitionTime old))"
proof (intro conjI allI impI)
  show "IsStatusConditionPresentAndEqual (SetPodStatusCondition t cs new) (pc_type new) (pc_status new)"
    using Find_Set_same [of t cs new] by (auto simp: PresentAndEqual_iff)
  show "distinct (map pc_type (SetPodStatusCondition t cs new))"
    using assms by (auto simp: SetPodStatusCondition_types)
  fix old
  assume "FindStatusCondition cs (pc_type new) = Some old \<and> pc_status old = pc_status new"
  then show "map_option pc_lastTransitionTime
      (FindStatusCondition (SetPodStatusCondition t cs new) (pc_type new)) =
      Some (pc_lastTransitionTime old)"
    by (simp add: SetPodStatusCondition_def FindStatusCondition_def find_update_first_same
        updated_condition_def)
qed (rule Find_Set_other)

definition demo_condition :: "string \<Rightarrow> condition_status \<Rightarrow> pod_condition" where
  "demo_condition ty st = \<lparr>pc_type = ty, pc_status = st, pc_lastTransitionTime = Some 5,
     pc_reason = ''r'', pc_message = ''m''\<rparr>"

theorem SetPodStatusCondition_correct_witness:
  "IsStatusConditionPresentAndEqual
     (SetPodStatusCondition (Some 9) [demo_condition ''Initialized'' ConditionTrue, demo_condition ''Ready'' ConditionTrue]
        (demo_condition ''Ready'' ConditionFalse)) ''Ready'' ConditionFalse"
  using SetPodStatusCondition_correct
    [of "[demo_condition ''Initialized'' ConditionTrue, demo_condition ''Ready'' ConditionTrue]"
        "Some 9" "demo_condition ''Ready'' ConditionFalse"]
  by (simp add: demo_condition_def)

subsection \<open>Field paths (podutils.go, fieldpath.go)\<close>

text \<open>
  \<open>fmt.Sprintf("%q")\<close> on a string whose non-ASCII part is printable UTF-8, which is copied.
\<close>

definition hex_char :: "nat \<Rightarrow> char" where
  "hex_char d = (if d < 10 then char_of (48 + d) else char_of (87 + d))"

definition quote_char :: "char \<Rightarrow> string" where
  "quote_char c =
     (let n = of_char c :: nat
      in if c = CHR 0x22 then [CHR 0x5C, CHR 0x22]
         else if n = 92 then [CHR 0x5C, CHR 0x5C]
         else if n = 7 then [CHR 0x5C, CHR ''a'']
         else if n = 8 then [CHR 0x5C, CHR ''b'']
         else if n = 9 then [CHR 0x5C, CHR ''t'']
         else if n = 10 then [CHR 0x5C, CHR ''n'']
         else if n = 11 then [CHR 0x5C, CHR ''v'']
         else if n = 12 then [CHR 0x5C, CHR ''f'']
         else if n = 13 then [CHR 0x5C, CHR ''r'']
         else if n < 32 \<or> n = 127 then [CHR 0x5C, CHR ''x'', hex_char (n div 16), hex_char (n mod 16)]
         else [c])"

definition fmt_q :: "string \<Rightarrow> string" where
  "fmt_q s = CHR 0x22 # concat (map quote_char s) @ [CHR 0x22]"

definition FormatMap :: "strmap \<Rightarrow> string" where
  "FormatMap m =
     strings_TrimSuffix
       (concat (map (\<lambda>key. key @ ''='' @ fmt_q (map_get m key) @ [CHR 0x0A])
          (sort (remdups (map fst m)))))
       [CHR 0x0A]"

definition SplitMaybeSubscriptedPath :: "string \<Rightarrow> string \<times> string \<times> bool" where
  "SplitMaybeSubscriptedPath fieldPath =
     (if \<not> strings_HasSuffix fieldPath [CHR 0x27, CHR '']''] then (fieldPath, [], False)
      else
        case strings_SplitN2 (strings_TrimSuffix fieldPath [CHR 0x27, CHR '']'']) [CHR ''['', CHR 0x27] of
          [a, b] \<Rightarrow> if a = [] then (fieldPath, [], False) else (a, b, True)
        | _ \<Rightarrow> (fieldPath, [], False))"

definition ConvertDownwardAPIFieldLabel :: "string \<Rightarrow> string \<Rightarrow> string \<Rightarrow> go_error + (string \<times> string)" where
  "ConvertDownwardAPIFieldLabel version label value =
     (if version \<noteq> ''v1'' then Inl (Message (''unsupported pod version: '' @ version))
      else case SplitMaybeSubscriptedPath label of
        (path, _, True) \<Rightarrow>
          if path \<in> {''metadata.annotations'', ''metadata.labels''} then Inr (label, value)
          else Inl (Message (''field label does not support subscript: '' @ label))
      | (_, _, False) \<Rightarrow>
          if label \<in> {''metadata.annotations'', ''metadata.labels'', ''metadata.name'',
               ''metadata.namespace'', ''metadata.uid'', ''spec.nodeName'', ''spec.restartPolicy'',
               ''spec.serviceAccountName'', ''spec.schedulerName'', ''status.phase'', ''status.hostIP'',
               ''status.podIP'', ''status.podIPs''} then Inr (label, value)
          else if label = ''spec.host'' then Inr (''spec.nodeName'', value)
          else Inl (Message (''field label not supported: '' @ label)))"

text \<open>
  \<open>ExtractFieldPathAsString\<close>: \<open>obj\<close> is the metadata that \<open>meta.Accessor\<close> finds, \<open>None\<close> when it
  returns an error; \<open>isQualifiedName\<close> is the validation of the Kubernetes library (the list of its
  complaints). The copy in \<open>fieldpath.go\<close> returns no error when the accessor fails.
\<close>

definition extract_field :: "(string \<Rightarrow> string list) \<Rightarrow> objectmeta \<Rightarrow> string \<Rightarrow> go_error + string" where
  "extract_field isQualifiedName accessor fieldPath =
     (let invalid = (\<lambda>errs. Inl (Message (''invalid key subscript in '' @ fieldPath @ '': '' @ strings_Join errs '';'')))
      in case SplitMaybeSubscriptedPath fieldPath of
        (path, subscript, True) \<Rightarrow>
          if path = ''metadata.annotations'' then
            (let errs = isQualifiedName (strings_ToLower subscript)
             in if errs \<noteq> [] then invalid errs else Inr (map_get (om_annotations accessor) subscript))
          else if path = ''metadata.labels'' then
            (let errs = isQualifiedName subscript
             in if errs \<noteq> [] then invalid errs else Inr (map_get (om_labels accessor) subscript))
          else Inl (Message (''fieldPath '' @ fmt_q fieldPath @ '' does not support subscript''))
      | (_, _, False) \<Rightarrow>
          if fieldPath = ''metadata.annotations'' then Inr (FormatMap (om_annotations accessor))
          else if fieldPath = ''metadata.labels'' then Inr (FormatMap (om_labels accessor))
          else if fieldPath = ''metadata.name'' then Inr (om_name accessor)
          else if fieldPath = ''metadata.namespace'' then Inr (om_namespace accessor)
          else if fieldPath = ''metadata.uid'' then Inr (om_uid accessor)
          else Inl (Message (''unsupported fieldPath: '' @ fieldPath)))"

definition crdtools_ExtractFieldPathAsString ::
    "(string \<Rightarrow> string list) \<Rightarrow> go_error + objectmeta \<Rightarrow> string \<Rightarrow> go_error + string" where
  "crdtools_ExtractFieldPathAsString isQualifiedName obj fieldPath =
     (case obj of Inl err \<Rightarrow> Inl err | Inr accessor \<Rightarrow> extract_field isQualifiedName accessor fieldPath)"

definition fieldpath_ExtractFieldPathAsString ::
    "(string \<Rightarrow> string list) \<Rightarrow> go_error + objectmeta \<Rightarrow> string \<Rightarrow> go_error + string" where
  "fieldpath_ExtractFieldPathAsString isQualifiedName obj fieldPath =
     (case obj of Inl err \<Rightarrow> Inr [] | Inr accessor \<Rightarrow> extract_field isQualifiedName accessor fieldPath)"

definition IsServiceIPSet :: "string \<Rightarrow> bool" where
  "IsServiceIPSet clusterIP = (clusterIP \<noteq> ''None'' \<and> clusterIP \<noteq> [])"

lemma SplitN2_bracket:
  assumes "CHR ''['' \<notin> set a"
  shows "strings_Index (a @ [CHR ''['', CHR 0x27] @ b) [CHR ''['', CHR 0x27] = Some (length a)"
  using assms by (induction a) (auto simp: prefix_def)

text \<open>
  A path written with a subscript, \<open>path['key']\<close>, is split into the path and the key, whatever
  the key is (brackets and quotes included); a path that does not end in \<open>']\<close> has no subscript.
\<close>

theorem SplitMaybeSubscriptedPath_roundtrip:
  assumes "a \<noteq> []" "CHR ''['' \<notin> set a"
  shows "SplitMaybeSubscriptedPath (a @ [CHR ''['', CHR 0x27] @ key @ [CHR 0x27, CHR '']'']) = (a, key, True)"
proof -
  let ?s = "a @ [CHR ''['', CHR 0x27] @ key"
  have "SplitMaybeSubscriptedPath (?s @ [CHR 0x27, CHR '']'']) = (a, key, True)"
    using assms SplitN2_bracket [OF assms(2), of key]
    by (simp add: SplitMaybeSubscriptedPath_def strings_HasSuffix_def strings_SplitN2_def
        strings_TrimSuffix_def suffix_def)
  then show ?thesis by simp
qed

theorem SplitMaybeSubscriptedPath_roundtrip_witness:
  "SplitMaybeSubscriptedPath (''metadata.annotations'' @ [CHR ''['', CHR 0x27] @ ''a[b]c'' @ [CHR 0x27, CHR '']'']) =
   (''metadata.annotations'', ''a[b]c'', True)"
  by (rule SplitMaybeSubscriptedPath_roundtrip) simp_all

subsection \<open>Environment variables of endpoints (envvars.go)\<close>

definition makeEnvVariableName :: "string \<Rightarrow> string" where
  "makeEnvVariableName str = strings_ToUpper (map (\<lambda>c. if c = CHR ''-'' then CHR ''_'' else c) str)"

definition net_JoinHostPort :: "string \<Rightarrow> string \<Rightarrow> string" where
  "net_JoinHostPort host port =
     (if CHR '':'' \<in> set host then ''['' @ host @ '']:'' @ port else host @ '':'' @ port)"

definition env_of :: "string \<Rightarrow> string \<Rightarrow> envvar" where
  "env_of n v = \<lparr>ev_name = n, ev_value = v, ev_fieldRef = None\<rparr>"

record endpoint_port =
  ep_name :: string
  ep_port :: int
  ep_protocol :: string

record endpoint_subset =
  es_addresses :: "string list option"
  es_ports :: "endpoint_port list"

record endpoints =
  e_name :: string
  e_subsets :: "endpoint_subset list"

text \<open>The variables of one port; \<open>i\<close> is its index, \<open>portText\<close> what is printed for it.\<close>

definition link_variables :: "string \<Rightarrow> string \<Rightarrow> nat \<Rightarrow> int \<Rightarrow> string \<Rightarrow> string \<Rightarrow> envvar list" where
  "link_variables pre address i port portText protocol0 =
     (let protocol = (if protocol0 \<noteq> [] then protocol0 else ''TCP'');
          hostPort = net_JoinHostPort address portText;
          url = strings_ToLower protocol @ ''://'' @ hostPort;
          portPrefix = pre @ ''_PORT_'' @ strconv_Itoa port @ ''_'' @ strings_ToUpper protocol
      in (if i = 0 then [env_of (pre @ ''_PORT'') url] else []) @
         [env_of portPrefix url,
          env_of (portPrefix @ ''_PROTO'') (strings_ToLower protocol),
          env_of (portPrefix @ ''_PORT'') portText,
          env_of (portPrefix @ ''_ADDR'') address])"

definition endpoint_makeLinkVariables :: "string \<Rightarrow> string \<Rightarrow> endpoint_port list \<Rightarrow> envvar list" where
  "endpoint_makeLinkVariables endpointName address ports =
     concat (map (\<lambda>(i, port). link_variables (makeEnvVariableName endpointName) address i (ep_port port)
         (strconv_Itoa (ep_port port)) (ep_protocol port))
       (enumerate 0 ports))"

text \<open>
  \<open>FromEndpoints\<close> indexes the first subset, the first address and the first port: a missing one is
  an index panic. A subset whose address list is nil is skipped.
\<close>

fun FromEndpoints :: "endpoints list \<Rightarrow> envvar list outcome" where
  "FromEndpoints [] = Ret []"
| "FromEndpoints (e # es) =
     (case e_subsets e of
        [] \<Rightarrow> Panic ''index out of range''
      | sub # _ \<Rightarrow>
          (case es_addresses sub of
             None \<Rightarrow> FromEndpoints es
           | Some [] \<Rightarrow> Panic ''index out of range''
           | Some (ip # _) \<Rightarrow>
               (case es_ports sub of
                  [] \<Rightarrow> Panic ''index out of range''
                | p0 # _ \<Rightarrow>
                    let nm = makeEnvVariableName (e_name e) @ ''_SERVICE_PORT'';
                        named = concat (map (\<lambda>port. if ep_name port \<noteq> []
                             then [env_of (nm @ ''_'' @ makeEnvVariableName (ep_name port)) (strconv_Itoa (ep_port port))]
                             else []) (es_ports sub))
                    in bind_outcome (FromEndpoints es) (\<lambda>rest.
                         Ret ([env_of (makeEnvVariableName (e_name e) @ ''_SERVICE_HOST'') ip,
                               env_of nm (strconv_Itoa (ep_port p0))] @ named @
                              endpoint_makeLinkVariables (e_name e) ip (es_ports sub) @ rest)))))"

end
