(* ===== verification/HPK_Templates.thy ===== *)
theory HPK_Templates
  imports HPK_Resources HPK_Crdtools
begin

text \<open>
  The shell scripts that HPK generates (\<open>compute/podhandler/templates.go\<close>), with the structures
  they are filled from (\<open>compute/environment.go\<close>). A \<open>text/template\<close> is a function from its fields to
  the text that \<open>Execute\<close> writes: \<open>range\<close> is a \<open>concat\<close>, \<open>if\<close> a conditional, and the white space that
  \<open>{{-\<close> and \<open>-}}\<close> trim is left out. The functions of the libraries sprig and shellescape are
  parameters. The theorem shows which options \<open>sbatch\<close> reads from the generated job script.
\<close>

subsection \<open>Fields\<close>

record host_env =
  he_KubeMasterHost :: string
  he_ContainerRegistry :: string
  he_ApptainerBin :: string
  he_EnableCgroupV2 :: bool
  he_WorkingDirectory :: string
  he_KubeDNS :: string

record virtual_env =
  ve_PodDirectory :: string
  ve_CgroupFilePath :: string
  ve_ConstructorFilePath :: string
  ve_IPAddressPath :: string
  ve_StdoutPath :: string
  ve_StderrPath :: string
  ve_SysErrorFilePath :: string

record job_container =
  jc_InstanceName :: string
  jc_RunAsUser :: int
  jc_RunAsGroup :: int
  jc_ImageFilePath :: string
  jc_EnvFilePath :: string
  jc_Binds :: "string list"
  jc_Command :: "string list"
  jc_Args :: "string list"
  jc_ExecutionMode :: string
  jc_LogsPath :: string
  jc_JobIDPath :: string
  jc_ExitCodePath :: string

record job_fields =
  jf_Pod :: objkey
  jf_PauseImageFilePath :: string
  jf_VirtualEnv :: virtual_env
  jf_HostEnv :: host_env
  jf_InitContainers :: "job_container list"
  jf_Containers :: "job_container list"
  jf_ResourceRequest :: resource_request
  jf_CustomFlags :: "string list"

text \<open>\<open>join\<close> of sprig and \<open>shellescape.Quote\<close>.\<close>

record tmpl_funcs =
  tf_join :: "string \<Rightarrow> string list \<Rightarrow> string"
  tf_Quote :: "string \<Rightarrow> string"

abbreviation nl :: string where "nl \<equiv> [CHR 0x0A]"
abbreviation tab :: string where "tab \<equiv> [CHR 0x09]"
abbreviation bsl :: string where "bsl \<equiv> [CHR 0x5C]"
abbreviation quo :: string where "quo \<equiv> [CHR 0x27]"

text \<open>The template function \<open>param\<close>, on string arguments.\<close>

definition EscapeSingleQuote :: "tmpl_funcs \<Rightarrow> string list \<Rightarrow> string" where
  "EscapeSingleQuote f str = strings_Join (map (tf_Quote f) str) '' ''"

subsection \<open>Environment variables of a container\<close>

definition render_variable :: "envvar \<Rightarrow> string" where
  \<open>render_variable v =
     (if ev_value v = ''.status.podIP'' then
        nl @ ''echo '' @ ev_name v @ ''=$(ip route get 1 | sed -n '' @ quo @ ''s/.*src '' @ bsl @ ''([0-9.]'' @ bsl @ ''+'' @ bsl @
        '').*/'' @ bsl @ ''1/p'' @ quo @ '')'' @ nl
      else nl @ ''echo '' @ ev_name v @ ''='' @ bsl @ quo @ quo @ ev_value v @ quo @ bsl @ quo)\<close>

definition GenerateEnvTemplate :: "envvar list \<Rightarrow> string" where
  "GenerateEnvTemplate vs = ''#!/bin/bash'' @ concat (map render_variable vs) @ nl"

subsection \<open>The script of the pod and the job script\<close>

definition render_init_container :: "tmpl_funcs \<Rightarrow> job_container \<Rightarrow> string" where
  \<open>render_init_container f c =
     nl @
     tab @ ''####################'' @ nl @
     tab @ ''##  New Container  #'' @ nl @
     tab @ ''####################'' @ nl @
     nl @
     tab @ ''echo "[Virtual] Spawning InitContainer: '' @ jc_InstanceName c @ ''"'' @
     (if jc_EnvFilePath c \<noteq> [] then
       nl @
       tab @ ''sh -c '' @ jc_EnvFilePath c @ '' > /scratch/'' @ jc_InstanceName c @ ''.env''
      else []) @
     nl @
     nl @
     tab @ ''# Mark the beginning of an init job (all get the shell'' @ quo @ ''s pid).  '' @ nl @
     tab @ ''echo pid://$$ > '' @ jc_JobIDPath c @ nl @
     nl @
     nl @
     tab @ ''$(apptainer '' @ jc_ExecutionMode c @ '' --cleanenv --writable-tmpfs --no-mount home --unsquash '' @ bsl @
     (if jc_RunAsUser c \<noteq> 0 then
       nl @
       tab @ ''--security uid:'' @ strconv_Itoa (jc_RunAsUser c) @ '',gid:'' @ strconv_Itoa (jc_RunAsUser c) @ '' --userns '' @ bsl
      else []) @
     (if jc_RunAsGroup c \<noteq> 0 then
       nl @
       tab @ ''--security gid:'' @ strconv_Itoa (jc_RunAsGroup c) @ '' --userns '' @ bsl
      else []) @
     nl @
     tab @ ''--bind /scratch/etc/resolv.conf:/etc/resolv.conf,/scratch/etc/hosts:/etc/hosts,'' @ tf_join f '','' (jc_Binds c) @ '' '' @ bsl @
     (if jc_EnvFilePath c \<noteq> [] then
       nl @
       tab @ ''--env-file /scratch/'' @ jc_InstanceName c @ ''.env '' @ bsl
      else []) @
     nl @
     tab @ jc_ImageFilePath c @
     (if jc_Command c \<noteq> [] then
       concat (map (\<lambda>cmd. '' '' @ EscapeSingleQuote f [cmd]) (jc_Command c))
      else []) @
     (if jc_Args c \<noteq> [] then
       nl @
       tab @ tab @
       concat (map (\<lambda>arg. '' '' @ EscapeSingleQuote f [arg]) (jc_Args c))
      else []) @
     '' '' @ bsl @ nl @
     tab @ ''&>> '' @ jc_LogsPath c @ '')'' @ nl @
     nl @
     tab @ ''# Mark the ending of an init job.'' @ nl @
     tab @ ''echo $? > '' @ jc_ExitCodePath c @ nl\<close>

definition render_container :: "tmpl_funcs \<Rightarrow> job_container \<Rightarrow> string" where
  \<open>render_container f c =
     nl @
     tab @ ''####################'' @ nl @
     tab @ ''##  New Container  # '' @ nl @
     tab @ ''####################'' @
     (if jc_EnvFilePath c \<noteq> [] then
       nl @
       tab @ ''sh -c '' @ jc_EnvFilePath c @ '' > /scratch/'' @ jc_InstanceName c @ ''.env''
      else []) @
     nl @
     nl @
     tab @ ''$(apptainer '' @ jc_ExecutionMode c @ '' --cleanenv --writable-tmpfs --no-mount home --unsquash '' @ bsl @
     (if jc_RunAsUser c \<noteq> 0 then
       nl @
       tab @ ''--security uid:'' @ strconv_Itoa (jc_RunAsUser c) @ '',gid:'' @ strconv_Itoa (jc_RunAsUser c) @ '' --userns '' @ bsl
      else []) @
     (if jc_RunAsGroup c \<noteq> 0 then
       nl @
       tab @ ''--security gid:'' @ strconv_Itoa (jc_RunAsGroup c) @ '' --userns '' @ bsl
      else []) @
     nl @
     tab @ ''--bind /scratch/etc/resolv.conf:/etc/resolv.conf,/scratch/etc/hosts:/etc/hosts,'' @ tf_join f '','' (jc_Binds c) @ '' '' @ bsl @
     (if jc_EnvFilePath c \<noteq> [] then
       nl @
       tab @ ''--env-file /scratch/'' @ jc_InstanceName c @ ''.env '' @ bsl
      else []) @
     nl @
     tab @ jc_ImageFilePath c @
     (if jc_Command c \<noteq> [] then
       concat (map (\<lambda>cmd. '' '' @ EscapeSingleQuote f [cmd]) (jc_Command c))
      else []) @
     (if jc_Args c \<noteq> [] then
       concat (map (\<lambda>arg. '' '' @ EscapeSingleQuote f [arg]) (jc_Args c))
      else []) @
     '' '' @ bsl @ nl @
     tab @ ''&>> '' @ jc_LogsPath c @ ''; '' @ bsl @ nl @
     tab @ ''echo $? > '' @ jc_ExitCodePath c @ '') &'' @ nl @
     nl @
     tab @ ''pid=$!'' @ nl @
     tab @ ''echo pid://${pid} > '' @ jc_JobIDPath c @ nl @
     tab @ ''echo "[Virtual] Container started: '' @ jc_InstanceName c @ '' ${pid}"'' @ nl\<close>

definition PauseScriptTemplate :: "tmpl_funcs \<Rightarrow> job_fields \<Rightarrow> string" where
  \<open>PauseScriptTemplate f j =
     ''#!/bin/bash'' @ nl @
     nl @
     ''############################'' @ nl @
     ''# Auto-Generated Script    #'' @ nl @
     ''# Please do not edit. '' @ tab @ ''   #'' @ nl @
     ''############################'' @ nl @
     nl @
     ''set -eum pipeline'' @ nl @
     nl @
     ''function debug_info() {'' @ nl @
     tab @ ''echo -e "'' @ bsl @ ''n"'' @ nl @
     tab @ ''echo "=============================="'' @ nl @
     tab @ ''echo " Compute Environment Info"'' @ nl @
     tab @ ''echo "=============================="'' @ nl @
     tab @ ''echo "* DNS: '' @ he_KubeDNS (jf_HostEnv j) @ ''"'' @ nl @
     tab @ ''echo "* PodDir: '' @ ve_PodDirectory (jf_VirtualEnv j) @ ''"'' @ nl @
     tab @ ''echo "=============================="'' @ nl @
     tab @ ''echo -e "'' @ bsl @ ''n"'' @ nl @
     tab @ ''echo "=============================="'' @ nl @
     tab @ ''echo " Virtual Environment Info"'' @ nl @
     tab @ ''echo "=============================="'' @ nl @
     tab @ ''echo "* Host: $(hostname)"'' @ nl @
     tab @ ''echo "* IP: $(hostname -I)"'' @ nl @
     tab @ ''echo "* User: $(id)"'' @ nl @
     tab @ ''echo "=============================="'' @ nl @
     tab @ ''echo -e "'' @ bsl @ ''n"'' @ nl @
     ''}'' @ nl @
     nl @
     ''handle_dns() {'' @ nl @
     tab @ ''mkdir -p /scratch/etc'' @ nl @
     tab @ nl @
     ''# Rewire /scratch/etc/resolv.conf to point to KubeDNS'' @ nl @
     ''cat > /scratch/etc/resolv.conf << DNS_EOF'' @ nl @
     ''search '' @ key_namespace (jf_Pod j) @ ''.svc.cluster.local svc.cluster.local cluster.local'' @ nl @
     ''nameserver '' @ he_KubeDNS (jf_HostEnv j) @ nl @
     ''options ndots:5'' @ nl @
     ''DNS_EOF'' @ nl @
     tab @ nl @
     tab @ ''# Add hostname to known hosts. Required for loopback'' @ nl @
     tab @ ''echo -e "127.0.0.1 localhost" >> /scratch/etc/hosts'' @ nl @
     tab @ ''echo -e "$(hostname -I) $(hostname)" >> /scratch/etc/hosts'' @ nl @
     ''}'' @ nl @
     nl @
     ''# If not removed, Flags will be consumed by the nested Singularity and overwrite paths.'' @ nl @
     ''# https://docs.sylabs.io/guides/3.11/user-guide/environment_and_metadata.html'' @ nl @
     ''function reset_env() {'' @ nl @
     tab @ ''unset LD_LIBRARY_PATH'' @ nl @
     nl @
     tab @ ''unset SINGULARITY_COMMAND'' @ nl @
     tab @ ''unset SINGULARITY_CONTAINER'' @ nl @
     tab @ ''unset SINGULARITY_ENVIRONMENT'' @ nl @
     tab @ ''unset SINGULARITY_NAME'' @ nl @
     nl @
     tab @ ''unset APPTAINER_APPNAME'' @ nl @
     tab @ ''unset APPTAINER_COMMAND'' @ nl @
     tab @ ''unset APPTAINER_CONTAINER'' @ nl @
     tab @ ''unset APPTAINER_ENVIRONMENT'' @ nl @
     tab @ ''unset APPTAINER_NAME'' @ nl @
     nl @
     tab @ ''unset APPTAINER_BIND'' @ nl @
     tab @ ''unset SINGULARITY_BIND'' @ nl @
     ''}'' @ nl @
     nl @
     ''function cleanup() {'' @ nl @
     tab @ ''lastCommand=$1'' @ nl @
     tab @ ''exitCode=$2'' @ nl @
     nl @
     tab @ ''echo "[Virtual] Ensure all background jobs are terminated".'' @ nl @
     tab @ ''wait'' @ nl @
     nl @
     tab @ ''if ['' @ ''[ $exitCode -eq 0 ]'' @ '']; then'' @ nl @
     tab @ tab @ ''echo "[Virtual] Gracefully exit the Virtual Environment. All resources will be released."'' @ nl @
     tab @ ''else'' @ nl @
     tab @ tab @ ''echo "[Virtual] **SYSTEMERROR** ${lastCommand} command filed with exit code ${exitCode}" | tee '' @ ve_SysErrorFilePath (jf_VirtualEnv j) @ nl @
     tab @ ''fi'' @ nl @
     nl @
     tab @ ''exit ${exitCode}'' @ nl @
     ''}'' @ nl @
     nl @
     ''function handle_init_containers() {'' @ nl @
     concat (map (render_init_container f) (jf_InitContainers j)) @ nl @
     nl @
     tab @ ''echo "[Virtual] All InitContainers have been completed."'' @ nl @
     tab @ ''return '' @ nl @
     ''}'' @ nl @
     nl @
     ''function handle_containers() {'' @ nl @
     concat (map (render_container f) (jf_Containers j)) @ nl @
     nl @
     tab @ ''######################'' @ nl @
     tab @ ''##  Wait Containers  #'' @ nl @
     tab @ ''######################'' @ nl @
     nl @
     tab @ ''echo "[Virtual] ... Waiting for containers to complete ..."'' @ nl @
     tab @ ''wait  || echo "[Virtual] ... wait failed with error: $?"'' @ nl @
     tab @ ''echo "[Virtual] ... Containers terminated ..."'' @ nl @
     ''}'' @ nl @
     nl @
     nl @
     nl @
     ''debug_info'' @ nl @
     nl @
     ''echo "[Virtual] Resetting Environment ..."'' @ nl @
     ''reset_env'' @ nl @
     nl @
     ''echo "[Virtual] Announcing IP ..."'' @ nl @
     ''echo $(hostname -I) > '' @ ve_IPAddressPath (jf_VirtualEnv j) @ nl @
     nl @
     ''echo "[Virtual] Setting DNS ..."'' @ nl @
     ''handle_dns'' @ nl @
     nl @
     ''echo "[Virtual] Setting Cleanup Handler ..."'' @ nl @
     ''trap '' @ quo @ ''cleanup "${BASH_COMMAND}" "$?"'' @ quo @ ''  EXIT'' @ nl @
     nl @
     (if 0 < length (jf_InitContainers j) then
       '' handle_init_containers ''
      else []) @
     nl @
     nl @
     (if 0 < length (jf_Containers j) then
       '' handle_containers ''
      else []) @
     nl\<close>

definition HostScriptTemplate :: "tmpl_funcs \<Rightarrow> job_fields \<Rightarrow> string" where
  \<open>HostScriptTemplate f j =
     ''#!/bin/bash'' @ nl @
     ''#SBATCH --job-name='' @ key_name (jf_Pod j) @ nl @
     ''#SBATCH --output='' @ ve_StdoutPath (jf_VirtualEnv j) @ nl @
     ''#SBATCH --error='' @ ve_StderrPath (jf_VirtualEnv j) @
     concat (map (\<lambda>flag. nl @ ''#SBATCH '' @ flag @ nl) (jf_CustomFlags j)) @
     nl @
     ''#SBATCH --signal=B:TERM@60 # tells the controller'' @ nl @
     ''                            # to send SIGTERM to the job 60 secs'' @ nl @
     ''                            # before its time ends to give it a'' @ nl @
     ''                            # chance for better cleanup.'' @
     (if rr_CPU (jf_ResourceRequest j) \<noteq> None then
       nl @
       ''#SBATCH --ntasks-per-node='' @ strconv_Itoa (the (rr_CPU (jf_ResourceRequest j))) @ nl
      else []) @
     (if rr_Memory (jf_ResourceRequest j) \<noteq> None then
       nl @
       ''#SBATCH --mem='' @ strconv_Itoa (the (rr_Memory (jf_ResourceRequest j))) @ '' '' @ nl
      else []) @
     '' '' @ nl @
     nl @
     ''#### BEGIN SECTION: VirtualEnvironment Builder ####'' @ nl @
     ''# Description'' @ nl @
     ''# '' @ tab @ ''Builds a script for running a Virtual Environment'' @ nl @
     ''# '' @ tab @ ''that resembles the semantics of a Pause Environment.'' @ nl @
     ''cat > '' @ ve_ConstructorFilePath (jf_VirtualEnv j) @ '' << '' @ quo @ ''PAUSE_EOF'' @ quo @ nl @
     PauseScriptTemplate f j @ nl @
     ''PAUSE_EOF'' @ nl @
     ''#### END SECTION: VirtualEnvironment Builder ####'' @ nl @
     nl @
     nl @
     ''#### BEGIN SECTION: Host Environment ####'' @ nl @
     ''# Description'' @ nl @
     ''# '' @ tab @ ''Stuff to run outside the virtual environment'' @ nl @
     nl @
     ''# exit when any command fails'' @ nl @
     ''#set -um pipeline'' @ nl @
     ''set -u'' @ nl @
     nl @
     ''echo "[Host] Starting the Constructor for the Virtual Environment ..."'' @ nl @
     ''chmod +x  '' @ ve_ConstructorFilePath (jf_VirtualEnv j) @ nl @
     nl @
     ''export workdir=/tmp/'' @ key_namespace (jf_Pod j) @ ''_'' @ key_name (jf_Pod j) @ nl @
     ''echo "[Host] Creating workdir: ${workdir} "'' @ nl @
     ''mkdir -p ${workdir}'' @ nl @
     ''trap '' @ quo @ ''echo [HOST] Deleting workdir ${workdir}; rm -rf ${workdir}'' @ quo @ '' EXIT'' @ nl @
     nl @
     ''# --network-args "portmap=8080:80/tcp"'' @ nl @
     ''# --container is needed to start a separate /dev/sh'' @ nl @
     ''#exec '' @ he_ApptainerBin (jf_HostEnv j) @ '' exec --containall --net --fakeroot --scratch /scratch --workdir ${workdir} '' @ bsl @ nl @
     ''#'' @
     (if he_EnableCgroupV2 (jf_HostEnv j) then
       nl @
       ''#--apply-cgroups '' @ ve_CgroupFilePath (jf_VirtualEnv j) @ '' '' @ tab @ tab @ bsl @ nl @
       ''#''
      else []) @
     nl @
     ''#--env PARENT=${PPID}'' @ tab @ tab @ tab @ tab @ tab @ tab @ tab @ tab @ bsl @ nl @
     ''#--bind $HOME,/tmp'' @ tab @ tab @ tab @ tab @ tab @ tab @ tab @ tab @ tab @ tab @ bsl @ nl @
     ''#--hostname '' @ key_name (jf_Pod j) @ tab @ tab @ tab @ tab @ tab @ tab @ tab @ bsl @ nl @
     ''#'' @ jf_PauseImageFilePath j @ '' sh -ci '' @ ve_ConstructorFilePath (jf_VirtualEnv j) @ '' ||'' @ nl @
     ''#echo "[HOST] **SYSTEMERROR** apptainer exited with code $?" | tee '' @ ve_SysErrorFilePath (jf_VirtualEnv j) @ nl @
     nl @
     ''export APPTAINERENV_KUBEDNS_IP='' @ he_KubeDNS (jf_HostEnv j) @ nl @
     nl @
     ''exec '' @ he_ApptainerBin (jf_HostEnv j) @ '' exec --containall --net --fakeroot --scratch /scratch --workdir ${workdir} '' @ bsl @
     (if he_EnableCgroupV2 (jf_HostEnv j) then
       nl @
       ''--apply-cgroups '' @ ve_CgroupFilePath (jf_VirtualEnv j) @ '' '' @ tab @ tab @ bsl
      else []) @
     nl @
     ''--env PARENT=${PPID}'' @ tab @ tab @ tab @ tab @ tab @ tab @ tab @ tab @ bsl @ nl @
     ''--bind $HOME/.hpk-master/kubernetes:/k8s-data'' @ tab @ tab @ tab @ bsl @ nl @
     ''--bind /etc/apptainer/apptainer.conf'' @ tab @ tab @ tab @ tab @ bsl @ nl @
     ''--bind $HOME,/tmp'' @ tab @ tab @ tab @ tab @ tab @ tab @ tab @ tab @ tab @ bsl @ nl @
     ''--hostname '' @ key_name (jf_Pod j) @ tab @ tab @ tab @ tab @ tab @ tab @ tab @ bsl @ nl @
     jf_PauseImageFilePath j @ '' /usr/local/bin/hpk-pause -namespace '' @ key_namespace (jf_Pod j) @ '' -pod '' @ key_name (jf_Pod j) @ '' ||'' @ nl @
     ''echo "[HOST] **SYSTEMERROR** hpk-pause exited with code $?" | tee '' @ ve_SysErrorFilePath (jf_VirtualEnv j) @ nl @
     nl @
     ''#### END SECTION: Host Environment ####'' @ nl\<close>


text \<open>\<open>ValidateScript\<close> runs \<open>bash -n\<close> on a generated script.\<close>

definition ValidateScript :: "proc \<Rightarrow> string \<Rightarrow> host \<Rightarrow> go_error option \<times> host" where
  "ValidateScript proc path h = (case Execute proc ''bash'' [''-n'', path] h of (out, err, h') \<Rightarrow> (err, h'))"

subsection \<open>The options of the job\<close>

text \<open>
  What \<open>sbatch\<close> is documented to read: the \<open>#SBATCH\<close> lines up to the first line that is neither blank
  nor a comment.
\<close>

definition comment_line :: "string \<Rightarrow> bool" where
  "comment_line l =
     (case dropWhile is_space l of [] \<Rightarrow> True | c # _ \<Rightarrow> c = CHR 0x23)"

definition directive :: string where "directive = ''#SBATCH ''"

definition sbatch_options :: "string \<Rightarrow> string list" where
  "sbatch_options script =
     map (drop (length directive))
       (filter (prefix directive) (takeWhile comment_line (split_char CHR 0x0A script)))"

abbreviation text_lines :: "string list \<Rightarrow> string" where
  "text_lines ls \<equiv> concat (map (\<lambda>l. l @ nl) ls)"

lemma split_text_lines:
  "list_all (\<lambda>l. CHR 0x0A \<notin> set l) ls \<Longrightarrow> split_char CHR 0x0A (text_lines ls @ rest) = ls @ split_char CHR 0x0A rest"
  by (induction ls) (auto simp: split_char_append split_char_none)

lemma sbatch_options_lines:
  assumes "list_all (\<lambda>l. CHR 0x0A \<notin> set l) ls" and "list_all comment_line ls" and "\<not> comment_line l" and "CHR 0x0A \<notin> set l"
  shows "sbatch_options (text_lines ls @ l @ nl @ rest) = map (drop (length directive)) (filter (prefix directive) ls)"
proof -
  have "split_char CHR 0x0A (text_lines ls @ l @ nl @ rest) = ls @ l # split_char CHR 0x0A rest"
    using assms(1,4) by (simp add: split_text_lines split_char_append split_char_none)
  moreover have "takeWhile comment_line (ls @ l # xs) = ls" for xs
    using assms(2,3) by (simp add: list_all_iff takeWhile_append2)
  ultimately show ?thesis unfolding sbatch_options_def by simp
qed

text \<open>The lines of the script before its first command.\<close>

definition flag_lines :: "string list \<Rightarrow> string list" where
  "flag_lines flags = concat (map (\<lambda>flag. [directive @ flag, []]) flags)"

definition request_lines :: "resource_request \<Rightarrow> string list" where
  "request_lines r =
     (let last_comment = ''                            # chance for better cleanup.'';
          cpu = (case rr_CPU r of None \<Rightarrow> [] | Some n \<Rightarrow> [directive @ ''--ntasks-per-node='' @ strconv_Itoa n]);
          mem = (case rr_Memory r of None \<Rightarrow> [] | Some n \<Rightarrow> [directive @ ''--mem='' @ strconv_Itoa n @ '' ''])
      in case (cpu, mem) of
           ([], []) \<Rightarrow> [last_comment @ '' '']
         | ([], m # _) \<Rightarrow> [last_comment, m, '' '']
         | (c # _, []) \<Rightarrow> [last_comment, c, '' '']
         | (c # _, m # _) \<Rightarrow> [last_comment, c, [], m, '' ''])"

definition header_lines :: "job_fields \<Rightarrow> string list" where
  "header_lines j =
     [''#!/bin/bash'', directive @ ''--job-name='' @ key_name (jf_Pod j),
      directive @ ''--output='' @ ve_StdoutPath (jf_VirtualEnv j),
      directive @ ''--error='' @ ve_StderrPath (jf_VirtualEnv j)] @
     flag_lines (jf_CustomFlags j) @
     [directive @ ''--signal=B:TERM@60 # tells the controller'',
      ''                            # to send SIGTERM to the job 60 secs'',
      ''                            # before its time ends to give it a''] @
     request_lines (jf_ResourceRequest j) @
     [[], ''#### BEGIN SECTION: VirtualEnvironment Builder ####'', ''# Description'',
      ''# '' @ tab @ ''Builds a script for running a Virtual Environment'',
      ''# '' @ tab @ ''that resembles the semantics of a Pause Environment.'']"

lemma flags_text:
  "concat (map (\<lambda>flag. nl @ ''#SBATCH '' @ flag @ nl) flags) @ nl @ rest = nl @ text_lines (flag_lines flags) @ rest"
  by (induction flags) (auto simp: flag_lines_def directive_def)

lemma HostScript_header:
  "\<exists>l rest. HostScriptTemplate f j = text_lines (header_lines j) @ (''cat > '' @ l) @ nl @ rest \<and>
     l = ve_ConstructorFilePath (jf_VirtualEnv j) @ '' << '' @ quo @ ''PAUSE_EOF'' @ quo"
proof -
  have "\<exists>rest. HostScriptTemplate f j = text_lines (header_lines j) @ (''cat > '' @ ve_ConstructorFilePath (jf_VirtualEnv j) @ '' << '' @ quo @ ''PAUSE_EOF'' @ quo) @ nl @ rest"
    unfolding HostScriptTemplate_def header_lines_def request_lines_def
    apply (cases "rr_CPU (jf_ResourceRequest j)"; cases "rr_Memory (jf_ResourceRequest j)")
    apply (simp_all only: flags_text)
    apply (simp_all add: directive_def)
    done
  then show ?thesis by blast
qed

lemma digits_no_newline: "CHR 0x0A \<notin> set (strconv_Itoa n)"
proof -
  have "CHR 0x0A \<notin> set (nat_digits k)" for k
    using nat_digits_all_digits [of k] by (auto simp: list_all_iff is_digit_def)
  then show ?thesis by (simp add: strconv_Itoa_def)
qed

lemma comment_line_simps [simp]:
  "comment_line []" "comment_line (CHR 0x23 # l)" "comment_line (CHR '' '' # l) = comment_line l"
  "\<not> comment_line (''cat > '' @ l)"
  by (simp_all add: comment_line_def is_space_def)

lemma header_comments: "list_all comment_line (header_lines j)"
proof -
  have "list_all comment_line (flag_lines flags)" for flags
    by (induction flags) (auto simp: flag_lines_def directive_def)
  then show ?thesis
    by (auto simp: header_lines_def request_lines_def directive_def Let_def split: option.splits)
qed

lemma header_no_newline:
  assumes "CHR 0x0A \<notin> set (key_name (jf_Pod j) @ ve_StdoutPath (jf_VirtualEnv j) @ ve_StderrPath (jf_VirtualEnv j))"
    and "\<forall>flag\<in>set (jf_CustomFlags j). CHR 0x0A \<notin> set flag"
  shows "list_all (\<lambda>l. CHR 0x0A \<notin> set l) (header_lines j)"
proof -
  have "list_all (\<lambda>l. CHR 0x0A \<notin> set l) (flag_lines (jf_CustomFlags j))"
    using assms(2) by (auto simp: flag_lines_def list_all_iff directive_def)
  with assms(1) show ?thesis
    by (auto simp: header_lines_def request_lines_def directive_def Let_def digits_no_newline split: option.splits)
qed

lemma header_directives:
  "map (drop (length directive)) (filter (prefix directive) (header_lines j)) =
    [''--job-name='' @ key_name (jf_Pod j), ''--output='' @ ve_StdoutPath (jf_VirtualEnv j),
     ''--error='' @ ve_StderrPath (jf_VirtualEnv j)] @ jf_CustomFlags j @
    [''--signal=B:TERM@60 # tells the controller''] @
    (case rr_CPU (jf_ResourceRequest j) of None \<Rightarrow> [] | Some n \<Rightarrow> [''--ntasks-per-node='' @ strconv_Itoa n]) @
    (case rr_Memory (jf_ResourceRequest j) of None \<Rightarrow> [] | Some n \<Rightarrow> [''--mem='' @ strconv_Itoa n @ '' ''])"
proof -
  have "map (drop (length directive)) (filter (prefix directive) (flag_lines flags)) = flags" for flags
    by (induction flags) (auto simp: flag_lines_def directive_def)
  then show ?thesis
    by (auto simp: header_lines_def request_lines_def directive_def Let_def split: option.splits)
qed

text \<open>
  C21. The job asks Slurm for what the pod asks for: from the generated script \<open>sbatch\<close> reads exactly
  the pod's name, the two log files, the user's flags in their order, the signal before the time
  limit, and the CPUs and the memory when they are requested; no directive is hidden behind the
  first command.
\<close>

theorem HostScript_options:
  assumes "CHR 0x0A \<notin> set (key_name (jf_Pod j) @ ve_StdoutPath (jf_VirtualEnv j) @ ve_StderrPath (jf_VirtualEnv j)
      @ ve_ConstructorFilePath (jf_VirtualEnv j))"
    and "\<forall>flag\<in>set (jf_CustomFlags j). CHR 0x0A \<notin> set flag"
  shows "sbatch_options (HostScriptTemplate f j) =
    [''--job-name='' @ key_name (jf_Pod j), ''--output='' @ ve_StdoutPath (jf_VirtualEnv j),
     ''--error='' @ ve_StderrPath (jf_VirtualEnv j)] @ jf_CustomFlags j @
    [''--signal=B:TERM@60 # tells the controller''] @
    (case rr_CPU (jf_ResourceRequest j) of None \<Rightarrow> [] | Some n \<Rightarrow> [''--ntasks-per-node='' @ strconv_Itoa n]) @
    (case rr_Memory (jf_ResourceRequest j) of None \<Rightarrow> [] | Some n \<Rightarrow> [''--mem='' @ strconv_Itoa n @ '' ''])"
proof -
  obtain l rest where script: "HostScriptTemplate f j = text_lines (header_lines j) @ (''cat > '' @ l) @ nl @ rest"
    and l: "l = ve_ConstructorFilePath (jf_VirtualEnv j) @ '' << '' @ quo @ ''PAUSE_EOF'' @ quo"
    using HostScript_header by blast
  have "CHR 0x0A \<notin> set (''cat > '' @ l)" using assms(1) l by simp
  then show ?thesis
    unfolding script header_directives [symmetric]
    using assms by (intro sbatch_options_lines header_no_newline header_comments comment_line_simps) auto
qed

definition demo_fields :: job_fields where
  "demo_fields = \<lparr>jf_Pod = \<lparr>key_namespace = ''default'', key_name = ''web''\<rparr>, jf_PauseImageFilePath = ''/i/pause.sif'',
     jf_VirtualEnv = \<lparr>ve_PodDirectory = ''/h/default/web'', ve_CgroupFilePath = ''/c'', ve_ConstructorFilePath = ''/k'',
       ve_IPAddressPath = ''/ip'', ve_StdoutPath = ''/out'', ve_StderrPath = ''/err'', ve_SysErrorFilePath = ''/sys''\<rparr>,
     jf_HostEnv = \<lparr>he_KubeMasterHost = ''10.0.0.1'', he_ContainerRegistry = [], he_ApptainerBin = ''apptainer'',
       he_EnableCgroupV2 = False, he_WorkingDirectory = ''/h'', he_KubeDNS = ''10.0.0.2''\<rparr>,
     jf_InitContainers = [], jf_Containers = [], jf_ResourceRequest = \<lparr>rr_CPU = Some 4, rr_Memory = None\<rparr>,
     jf_CustomFlags = [''--time=10'', ''-n2'']\<rparr>"

theorem HostScript_options_witness:
  "sbatch_options (HostScriptTemplate \<lparr>tf_join = (\<lambda>sep xs. strings_Join xs sep), tf_Quote = (\<lambda>s. s)\<rparr> demo_fields) =
    [''--job-name=web'', ''--output=/out'', ''--error=/err'', ''--time=10'', ''-n2'',
     ''--signal=B:TERM@60 # tells the controller'', ''--ntasks-per-node=4'']"
proof -
  have "strconv_Itoa 4 = ''4''" by code_simp
  then show ?thesis by (subst HostScript_options) (simp_all add: demo_fields_def)
qed

end
