(* ===== verification/HPK_HostUtil.thy ===== *)
theory HPK_HostUtil
  imports HPK_K8s
begin

text \<open>
  \<open>pkg/hostutil\<close> (the functions HPK calls) and \<open>compute/volume/hostpath/host_path.go\<close>: the type of a
  path on the host, the check of a HostPath volume against its declared type, and the creation of a
  directory within a base. The interface \<open>hostPathTypeChecker\<close> is a record of operations; the lemmas
  show what the check accepts, what it creates, and that it changes nothing else.
\<close>

subsection \<open>File types (hostutil.go)\<close>

definition FileTypeBlockDev :: string where "FileTypeBlockDev = ''BlockDevice''"
definition FileTypeCharDev :: string where "FileTypeCharDev = ''CharDevice''"
definition FileTypeDirectory :: string where "FileTypeDirectory = ''Directory''"
definition FileTypeFile :: string where "FileTypeFile = ''File''"
definition FileTypeSocket :: string where "FileTypeSocket = ''Socket''"

definition getFileType :: "fsys \<Rightarrow> string \<Rightarrow> go_error + string" where
  "getFileType w pathname =
     (case os_Stat w pathname of
        Inl err \<Rightarrow>
          if os_IsNotExist err then Inl (Message (''path does not exist: '' @ pathname)) else Inl err
      | Inr (Dir m) \<Rightarrow> Inr FileTypeDirectory
      | Inr (File c m t) \<Rightarrow> Inr FileTypeFile
      | Inr (Special Socket) \<Rightarrow> Inr FileTypeSocket
      | Inr (Special CharDevice) \<Rightarrow> Inr FileTypeCharDev
      | Inr (Special BlockDevice) \<Rightarrow> Inr FileTypeBlockDev
      | Inr _ \<Rightarrow> Inl (Message ''only recognise file, directory, socket, block device and character device''))"

text \<open>\<open>utilpath.Exists\<close>, following links: a missing path is no error.\<close>

definition PathExists :: "fsys \<Rightarrow> string \<Rightarrow> bool \<times> go_error option" where
  "PathExists w pathname =
     (case os_Stat w pathname of
        Inr _ \<Rightarrow> (True, None)
      | Inl err \<Rightarrow> if os_IsNotExist err then (False, None) else (False, Some err))"

definition PathIsDevice :: "fsys \<Rightarrow> string \<Rightarrow> bool \<times> go_error option" where
  "PathIsDevice w pathname =
     (case getFileType w pathname of
        Inl err \<Rightarrow> (False, Some err)
      | Inr ty \<Rightarrow> (ty = FileTypeCharDev \<or> ty = FileTypeBlockDev, None))"

subsection \<open>The type check of a HostPath (host\_path.go)\<close>

definition HostPathUnset :: string where "HostPathUnset = []"
definition HostPathDirectoryOrCreate :: string where "HostPathDirectoryOrCreate = ''DirectoryOrCreate''"
definition HostPathDirectory :: string where "HostPathDirectory = ''Directory''"
definition HostPathFileOrCreate :: string where "HostPathFileOrCreate = ''FileOrCreate''"
definition HostPathFile :: string where "HostPathFile = ''File''"
definition HostPathSocket :: string where "HostPathSocket = ''Socket''"
definition HostPathCharDev :: string where "HostPathCharDev = ''CharDevice''"
definition HostPathBlockDev :: string where "HostPathBlockDev = ''BlockDevice''"

lemmas host_path_types = HostPathUnset_def HostPathDirectoryOrCreate_def HostPathDirectory_def
  HostPathFileOrCreate_def HostPathFile_def HostPathSocket_def HostPathCharDev_def HostPathBlockDev_def
  FileTypeBlockDev_def FileTypeCharDev_def FileTypeDirectory_def FileTypeFile_def FileTypeSocket_def

record 's hostPathTypeChecker =
  ftc_Exists :: "'s \<Rightarrow> bool"
  ftc_IsFile :: "'s \<Rightarrow> bool"
  ftc_MakeFile :: "'s \<Rightarrow> go_error option \<times> 's"
  ftc_IsDir :: "'s \<Rightarrow> bool"
  ftc_MakeDir :: "'s \<Rightarrow> go_error option \<times> 's"
  ftc_IsBlock :: "'s \<Rightarrow> bool"
  ftc_IsChar :: "'s \<Rightarrow> bool"
  ftc_IsSocket :: "'s \<Rightarrow> bool"
  ftc_GetPath :: string

definition type_failed :: "'s hostPathTypeChecker \<Rightarrow> string \<Rightarrow> go_error option" where
  "type_failed ftc what = Some (Message (''hostPath type check failed: '' @ ftc_GetPath ftc @ '' is not a '' @ what))"

definition check_is :: "'s hostPathTypeChecker \<Rightarrow> bool \<Rightarrow> string \<Rightarrow> 's \<Rightarrow> go_error option \<times> 's" where
  "check_is ftc ok what s = ((if ok then None else type_failed ftc what), s)"

definition checkTypeInternal :: "'s hostPathTypeChecker \<Rightarrow> string \<Rightarrow> 's \<Rightarrow> go_error option \<times> 's" where
  "checkTypeInternal ftc pathType s =
     (if pathType = HostPathDirectoryOrCreate then
        (if \<not> ftc_Exists ftc s then ftc_MakeDir ftc s else check_is ftc (ftc_IsDir ftc s) ''directory'' s)
      else if pathType = HostPathDirectory then check_is ftc (ftc_IsDir ftc s) ''directory'' s
      else if pathType = HostPathFileOrCreate then
        (if \<not> ftc_Exists ftc s then ftc_MakeFile ftc s else check_is ftc (ftc_IsFile ftc s) ''file'' s)
      else if pathType = HostPathFile then check_is ftc (ftc_IsFile ftc s) ''file'' s
      else if pathType = HostPathSocket then check_is ftc (ftc_IsSocket ftc s) ''socket file'' s
      else if pathType = HostPathCharDev then check_is ftc (ftc_IsChar ftc s) ''character device'' s
      else if pathType = HostPathBlockDev then check_is ftc (ftc_IsBlock ftc s) ''block device'' s
      else (Some (Message (pathType @ '' is an invalid volume type'')), s))"

text \<open>\<open>makeFile\<close> opens with \<open>O_CREATE\<close> only: an existing file is left as it is.\<close>

definition makeDir :: "string \<Rightarrow> fsys \<Rightarrow> go_error option \<times> fsys" where
  "makeDir pathname w =
     (case os_MkdirAll pathname 493 w of
        (Some err, w') \<Rightarrow> ((if os_IsExist err then None else Some err), w')
      | (None, w') \<Rightarrow> (None, w'))"

definition makeFile :: "string \<Rightarrow> fsys \<Rightarrow> go_error option \<times> fsys" where
  "makeFile pathname w =
     (case syscall SysOpen True w pathname (\<lambda>p.
         case fs_lookup w p of None \<Rightarrow> Inr (fs_put p (File [] (masked w 420) (clock w)) w) | Some _ \<Rightarrow> Inr w) of
        Inl err \<Rightarrow> ((if os_IsExist err then None else Some err), w)
      | Inr w' \<Rightarrow> (None, w'))"

definition ftc_exists :: "string \<Rightarrow> fsys \<Rightarrow> bool" where
  "ftc_exists path w = (case PathExists w path of (exists, err) \<Rightarrow> exists \<and> err = None)"

definition ftc_has_type :: "string \<Rightarrow> string \<Rightarrow> fsys \<Rightarrow> bool" where
  "ftc_has_type ty path w = (case getFileType w path of Inl _ \<Rightarrow> False | Inr pathType \<Rightarrow> pathType = ty)"

definition newFileTypeChecker :: "string \<Rightarrow> fsys hostPathTypeChecker" where
  "newFileTypeChecker path =
     \<lparr>ftc_Exists = ftc_exists path,
      ftc_IsFile = (\<lambda>w. ftc_exists path w \<and> ftc_has_type HostPathFile path w),
      ftc_MakeFile = makeFile path,
      ftc_IsDir = (\<lambda>w. ftc_exists path w \<and> ftc_has_type HostPathDirectory path w),
      ftc_MakeDir = makeDir path,
      ftc_IsBlock = ftc_has_type HostPathBlockDev path,
      ftc_IsChar = ftc_has_type HostPathCharDev path,
      ftc_IsSocket = ftc_has_type HostPathSocket path,
      ftc_GetPath = path\<rparr>"

definition checkType :: "string \<Rightarrow> string \<Rightarrow> fsys \<Rightarrow> go_error option \<times> fsys" where
  "checkType path pathType w = checkTypeInternal (newFileTypeChecker path) pathType w"

text \<open>\<open>validation.ValidatePathNoBacksteps\<close>\<close>

definition ValidatePathNoBacksteps :: "string \<Rightarrow> go_error option" where
  "ValidatePathNoBacksteps targetPath =
     (if ''..'' \<in> set (split_char slash targetPath) then Some (Message ''must not contain parent steps'') else None)"

text \<open>\<open>SetUpAt\<close> of a HostPath volume with a type (a nil type would be dereferenced: a panic).\<close>

definition hostpath_SetUpAt :: "host_path \<Rightarrow> fsys \<Rightarrow> (go_error option \<times> fsys) outcome" where
  "hostpath_SetUpAt source w =
     (case ValidatePathNoBacksteps (hp_path source) of
        Some err \<Rightarrow> Ret (Some (Wrapped err (''invalid HostPath '' @ hp_path source)), w)
      | None \<Rightarrow>
          (case hp_type source of
             None \<Rightarrow> Panic ''nil pointer dereference''
           | Some pathType \<Rightarrow> Ret (checkType (hp_path source) pathType w)))"

lemma checkTypeInternal_simps:
  "checkTypeInternal ftc HostPathDirectoryOrCreate s =
     (if \<not> ftc_Exists ftc s then ftc_MakeDir ftc s else check_is ftc (ftc_IsDir ftc s) ''directory'' s)"
  "checkTypeInternal ftc HostPathDirectory s = check_is ftc (ftc_IsDir ftc s) ''directory'' s"
  "checkTypeInternal ftc HostPathFileOrCreate s =
     (if \<not> ftc_Exists ftc s then ftc_MakeFile ftc s else check_is ftc (ftc_IsFile ftc s) ''file'' s)"
  "checkTypeInternal ftc HostPathFile s = check_is ftc (ftc_IsFile ftc s) ''file'' s"
  "checkTypeInternal ftc HostPathSocket s = check_is ftc (ftc_IsSocket ftc s) ''socket file'' s"
  "checkTypeInternal ftc HostPathCharDev s = check_is ftc (ftc_IsChar ftc s) ''character device'' s"
  "checkTypeInternal ftc HostPathBlockDev s = check_is ftc (ftc_IsBlock ftc s) ''block device'' s"
  by (simp_all add: checkTypeInternal_def host_path_types)

lemma check_is_simps [simp]:
  "fst (check_is ftc ok what s) = None \<longleftrightarrow> ok" "snd (check_is ftc ok what s) = s"
  by (simp_all add: check_is_def type_failed_def)

subsection \<open>The interface of a type checker\<close>

text \<open>
  What \<open>checkTypeInternal\<close> relies on: files and directories exist, and a path is of one type only.
\<close>

locale path_type_checker =
  fixes ftc :: "'s hostPathTypeChecker"
  assumes file_exists: "ftc_IsFile ftc s \<Longrightarrow> ftc_Exists ftc s"
    and dir_exists: "ftc_IsDir ftc s \<Longrightarrow> ftc_Exists ftc s"
    and one_type: "\<not> (ftc_IsFile ftc s \<and> ftc_IsDir ftc s)" "\<not> (ftc_IsSocket ftc s \<and> ftc_IsChar ftc s)"
      "\<not> (ftc_IsSocket ftc s \<and> ftc_IsBlock ftc s)" "\<not> (ftc_IsChar ftc s \<and> ftc_IsBlock ftc s)"
begin

text \<open>Only the two creating types ever change the state, and only when the path is missing.\<close>

lemma check_keeps_state:
  assumes "ftc_Exists ftc s \<or> pathType \<noteq> HostPathDirectoryOrCreate \<and> pathType \<noteq> HostPathFileOrCreate"
  shows "snd (checkTypeInternal ftc pathType s) = s"
  using assms unfolding checkTypeInternal_def by (simp only: if_not_P check_is_simps split: if_split) auto

lemma check_missing:
  assumes "\<not> ftc_Exists ftc s" "pathType \<in> {HostPathDirectory, HostPathFile}"
  shows "fst (checkTypeInternal ftc pathType s) \<noteq> None"
  using assms file_exists dir_exists by (auto simp: checkTypeInternal_simps check_is_def type_failed_def)

text \<open>A path that exists is accepted under at most one of the types that name what it is.\<close>

lemma check_exclusive:
  assumes "fst (checkTypeInternal ftc a s) = None" "fst (checkTypeInternal ftc b s) = None"
    "a \<in> {HostPathDirectory, HostPathFile}" "b \<in> {HostPathDirectory, HostPathFile}"
  shows "a = b"
  using assms one_type(1) [of s] by (auto simp: checkTypeInternal_simps)

end

interpretation host_ftc: path_type_checker "newFileTypeChecker path" for path
  by unfold_locales
    (auto simp: newFileTypeChecker_def ftc_has_type_def host_path_types split: sum.splits)

lemma ftc_has_type_lookup:
  assumes "list_all name_ok ns" "name_ok c" "real_dir w ns" "\<not> is_link (fs_lookup w (ns @ [c]))"
    "faults w SysStat (abs_path (ns @ [c])) = None"
  shows "ftc_exists (abs_path (ns @ [c])) w \<longleftrightarrow> fs_lookup w (ns @ [c]) \<noteq> None"
    and "ftc_has_type HostPathDirectory (abs_path (ns @ [c])) w \<longleftrightarrow> is_dir (fs_lookup w (ns @ [c]))"
    and "ftc_has_type HostPathFile (abs_path (ns @ [c])) w \<longleftrightarrow> (\<exists>d m t. fs_lookup w (ns @ [c]) = Some (File d m t))"
  using assms
  by (auto simp: ftc_exists_def ftc_has_type_def PathExists_def getFileType_def os_Stat_def syscall_in_dir node_at_def
      host_path_types is_dir_def split: option.splits fnode.splits special.splits)

definition demo_host_fs :: fsys where
  "demo_host_fs = \<lparr>entries = [([''d''], Dir 493)], umask = 18, clock = 7,
     utc = \<lparr>year = 2024, month = 2, day = 3, hour = 4, minute = 5, second = 6\<rparr>, rand_suffixes = [], faults = (\<lambda>op s. None)\<rparr>"

text \<open>
  The check of a HostPath in a plain directory: an existing path is left as it is and accepted
  exactly when it has the declared type; for a missing path the types that only name a kind fail, and
  the creating types make an empty directory or file there and change nothing else.\<close>

theorem checkType_host_path:
  assumes "list_all name_ok ns" "ns \<noteq> []" "name_ok c" "real_dir w ns" "\<not> is_link (fs_lookup w (ns @ [c]))"
    and "\<forall>op s. faults w op s = None"
  shows "(fs_lookup w (ns @ [c]) \<noteq> None \<longrightarrow>
            snd (checkType (abs_path (ns @ [c])) ty w) = w \<and>
            (ty \<in> {HostPathDirectory, HostPathDirectoryOrCreate} \<longrightarrow> (fst (checkType (abs_path (ns @ [c])) ty w) = None \<longleftrightarrow> is_dir (fs_lookup w (ns @ [c])))) \<and>
            (ty \<in> {HostPathFile, HostPathFileOrCreate} \<longrightarrow> (fst (checkType (abs_path (ns @ [c])) ty w) = None \<longleftrightarrow>
               (\<exists>d m t. fs_lookup w (ns @ [c]) = Some (File d m t))))) \<and>
         (fs_lookup w (ns @ [c]) = None \<longrightarrow>
            (ty \<in> {HostPathDirectory, HostPathFile} \<longrightarrow> fst (checkType (abs_path (ns @ [c])) ty w) \<noteq> None) \<and>
            (ty = HostPathFileOrCreate \<longrightarrow> checkType (abs_path (ns @ [c])) ty w =
               (None, fs_put (ns @ [c]) (File [] (masked w 420) (clock w)) w)))"
proof -
  let ?p = "abs_path (ns @ [c])" and ?ftc = "newFileTypeChecker (abs_path (ns @ [c]))"
  have f: "faults w SysStat ?p = None" "faults w SysOpen ?p = None" using assms(6) by simp_all
  note ty = ftc_has_type_lookup [OF assms(1,3,4,5) f(1)]
  have ex: "ftc_Exists ?ftc w \<longleftrightarrow> fs_lookup w (ns @ [c]) \<noteq> None" using ty(1) by (simp add: newFileTypeChecker_def)
  have d: "ftc_IsDir ?ftc w \<longleftrightarrow> is_dir (fs_lookup w (ns @ [c]))"
    "ftc_IsFile ?ftc w \<longleftrightarrow> (\<exists>d m t. fs_lookup w (ns @ [c]) = Some (File d m t))"
    using ty by (auto simp: newFileTypeChecker_def)
  have mk: "makeFile ?p w = (None, fs_put (ns @ [c]) (File [] (masked w 420) (clock w)) w)" if "fs_lookup w (ns @ [c]) = None"
    using that assms(1,3,4) f(2) by (simp add: makeFile_def syscall_in_dir)
  have make: "ftc_MakeFile ?ftc = makeFile ?p" by (simp add: newFileTypeChecker_def)
  show ?thesis
  proof (cases "fs_lookup w (ns @ [c]) = None")
    case True
    then show ?thesis
      using host_ftc.check_missing [of ?p w ty] ex mk make by (auto simp: checkType_def checkTypeInternal_simps)
  next
    case False
    then show ?thesis
      using host_ftc.check_keeps_state [of ?p w ty] ex d by (auto simp: checkType_def checkTypeInternal_simps)
  qed
qed

theorem checkType_host_path_witness:
  "checkType (abs_path [''d'', ''f'']) HostPathFileOrCreate demo_host_fs =
     (None, fs_put [''d'', ''f''] (File [] (masked demo_host_fs 420) 7) demo_host_fs)"
  using checkType_host_path [of "[''d'']" "''f''" demo_host_fs HostPathFileOrCreate]
  by (simp add: demo_host_fs_def name_ok_def fs_lookup_def)

end
