(* ===== verification/HPK_SubPath.thy ===== *)
theory HPK_SubPath
  imports HPK_HostUtil
begin

unbundle bit_operations_syntax

text \<open>
  Package \<open>pkg/hostutil\<close> (\<open>subpath.go\<close>): making the directory of a volume's subpath without leaving
  the volume. A file descriptor is the resolved path of what it refers to, \<open>openat\<close> resolves one
  segment from there. \<open>mount.PathWithinBase\<close> belongs to a Kubernetes library and is the parameter
  \<open>within\<close>; \<open>within_base\<close> is what is documented of it. The theorem shows that \<open>SafeMakeDir\<close> changes
  nothing outside the resolved base, whatever links the volume holds and whichever call fails.
\<close>

subsection \<open>Library functions\<close>

text \<open>
  \<open>filepath.Rel\<close> of two paths that are both absolute: the elements after the common ones, and one
  step back for every element of the base that is left.
\<close>

fun common_rest :: "string list \<Rightarrow> string list \<Rightarrow> string list \<times> string list" where
  "common_rest (b # bs) (t # ts) = (if b = t then common_rest bs ts else (b # bs, t # ts))"
| "common_rest bs ts = (bs, ts)"

definition filepath_Rel :: "string \<Rightarrow> string \<Rightarrow> go_error + string" where
  "filepath_Rel base targ =
     (let b = filepath_Clean base; t = filepath_Clean targ
      in if b = t then Inr ''.''
         else if filepath_IsAbs b \<noteq> filepath_IsAbs t then Inl (Message ''can't make targ relative to base'')
         else case common_rest (path_elems b) (path_elems t) of
           (bs, ts) \<Rightarrow>
             if bs \<noteq> [] \<and> hd bs = ''..'' then Inl (Message ''can't make targ relative to base'')
             else Inr (strings_Join (map (\<lambda>_. ''..'') bs @ ts) [slash]))"

text \<open>
  \<open>filepath.EvalSymlinks\<close> of an absolute path follows at most 255 links, and the path must exist.
\<close>

definition max_eval_links :: nat where "max_eval_links = 255"

definition filepath_EvalSymlinks :: "fsys \<Rightarrow> string \<Rightarrow> go_error + string" where
  "filepath_EvalSymlinks w s =
     (case faults w SysLstat s of
        Some e \<Rightarrow> Inl (OsError e s)
      | None \<Rightarrow>
          (case resolve True max_eval_links w [] (path_elems s) of
             Inl e \<Rightarrow> Inl (OsError e s)
           | Inr p \<Rightarrow> if fs_lookup w p = None then Inl (OsError ENOENT s) else Inr (abs_path p)))"

text \<open>\<open>syscall.Open\<close> of a directory; with \<open>O_NOFOLLOW\<close> a link is refused.\<close>

definition fd_open :: "bool \<Rightarrow> fsys \<Rightarrow> string \<Rightarrow> go_error + fpath" where
  "fd_open follow w s =
     syscall SysOpen follow w s (\<lambda>p.
       case fs_lookup w p of
         None \<Rightarrow> Inl ENOENT
       | Some (Symlink l) \<Rightarrow> Inl ELOOP
       | Some _ \<Rightarrow> Inr p)"

text \<open>
  \<open>syscall.Openat\<close> with \<open>O_PATH\<close>: without \<open>follow\<close> (\<open>O_NOFOLLOW\<close>) the descriptor is the link itself.
\<close>

definition openat :: "bool \<Rightarrow> fsys \<Rightarrow> fpath \<Rightarrow> string \<Rightarrow> go_error + fpath" where
  "openat follow w fd dir =
     (let s = filepath_Join [abs_path fd, dir]
      in case faults w SysOpen s of
           Some e \<Rightarrow> Inl (OsError e s)
         | None \<Rightarrow>
             if \<not> is_dir (fs_lookup w fd) then Inl (OsError ENOTDIR s)
             else case resolve follow max_symlinks w fd (path_elems dir) of
               Inl e \<Rightarrow> Inl (OsError e s)
             | Inr p \<Rightarrow> if fs_lookup w p = None then Inl (OsError ENOENT s) else Inr p)"

subsection \<open>subpath.go\<close>

text \<open>
  \<open>findExistingPrefix\<close>: the part of the path that exists and the names that do not. The loop holds
  the descriptor and the path walked so far.
\<close>

fun existing_loop :: "fsys \<Rightarrow> fpath \<Rightarrow> string \<Rightarrow> string list \<Rightarrow> go_error + (string \<times> string list)" where
  "existing_loop w fd currentPath [] = Inr (currentPath, [])"
| "existing_loop w fd currentPath (dir # dirs) =
     (case openat True w fd dir of
        Inl err \<Rightarrow> if os_IsNotExist err then Inr (currentPath, dir # dirs) else Inl err
      | Inr childFD \<Rightarrow> existing_loop w childFD (filepath_Join [currentPath, dir]) dirs)"

definition findExistingPrefix :: "fsys \<Rightarrow> string \<Rightarrow> string \<Rightarrow> go_error + (string \<times> string list)" where
  "findExistingPrefix w base pathname =
     (case filepath_Rel base pathname of
        Inl err \<Rightarrow> Inl err
      | Inr rel \<Rightarrow>
          (case fd_open True w base of
             Inl err \<Rightarrow> Inl (Message (''error opening '' @ base))
           | Inr fd \<Rightarrow>
               (case existing_loop w fd base (split_char slash rel) of
                  Inl err \<Rightarrow> Inl err
                | Inr (currentPath, []) \<Rightarrow> Inr (pathname, [])
                | Inr (currentPath, toCreate) \<Rightarrow> Inr (currentPath, toCreate))))"

text \<open>\<open>doSafeOpen\<close>: every segment must stay below the base and must not be a link.\<close>

fun safe_open_loop :: "(string \<Rightarrow> string \<Rightarrow> bool) \<Rightarrow> string \<Rightarrow> fsys \<Rightarrow> fpath \<Rightarrow> string \<Rightarrow> string list \<Rightarrow> go_error + fpath" where
  "safe_open_loop within base w parentFD currentPath [] = Inr parentFD"
| "safe_open_loop within base w parentFD currentPath (seg # segs) =
     (let cur = filepath_Join [currentPath, seg]
      in if \<not> within cur base then Inl (Message (''path is outside of allowed base '' @ base))
         else case openat False w parentFD seg of
           Inl err \<Rightarrow> Inl (Message (''cannot open '' @ cur))
         | Inr childFD \<Rightarrow>
             (case faults w SysStat cur of
                Some e \<Rightarrow> Inl (Message (''error running fstat on '' @ cur))
              | None \<Rightarrow>
                  if is_link (fs_lookup w childFD) then Inl (Message (''unexpected symlink found '' @ cur))
                  else safe_open_loop within base w childFD cur segs))"

definition doSafeOpen :: "(string \<Rightarrow> string \<Rightarrow> bool) \<Rightarrow> fsys \<Rightarrow> string \<Rightarrow> string \<Rightarrow> go_error + fpath" where
  "doSafeOpen within w pathname0 base0 =
     (let pathname = filepath_Clean pathname0; base = filepath_Clean base0
      in case filepath_Rel base pathname of
           Inl err \<Rightarrow> Inl err
         | Inr subpath \<Rightarrow>
             (case fd_open False w base of
                Inl err \<Rightarrow> Inl (Message (''cannot open directory '' @ base))
              | Inr parentFD \<Rightarrow> safe_open_loop within base w parentFD base (split_char slash subpath)))"

text \<open>The mode for \<open>fchmod\<close>: the permission bits and the set-gid, set-uid and sticky bits.\<close>

definition kernelPerm :: "int \<Rightarrow> int" where
  "kernelPerm perm =
     (perm AND 511) OR (if bit perm 22 then 1024 else 0) OR (if bit perm 23 then 2048 else 0)
       OR (if bit perm 20 then 512 else 0)"

text \<open>
  The loop that makes the directories. \<open>Mkdirat\<close> is called with an absolute path, for which the
  kernel ignores the descriptor; the made directory is then opened through the descriptor and its
  mode is set.
\<close>

fun make_dirs_at :: "int \<Rightarrow> fpath \<Rightarrow> string \<Rightarrow> string list \<Rightarrow> fsys \<Rightarrow> go_error option \<times> fsys" where
  "make_dirs_at perm parentFD currentPath [] w = (None, w)"
| "make_dirs_at perm parentFD currentPath (dir # dirs) w =
     (let cur = filepath_Join [currentPath, dir]
      in case os_Mkdir cur perm w of
           Inl err \<Rightarrow> (Some (Message (''cannot create directory '' @ cur)), w)
         | Inr w1 \<Rightarrow>
             (case openat False w1 parentFD dir of
                Inl err \<Rightarrow> (Some (Message (''cannot open '' @ cur)), w1)
              | Inr childFD \<Rightarrow>
                  if is_link (fs_lookup w1 childFD) then (Some (Message (''cannot open '' @ cur)), w1)
                  else case faults w1 SysChmod cur of
                    Some e \<Rightarrow> (Some (Message (''chmod failed: '' @ cur)), w1)
                  | None \<Rightarrow>
                      let w2 = (case fs_lookup w1 childFD of
                                  None \<Rightarrow> w1
                                | Some n \<Rightarrow> fs_put childFD (set_mode (kernelPerm perm) n) w1)
                      in make_dirs_at perm childFD cur dirs w2))"

definition doSafeMakeDir :: "(string \<Rightarrow> string \<Rightarrow> bool) \<Rightarrow> string \<Rightarrow> string \<Rightarrow> int \<Rightarrow> fsys \<Rightarrow> go_error option \<times> fsys" where
  "doSafeMakeDir within pathname base perm w =
     (if \<not> within pathname base then (Some (Message (''path is outside of allowed base '' @ base)), w)
      else case os_Stat w pathname of
        Inr (Dir m) \<Rightarrow> (None, w)
      | Inr _ \<Rightarrow> (Some (OsError ENOTDIR pathname), w)
      | Inl _ \<Rightarrow>
          (case findExistingPrefix w base pathname of
             Inl err \<Rightarrow> (Some (Message (''error opening directory '' @ pathname)), w)
           | Inr (existingPath, toCreate) \<Rightarrow>
               (case filepath_EvalSymlinks w existingPath of
                  Inl err \<Rightarrow> (Some (Message (''error opening directory '' @ existingPath)), w)
                | Inr fullExistingPath \<Rightarrow>
                    if \<not> within fullExistingPath base then
                      (Some (Message (''path is outside of allowed base '' @ fullExistingPath)), w)
                    else case doSafeOpen within w fullExistingPath base of
                      Inl err \<Rightarrow> (Some (Message (''cannot open directory '' @ existingPath)), w)
                    | Inr parentFD \<Rightarrow> make_dirs_at perm parentFD fullExistingPath toCreate w)))"

definition SafeMakeDir :: "(string \<Rightarrow> string \<Rightarrow> bool) \<Rightarrow> string \<Rightarrow> string \<Rightarrow> int \<Rightarrow> fsys \<Rightarrow> go_error option \<times> fsys" where
  "SafeMakeDir within subdir base perm w =
     (case filepath_EvalSymlinks w base of
        Inl err \<Rightarrow> (Some (Message (''error resolving symlinks in '' @ base)), w)
      | Inr realBase \<Rightarrow> doSafeMakeDir within (filepath_Join [realBase, subdir]) realBase perm w)"

subsection \<open>Resolved paths\<close>

lemma path_elems_elem: "c \<in> set (path_elems s) \<Longrightarrow> c \<noteq> [] \<and> c \<noteq> ''.'' \<and> slash \<notin> set c"
  by (auto simp: path_elems_def dest: split_char_elem)

text \<open>What a resolution that follows links arrives at: an existing node, not a link, below real directories.\<close>

definition real_path :: "fsys \<Rightarrow> fpath \<Rightarrow> bool" where
  "real_path w p =
     (list_all name_ok p \<and> real_dir w (butlast p) \<and> fs_lookup w p \<noteq> None \<and> \<not> is_link (fs_lookup w p))"

lemma is_dir_not_link: "is_dir x \<Longrightarrow> \<not> is_link x"
  by (auto elim: is_dirE)

lemma real_dir_butlast: "real_dir w p \<Longrightarrow> real_dir w (butlast p)"
  by (cases p rule: rev_cases) (auto simp: dir_chain_append)

lemma resolve_real:
  assumes "resolve True n w cur cs = Inr p" and "real_dir w cur" and "list_all name_ok cur"
    and "\<forall>c\<in>set cs. c \<noteq> [] \<and> c \<noteq> ''.'' \<and> slash \<notin> set c" and "fs_lookup w p \<noteq> None"
  shows "real_path w p"
  using assms
proof (induction True n w cur cs rule: resolve.induct)
  case (1 n w cur)
  then have "is_dir (fs_lookup w p)" by (auto dest: real_dir_lookup)
  with 1 show ?case by (auto simp: real_path_def real_dir_butlast dest: is_dir_not_link)
next
  case (2 n w cur c cs)
  show ?case
  proof (cases "c = ''..''")
    case True
    with 2 show ?thesis by (auto simp: resolve.simps real_dir_butlast list_all_iff dest: in_set_butlastD)
  next
    case nodd: False
    then have ok: "name_ok c" using "2.prems"(4) by (auto simp: name_ok_def)
    show ?thesis
    proof (cases "fs_lookup w (cur @ [c])")
      case None
      with 2 nodd show ?thesis by (auto simp: resolve.simps split: if_splits)
    next
      case (Some node)
      show ?thesis
      proof (cases node)
        case (Symlink t)
        have "\<forall>x\<in>set (path_elems t @ cs). x \<noteq> [] \<and> x \<noteq> ''.'' \<and> slash \<notin> set x"
          using "2.prems"(4) path_elems_elem by auto
        with 2 Some Symlink nodd show ?thesis by (auto simp: resolve.simps split: if_splits)
      next
        case (Dir m)
        with 2 Some nodd ok show ?thesis by (auto simp: resolve.simps dir_chain_append)
      qed (use 2 Some nodd ok in \<open>auto simp: resolve.simps real_path_def split: if_splits\<close>)
    qed
  qed
qed

lemma EvalSymlinks_real:
  assumes "filepath_EvalSymlinks w s = Inr r"
  obtains p where "r = abs_path p" "real_path w p"
proof -
  from assms obtain p where p: "resolve True max_eval_links w [] (path_elems s) = Inr p"
    "fs_lookup w p \<noteq> None" "r = abs_path p"
    by (auto simp: filepath_EvalSymlinks_def split: option.splits sum.splits if_splits)
  have "real_path w p" by (rule resolve_real [OF p(1)]) (use p path_elems_elem in auto)
  with p that show thesis by blast
qed

lemma real_path_dir: "real_path w p \<Longrightarrow> is_dir (fs_lookup w p) \<Longrightarrow> real_dir w p"
  by (cases p rule: rev_cases) (auto simp: real_path_def dir_chain_append name_ok_def)

lemma real_path_resolve:
  assumes "real_path w p"
  shows "fs_resolve f w (abs_path p) = Inr p"
proof (cases p rule: rev_cases)
  case Nil
  then show ?thesis by (simp add: fs_resolve_def path_elems_def abs_path_def)
next
  case (snoc q c)
  with assms show ?thesis by (auto simp: real_path_def intro!: fs_resolve_in_dir)
qed

text \<open>Below an existing node a directory can only be made when the node is a directory.\<close>

lemma os_Mkdir_Inr:
  assumes "os_Mkdir s perm w = Inr w'"
  obtains p where "fs_resolve False w s = Inr p" "fs_lookup w p = None" "w' = fs_put p (Dir (masked w perm)) w"
  using assms by (auto simp: os_Mkdir_def syscall_def split: option.splits sum.splits if_splits)

lemma resolve_below_file:
  assumes "real_path w p" and "\<not> is_dir (fs_lookup w p)" and "name_ok d"
  shows "\<exists>e. fs_resolve False w (abs_path (p @ [d])) = Inl e"
proof (cases p rule: rev_cases)
  case (snoc q c)
  with assms have "path_elems (abs_path (p @ [d])) = q @ [c, d]" "real_dir w q" "c \<noteq> ''..''"
    by (auto simp: real_path_def name_ok_def)
  then show ?thesis using assms snoc
    by (auto simp: fs_resolve_def resolve_dir_chain resolve.simps real_path_def split: option.splits fnode.splits)
qed (use assms in simp)

lemma os_Mkdir_below_real:
  assumes "real_path w p" and "name_ok d" and "os_Mkdir (abs_path (p @ [d])) perm w = Inr w'"
  shows "real_dir w p \<and> fs_lookup w (p @ [d]) = None \<and> w' = fs_put (p @ [d]) (Dir (masked w perm)) w"
proof -
  have dir: "real_dir w p"
  proof (rule ccontr)
    assume "\<not> real_dir w p"
    with assms(1) have "\<not> is_dir (fs_lookup w p)" using real_path_dir by blast
    from resolve_below_file [OF assms(1) this assms(2)] assms(3) show False
      by (auto elim: os_Mkdir_Inr)
  qed
  with assms have "fs_resolve False w (abs_path (p @ [d])) = Inr (p @ [d])"
    by (intro fs_resolve_in_dir) (auto simp: real_path_def)
  with assms(3) dir show ?thesis by (auto elim: os_Mkdir_Inr)
qed

lemma os_Mkdir_self: "real_path w p \<Longrightarrow> \<exists>e. os_Mkdir (abs_path p) perm w = Inl e"
  by (cases "os_Mkdir (abs_path p) perm w") (auto simp: real_path_resolve real_path_def elim!: os_Mkdir_Inr)

subsection \<open>Confinement\<close>

text \<open>What the documentation of \<open>mount.PathWithinBase\<close> promises, on clean absolute paths.\<close>

definition within_base :: "(string \<Rightarrow> string \<Rightarrow> bool) \<Rightarrow> bool" where
  "within_base within =
     (\<forall>ps bs. list_all name_ok ps \<longrightarrow> list_all name_ok bs \<longrightarrow>
        within (abs_path ps) (abs_path bs) \<longrightarrow> prefix bs ps)"

text \<open>From one state to the next only directories appear, all strictly below \<open>b\<close>.\<close>

definition only_new_dirs :: "fpath \<Rightarrow> fsys \<Rightarrow> fsys \<Rightarrow> bool" where
  "only_new_dirs b w w' =
     (\<forall>q. fs_lookup w' q \<noteq> fs_lookup w q \<longrightarrow>
        strict_prefix b q \<and> fs_lookup w q = None \<and> is_dir (fs_lookup w' q))"

lemma only_new_dirs_refl [simp]: "only_new_dirs b w w"
  by (simp add: only_new_dirs_def)

lemma only_new_dirs_put:
  "strict_prefix b p \<Longrightarrow> fs_lookup w p = None \<Longrightarrow> only_new_dirs b w (fs_put p (Dir m) w)"
  by (auto simp: only_new_dirs_def split: if_splits)

lemma only_new_dirs_trans:
  assumes "only_new_dirs b w w1" and "only_new_dirs b w1 w2"
  shows "only_new_dirs b w w2"
  unfolding only_new_dirs_def
proof (intro allI impI)
  fix q
  assume "fs_lookup w2 q \<noteq> fs_lookup w q"
  then show "strict_prefix b q \<and> fs_lookup w q = None \<and> is_dir (fs_lookup w2 q)"
    using assms unfolding only_new_dirs_def
    by (metis is_dir_simps(2))
qed

lemma openat_name:
  assumes "openat False w fd d = Inr c" and "name_ok d"
  shows "c = fd @ [d] \<and> is_dir (fs_lookup w fd)"
  using assms
  by (auto simp: openat_def Let_def path_elems_name resolve_last name_ok_def
      split: option.splits if_splits sum.splits)

lemma make_dirs_at_confined:
  assumes "real_path w p" and "prefix b p" and "list_all name_ok dirs"
    and "make_dirs_at perm p (abs_path p) dirs w = (r, w')"
  shows "only_new_dirs b w w'"
  using assms
proof (induction dirs arbitrary: p w)
  case (Cons d ds)
  let ?q = "p @ [d]"
  have ok: "list_all name_ok p" "name_ok d" "list_all name_ok ds"
    using Cons.prems by (auto simp: real_path_def)
  have below: "strict_prefix b ?q"
    using Cons.prems(2) by (auto simp: strict_prefix_def prefix_def)
  show ?case
  proof (cases "os_Mkdir (abs_path ?q) perm w")
    case (Inl e)
    with Cons.prems ok show ?thesis by simp
  next
    case (Inr w1)
    note new = os_Mkdir_below_real [OF Cons.prems(1) ok(2) Inr]
    then have first: "only_new_dirs b w w1" using below by (simp add: only_new_dirs_put)
    let ?m = "masked w perm" and ?w2 = "fs_put ?q (Dir (kernelPerm perm)) w1"
    have w1: "fs_lookup w1 ?q = Some (Dir ?m)" using new by simp
    have "only_new_dirs b w ?w2"
      using new below by (auto simp: only_new_dirs_def split: if_splits)
    moreover have "only_new_dirs b ?w2 w'"
      if "make_dirs_at perm ?q (abs_path ?q) ds ?w2 = (r, w')"
    proof (rule Cons.IH [OF _ _ ok(3) that])
      have "real_dir ?w2 p" using new by (auto intro!: dir_chain_put)
      then show "real_path ?w2 ?q" using ok by (simp add: real_path_def)
    qed (use Cons.prems(2) in \<open>auto\<close>)
    ultimately show ?thesis
      using Cons.prems(4) Inr ok first w1 openat_name [of w1 p d]
      by (auto simp: Let_def set_mode_def intro: only_new_dirs_trans
          split: sum.splits option.splits if_splits)
  qed
qed simp

lemma common_rest_prefix [simp]: "common_rest bs (bs @ ts) = ([], ts)"
  by (induction bs) auto

lemma Rel_below:
  assumes "list_all name_ok bs" and "list_all name_ok ts"
  shows "filepath_Rel (abs_path bs) (abs_path (bs @ ts)) =
    Inr (if ts = [] then ''.'' else strings_Join ts [slash])"
  using assms abs_path_inject [of bs "bs @ ts"] by (auto simp: filepath_Rel_def Let_def)

lemma Rel_below_split:
  assumes "list_all name_ok bs" and "list_all name_ok ts" and "filepath_Rel (abs_path bs) (abs_path (bs @ ts)) = Inr rel"
  shows "split_char slash rel = (if ts = [] then [''.''] else ts)"
proof (cases "ts = []")
  case False
  have "split_char slash (strings_Join ts [slash]) = ts"
    by (rule split_char_Join [OF False]) (use assms(2) in \<open>auto simp: list_all_iff name_ok_def\<close>)
  with False assms show ?thesis by (simp add: Rel_below)
qed (use assms Rel_below [of bs "[]"] in auto)

lemma safe_open_loop_names:
  "safe_open_loop within base w fd cur segs = Inr r \<Longrightarrow> list_all name_ok segs \<Longrightarrow> r = fd @ segs"
proof (induction segs arbitrary: fd cur)
  case (Cons seg segs)
  then obtain c where "openat False w fd seg = Inr c" "safe_open_loop within base w c (filepath_Join [cur, seg]) segs = Inr r"
    by (auto simp: Let_def split: if_splits sum.splits option.splits)
  moreover from this(1) Cons.prems(2) have "c = fd @ [seg]" using openat_name by simp
  moreover have "list_all name_ok segs" using Cons.prems(2) by simp
  ultimately show ?case using Cons.IH [of c "filepath_Join [cur, seg]"] by simp
qed simp

lemma path_elems_dot [simp]: "path_elems ''.'' = []"
  by (simp add: path_elems_def)

lemma doSafeOpen_real:
  assumes "doSafeOpen within w (abs_path (b @ ts)) (abs_path b) = Inr fd"
    and "real_path w b" and "list_all name_ok ts"
  shows "fd = b @ ts"
proof -
  have ok: "list_all name_ok b" using assms(2) by (simp add: real_path_def)
  then obtain rel fd0 where rel: "filepath_Rel (abs_path b) (abs_path (b @ ts)) = Inr rel"
    and fd0: "fd_open False w (abs_path b) = Inr fd0"
    and loop: "safe_open_loop within (abs_path b) w fd0 (abs_path b) (split_char slash rel) = Inr fd"
    using assms(1,3) by (auto simp: doSafeOpen_def Let_def split: sum.splits)
  have "fd0 = b"
    using fd0 real_path_resolve [OF assms(2)]
    by (auto simp: fd_open_def syscall_def split: option.splits sum.splits fnode.splits)
  then show ?thesis
    using loop Rel_below_split [OF ok assms(3) rel] safe_open_loop_names [of within "abs_path b" w b _ ts fd] assms(3)
    by (auto simp: openat_def Let_def split: if_splits option.splits sum.splits)
qed

lemma existing_loop_suffix: "existing_loop w fd cur dirs = Inr (e, rest) \<Longrightarrow> suffix rest dirs"
proof (induction dirs arbitrary: fd cur)
  case (Cons d ds)
  then show ?case by (auto split: sum.splits if_splits intro: suffix_ConsI)
qed simp

lemma findExistingPrefix_names:
  assumes "findExistingPrefix w (abs_path b) (abs_path (b @ ts)) = Inr (e, rest)"
    and "list_all name_ok b" and "list_all name_ok ts"
  shows "list_all name_ok rest \<or> rest = [''.'']"
proof -
  from assms(1) obtain rel fd e' rest' where "filepath_Rel (abs_path b) (abs_path (b @ ts)) = Inr rel"
    and loop: "existing_loop w fd (abs_path b) (split_char slash rel) = Inr (e', rest')" and "rest = rest' \<or> rest = []"
    by (auto simp: findExistingPrefix_def split: sum.splits list.splits)
  moreover from this(1) have "split_char slash rel = (if ts = [] then [''.''] else ts)"
    by (rule Rel_below_split [OF assms(2,3)])
  moreover obtain zs where "split_char slash rel = zs @ rest'"
    using existing_loop_suffix [OF loop] by (auto simp: suffix_def)
  ultimately show ?thesis
    using assms(3) by (cases "ts = []") (auto simp: append_eq_Cons_conv)
qed

lemma make_dirs_at_dot:
  assumes "real_path w p"
  shows "snd (make_dirs_at perm fd (abs_path p) [''.''] w) = w"
proof -
  have "filepath_Join [abs_path p, ''.''] = abs_path p"
    using assms Join_abs_path [of p "''.''"] by (simp add: real_path_def)
  moreover obtain e where "os_Mkdir (abs_path p) perm w = Inl e" using os_Mkdir_self [OF assms] by blast
  ultimately show ?thesis by simp
qed

lemma doSafeMakeDir_confined:
  assumes "within_base within" and "real_path w b" and "list_all name_ok ps"
    and "doSafeMakeDir within (abs_path ps) (abs_path b) perm w = (r, w')"
  shows "only_new_dirs b w w'"
proof (cases "w' = w")
  case False
  have ok: "list_all name_ok b" using assms(2) by (simp add: real_path_def)
  from assms(4) False obtain e rest full fd where within: "within (abs_path ps) (abs_path b)"
    and find: "findExistingPrefix w (abs_path b) (abs_path ps) = Inr (e, rest)"
    and full: "filepath_EvalSymlinks w e = Inr full" "within full (abs_path b)"
    and fd: "doSafeOpen within w full (abs_path b) = Inr fd"
    and make: "make_dirs_at perm fd full rest w = (r, w')"
    by (auto simp: doSafeMakeDir_def split: sum.splits fnode.splits if_splits)
  from assms(1) within assms(3) ok have "prefix b ps" by (simp add: within_base_def)
  then obtain ts where ts: "ps = b @ ts" "list_all name_ok ts"
    using assms(3) by (auto simp: prefix_def)
  obtain p where p: "full = abs_path p" "real_path w p"
    using full(1) by (rule EvalSymlinks_real)
  with assms(1) full(2) ok have below: "prefix b p"
    by (auto simp: within_base_def real_path_def)
  then obtain us where us: "p = b @ us" by (auto simp: prefix_def)
  have "fd = p"
    using fd p us assms(2) doSafeOpen_real [of within w b us fd] by (simp add: real_path_def)
  moreover have "rest \<noteq> [''.'']" using False make make_dirs_at_dot [OF p(2), of perm fd] p(1) by auto
  ultimately show ?thesis
    using findExistingPrefix_names [of w b ts e rest] find ts ok make p below
    by (auto intro: make_dirs_at_confined)
qed simp

text \<open>
  C16. Making the directory of a subpath never leaves the volume: whatever the subpath is, whatever
  links lie on the way and whichever call fails, the only difference between the file system before
  and after \<open>SafeMakeDir\<close> are new directories strictly below the directory that the base resolves to.
\<close>

theorem SafeMakeDir_confined:
  assumes "within_base within" and "SafeMakeDir within subdir base perm w = (r, w')" and "w' \<noteq> w"
  shows "\<exists>b. filepath_EvalSymlinks w base = Inr (abs_path b) \<and> only_new_dirs b w w'"
proof -
  from assms obtain real where real: "filepath_EvalSymlinks w base = Inr real"
    and make: "doSafeMakeDir within (filepath_Join [real, subdir]) real perm w = (r, w')"
    by (auto simp: SafeMakeDir_def split: sum.splits)
  from real obtain b where b: "real = abs_path b" "real_path w b" by (rule EvalSymlinks_real)
  have "filepath_Join [abs_path b, subdir] = filepath_Clean (abs_path b @ slash # subdir)"
    by (simp add: filepath_Join_def)
  then obtain ps where "filepath_Join [abs_path b, subdir] = abs_path ps" "list_all name_ok ps"
    using Clean_abs [of "abs_path b @ slash # subdir"] by auto
  with make b assms(1) have "only_new_dirs b w w'" by (auto intro: doSafeMakeDir_confined)
  with real b show ?thesis by blast
qed

definition elems_within :: "string \<Rightarrow> string \<Rightarrow> bool" where
  "elems_within p b = prefix (path_elems b) (path_elems p)"

lemma elems_within_base: "within_base elems_within"
  by (simp add: within_base_def elems_within_def)

text \<open>A volume \<open>/v\<close> with a link that leads out of it.\<close>

definition demo_subpath_fs :: fsys where
  "demo_subpath_fs = \<lparr>entries = [([''v''], Dir 493), ([''etc''], Dir 493), ([''v'', ''out''], Symlink ''/etc'')],
     umask = 18, clock = 0, utc = \<lparr>year = 2023, month = 1, day = 1, hour = 0, minute = 0, second = 0\<rparr>,
     rand_suffixes = [], faults = \<lambda>_ _. None\<rparr>"

lemma demo_subpath_run:
  "fst (SafeMakeDir elems_within ''0/x'' ''/v'' 511 demo_subpath_fs) = None"
  "fs_lookup (snd (SafeMakeDir elems_within ''0/x'' ''/v'' 511 demo_subpath_fs)) [''v'', ''0'', ''x''] = Some (Dir 511)"
  "fs_lookup demo_subpath_fs [''v'', ''0'', ''x''] = None"
  "fst (SafeMakeDir elems_within ''out/x'' ''/v'' 511 demo_subpath_fs) \<noteq> None"
  by code_simp+

theorem SafeMakeDir_confined_witness:
  "\<exists>b. filepath_EvalSymlinks demo_subpath_fs ''/v'' = Inr (abs_path b) \<and>
     only_new_dirs b demo_subpath_fs (snd (SafeMakeDir elems_within ''0/x'' ''/v'' 511 demo_subpath_fs))"
proof (rule SafeMakeDir_confined [OF elems_within_base])
  show "SafeMakeDir elems_within ''0/x'' ''/v'' 511 demo_subpath_fs =
    (None, snd (SafeMakeDir elems_within ''0/x'' ''/v'' 511 demo_subpath_fs))"
    using demo_subpath_run(1) by (simp add: prod_eq_iff)
  show "snd (SafeMakeDir elems_within ''0/x'' ''/v'' 511 demo_subpath_fs) \<noteq> demo_subpath_fs"
    using demo_subpath_run(2,3) by auto
qed

end
