(* ===== verification/HPK_Status.thy ===== *)
theory HPK_Status
  imports HPK_Crdtools HPK_Slurm
begin

text \<open>
  The status of a pod as the control files tell it: \<open>compute/errors.go\<close>,
  \<open>compute/podhandler/container.go\<close> (\<open>SyncContainerStatuses\<close>) and
  \<open>compute/podhandler/podStatus.go\<close>. The functions read the file system \<open>w\<close> and return the new pod,
  or panic. \<open>hpk\<close> is the HPK path.

  The lemmas show that the lifecycle refines a small specification: a container is waiting, running
  or done according to its control files, and the phase of the pod is a function of that; final
  phases are never left; the classification of the containers is complete, so the last two rules of
  the transition table and the panic behind them are dead; and a pod is never left half updated.
\<close>

subsection \<open>Errors (errors.go)\<close>

definition ReasonObjectNotFound :: string where "ReasonObjectNotFound = ''ObjectNotFound''"
definition ReasonSpecError :: string where "ReasonSpecError = ''SpecError''"
definition ReasonUnsupportedFeatures :: string where "ReasonUnsupportedFeatures = ''UnsupportedFeatures''"
definition ReasonExecutionError :: string where "ReasonExecutionError = ''ExecutionError''"
definition ReasonInitializationError :: string where "ReasonInitializationError = ''InitializationError''"

definition ErrUnboundedPVC :: go_error where "ErrUnboundedPVC = Sentinel ''unbound pvc''"
definition ErrUnsupportedClaimMode :: go_error where
  "ErrUnsupportedClaimMode = Sentinel ''hpk does not support block volume provisioning''"

definition mk_condition :: "string \<Rightarrow> condition_status \<Rightarrow> gotime \<Rightarrow> string \<Rightarrow> string \<Rightarrow> pod_condition" where
  "mk_condition ty st t reason message =
     \<lparr>pc_type = ty, pc_status = st, pc_lastTransitionTime = t, pc_reason = reason, pc_message = message\<rparr>"

definition set_condition :: "fsys \<Rightarrow> pod_condition \<Rightarrow> podstatus \<Rightarrow> podstatus" where
  "set_condition w c s = s\<lparr>s_conditions := SetPodStatusCondition (now w) (s_conditions s) c\<rparr>"

text \<open>\<open>PodError\<close> with its message already formatted.\<close>

definition PodError :: "fsys \<Rightarrow> pod \<Rightarrow> string \<Rightarrow> string \<Rightarrow> pod" where
  "PodError w pod reason message =
     upd_status (\<lambda>s. set_condition w
         (mk_condition PodReady ConditionFalse (now w) ''PodUnready'' ''Pod Has Failed.'')
         (s\<lparr>s_phase := Failed, s_reason := reason, s_message := message\<rparr>)) pod"

text \<open>\<open>SystemPanic\<close> wraps the error and panics.\<close>

definition SystemPanic :: "go_error \<Rightarrow> string \<Rightarrow> 'a outcome" where
  "SystemPanic err text = Panic text"

subsection \<open>Reading control files (podStatus.go)\<close>

definition HumanReadableCode :: "int \<Rightarrow> string" where
  "HumanReadableCode code =
     (if code = 0 then ''Container exited''
      else if code = 1 then ''Application error''
      else if code = 125 then ''Container failed to run error''
      else if code = 126 then ''Command invoke error''
      else if code = 127 then ''File or directory not found''
      else if code = 128 then ''Invalid argument used on exit''
      else if code = 134 then ''Abnormal termination (SIGABRT)''
      else if code = 137 then ''Immediate termination (SIGKILL)''
      else if code = 139 then ''Segmentation fault (SIGSEGV)''
      else if code = 143 then ''Graceful termination (SIGTERM)''
      else if code = 255 then ''Exit Status Out Of Range''
      else ''Unknown Exit Code'')"

definition readStringFromFile :: "fsys \<Rightarrow> string \<Rightarrow> string \<times> bool" where
  "readStringFromFile w path =
     (case os_ReadFile w path of
        Inl err \<Rightarrow> ([], False)
      | Inr out \<Rightarrow> (strings_TrimSuffix out [CHR 0x0A], True))"

text \<open>
  The first word that a \<open>bufio.Scanner\<close> with \<open>ScanWords\<close> finds in a text of ASCII characters: a
  word that fills the scanner's buffer of 64 KiB is not returned.
\<close>

definition is_word_space :: "char \<Rightarrow> bool" where
  "is_word_space c = (is_space c \<or> c = CHR 0x0B)"

definition first_word :: "string \<Rightarrow> string option" where
  "first_word s =
     (let word = takeWhile (\<lambda>c. \<not> is_word_space c) (dropWhile is_word_space s)
      in if word = [] \<or> 65536 \<le> length word then None else Some word)"

definition readIntFromFile :: "fsys \<Rightarrow> string \<Rightarrow> (int \<times> bool) outcome" where
  "readIntFromFile w path =
     (case os_ReadFile w path of
        Inl err \<Rightarrow> Ret (-1, False)
      | Inr out \<Rightarrow>
          (case first_word out of
             None \<Rightarrow> Ret (-1, False)
           | Some word \<Rightarrow>
               (case strconv_Atoi word of
                  None \<Rightarrow> Panic ''cannot decode content to int''
                | Some code \<Rightarrow> Ret (code, True))))"

subsection \<open>Container statuses (container.go)\<close>

definition to_int32 :: "int \<Rightarrow> int" where
  "to_int32 i = (i + 2 ^ 31) mod 2 ^ 32 - 2 ^ 31"

text \<open>
  The closure for \<open>StartedAt\<close> runs after \<open>State.Running\<close> has been set to nil, as in the source.
\<close>

definition set_terminated :: "fsys \<Rightarrow> int \<Rightarrow> container_status \<Rightarrow> container_status" where
  "set_terminated w exitCode cs =
     (let reason = (if exitCode = 0 then ''Completed'' else ''Error('' @ cs_name cs @ '')'');
          message = (if exitCode = 0 then ''Container successfully terminated'' else HumanReadableCode exitCode);
          restartCount = (if exitCode = 0 then 0 else to_int32 (cs_restartCount cs + 1));
          st1 = (cs_state cs)\<lparr>st_waiting := None, st_running := None\<rparr>;
          st2 = st1\<lparr>st_terminated := Some
            \<lparr>term_exitCode = to_int32 exitCode, term_signal = 0, term_reason = reason,
             term_message = message,
             term_startedAt = (case st_running st1 of Some t \<Rightarrow> t | None \<Rightarrow> None),
             term_finishedAt = now w, term_containerID = cs_containerID cs\<rparr>\<rparr>
      in cs\<lparr>cs_state := st2, cs_lastTerminationState := st2, cs_restartCount := restartCount\<rparr>)"

definition set_running :: "fsys \<Rightarrow> container_status \<Rightarrow> container_status" where
  "set_running w cs =
     cs\<lparr>cs_state := (cs_state cs)\<lparr>st_waiting := None, st_running := Some (now w), st_terminated := None\<rparr>,
        cs_started := Some True, cs_ready := True\<rparr>"

definition set_waiting :: "container_status \<Rightarrow> container_status" where
  "set_waiting cs =
     cs\<lparr>cs_state := (cs_state cs)
       \<lparr>st_waiting := Some \<lparr>wait_reason = ''InSlurmQueue'', wait_message = ''Job waiting in the Slurm queue''\<rparr>,
        st_running := None, st_terminated := None\<rparr>\<rparr>"

definition handleStatus :: "fsys \<Rightarrow> string \<Rightarrow> container_status \<Rightarrow> container_status outcome" where
  "handleStatus w podDir cs =
     bind_outcome (readIntFromFile w (ExitCodePath podDir (cs_name cs))) (\<lambda>(exitCode, exitCodeExists).
       if exitCodeExists then Ret (set_terminated w exitCode cs)
       else
         (case readStringFromFile w (IDPath podDir (cs_name cs)) of
            (jobID, True) \<Rightarrow>
              if st_running (cs_state cs) = None
              then bind_outcome (SetContainerStatusID cs jobID) (\<lambda>cs'. Ret (set_running w cs'))
              else Ret cs
          | (_, False) \<Rightarrow> Ret (set_waiting cs)))"

fun map_outcome :: "('a \<Rightarrow> 'b outcome) \<Rightarrow> 'a list \<Rightarrow> 'b list outcome" where
  "map_outcome f [] = Ret []"
| "map_outcome f (x # xs) = bind_outcome (f x) (\<lambda>y. bind_outcome (map_outcome f xs) (\<lambda>ys. Ret (y # ys)))"

definition SyncContainerStatuses :: "fsys \<Rightarrow> string \<Rightarrow> pod \<Rightarrow> pod outcome" where
  "SyncContainerStatuses w hpk pod =
     (let podDir = pod_dir hpk (ObjectKeyFromObject pod); s = p_status pod
      in bind_outcome (map_outcome (handleStatus w podDir) (s_initContainerStatuses s)) (\<lambda>inits.
           bind_outcome (map_outcome (handleStatus w podDir) (s_containerStatuses s)) (\<lambda>mains.
             Ret (upd_status (\<lambda>s. s\<lparr>s_initContainerStatuses := inits, s_containerStatuses := mains\<rparr>) pod))))"

subsection \<open>Classification (podStatus.go)\<close>

type_synonym jobs = "(string \<times> container_status) list"

record classifier =
  pendingJobs :: jobs
  runningJobs :: jobs
  successfulJobs :: jobs
  failedJobs :: jobs

definition classifier_Reset :: classifier where
  "classifier_Reset = \<lparr>pendingJobs = [], runningJobs = [], successfulJobs = [], failedJobs = []\<rparr>"

definition Classify :: "string \<Rightarrow> container_status \<Rightarrow> classifier \<Rightarrow> classifier" where
  "Classify name status cl =
     (case st_terminated (cs_state status) of
        Some t \<Rightarrow>
          if term_exitCode t = 0 then cl\<lparr>successfulJobs := AList.update name status (successfulJobs cl)\<rparr>
          else cl\<lparr>failedJobs := AList.update name status (failedJobs cl)\<rparr>
      | None \<Rightarrow>
          if st_running (cs_state status) \<noteq> None
          then cl\<lparr>runningJobs := AList.update name status (runningJobs cl)\<rparr>
          else cl\<lparr>pendingJobs := AList.update name status (pendingJobs cl)\<rparr>)"

definition ListJobs :: "jobs \<Rightarrow> string list" where
  "ListJobs js = sort (map fst js)"

text \<open>\<open>Get...Jobs\<close>: everything (in an order Go does not define) or the named ones.\<close>

definition GetJobs :: "jobs \<Rightarrow> string list \<Rightarrow> container_status list" where
  "GetJobs js jobNames =
     (if jobNames = [] then map snd js
      else map (\<lambda>n. the (map_of js n)) (filter (\<lambda>n. map_of js n \<noteq> None) jobNames))"

text \<open>\<open>fmt.Sprintf("%s")\<close> of a slice of strings.\<close>

definition fmt_strings :: "string list \<Rightarrow> string" where
  "fmt_strings xs = ''['' @ strings_Join xs '' '' @ '']''"

definition classify_all :: "container_status list \<Rightarrow> classifier" where
  "classify_all css = fold (\<lambda>cs. Classify (cs_name cs) cs) css classifier_Reset"

subsection \<open>The lifecycle (podStatus.go)\<close>

definition setTerminationConditions :: "fsys \<Rightarrow> podstatus \<Rightarrow> podstatus" where
  "setTerminationConditions w s =
     set_condition w (mk_condition PodReady ConditionFalse (now w) ''PodUnready'' ''Pod Has been Successfully Terminated.'')
       (set_condition w (mk_condition ContainersReady ConditionFalse (now w) ''ContainersUnready''
          ''Pod Has been Successfully Terminated.'') s)"

text \<open>The log lines about ignored fields are left out; the ignored fields stay in the pod.\<close>

definition podWithExplicitlyUnsupportedFields :: "fsys \<Rightarrow> pod \<Rightarrow> bool \<times> pod" where
  "podWithExplicitlyUnsupportedFields w pod =
     (let unsupportedFields =
        (if om_namespace (p_meta pod) = ''kube-system''
         then [''.Meta.Namespace == '' @ [CHR 0x27] @ ''kube-system'' @ [CHR 0x27]] else []) @
        (if ps_dnsConfig (p_spec pod) then [''.Spec.DNSConfig''] else [])
      in if unsupportedFields \<noteq> []
         then (True, PodError w pod ReasonUnsupportedFeatures
                 (''UnsupportedFeatures: '' @ strings_Join unsupportedFields '',''))
         else (False, pod))"

text \<open>The loop over the init containers: the first that is not done decides.\<close>

datatype init_verdict = StillInitializing | InitContainerFailed string | AllInitialized

fun check_init :: "container_status list \<Rightarrow> init_verdict" where
  "check_init [] = AllInitialized"
| "check_init (ic # ics) =
     (case st_terminated (cs_state ic) of
        None \<Rightarrow> StillInitializing
      | Some t \<Rightarrow> if term_exitCode t \<noteq> 0 then InitContainerFailed (cs_name ic) else check_init ics)"

definition mark_initialized :: "fsys \<Rightarrow> podstatus \<Rightarrow> podstatus" where
  "mark_initialized w s =
     (set_condition w (mk_condition PodInitialized ConditionTrue (now w) ''Initialized''
        ''all init containers in the pod have started successfully'') s)
     \<lparr>s_message := ''Waiting'', s_reason := ''ContainerCreating''\<rparr>"

definition mark_running :: "fsys \<Rightarrow> podstatus \<Rightarrow> podstatus" where
  "mark_running w s =
     set_condition w (mk_condition PodReady ConditionTrue (now w) ''PodReady'' ''the pod is able to service requests'')
       (set_condition w (mk_condition ContainersReady ConditionTrue (now w) ''ContainersReady''
          '' all containers in the pod are ready.'')
         (s\<lparr>s_phase := Running, s_reason := ''Running'', s_message := ''at least one pod is still running''\<rparr>))"

definition phaseTransitionSequence :: "fsys \<Rightarrow> classifier \<Rightarrow> nat \<Rightarrow> (bool \<times> (podstatus \<Rightarrow> podstatus)) list" where
  "phaseTransitionSequence w st totalJobs =
    [(length (failedJobs st) > 0,
      \<lambda>s. setTerminationConditions w (s\<lparr>s_phase := Failed, s_reason := ''ContainerFailed'',
            s_message := ''Failed containers: '' @ fmt_strings (ListJobs (failedJobs st))\<rparr>)),
     (length (successfulJobs st) = totalJobs,
      \<lambda>s. setTerminationConditions w (s\<lparr>s_phase := Succeeded, s_reason := ''Completed'',
            s_message := ''Success containers: '' @ fmt_strings (ListJobs (successfulJobs st))\<rparr>)),
     (length (runningJobs st) + length (successfulJobs st) = totalJobs, mark_running w),
     (length (pendingJobs st) > 0,
      \<lambda>s. s\<lparr>s_phase := Pending, s_reason := ''InQueue'',
            s_message := ''PendingJobs: '' @ fmt_strings (ListJobs (pendingJobs st))\<rparr>),
     (True, \<lambda>s. s\<lparr>s_phase := Failed, s_reason := ''PodFailure'',
            s_message := ''Add some explanatory message here''\<rparr>)]"

definition apply_transition :: "fsys \<Rightarrow> pod \<Rightarrow> pod outcome" where
  "apply_transition w pod =
     (case find fst (phaseTransitionSequence w (classify_all (s_containerStatuses (p_status pod)))
             (length (ps_containers (p_spec pod)))) of
        Some (_, change) \<Rightarrow> Ret (upd_status change pod)
      | None \<Rightarrow> Panic ''unhandled lifecycle conditions'')"

definition read_pod_ip :: "fsys \<Rightarrow> string \<Rightarrow> pod \<Rightarrow> pod" where
  "read_pod_ip w hpk pod =
     (if s_podIP (p_status pod) = [] then
        (case readStringFromFile w (IPAddressPath (pod_dir hpk (ObjectKeyFromObject pod))) of
           (ip, True) \<Rightarrow> upd_status (\<lambda>s. s\<lparr>s_podIP := ip, s_podIPs := s_podIPs s @ [ip]\<rparr>) pod
         | (_, False) \<Rightarrow> pod)
      else pod)"

text \<open>The body after the switch on the phase.\<close>

definition investigate :: "fsys \<Rightarrow> string \<Rightarrow> pod \<Rightarrow> pod outcome" where
  "investigate w hpk pod =
     bind_outcome (SyncContainerStatuses w hpk (read_pod_ip w hpk pod)) (\<lambda>pod.
       if s_phase (p_status pod) = Pending then
         (case check_init (s_initContainerStatuses (p_status pod)) of
            StillInitializing \<Rightarrow> Ret pod
          | InitContainerFailed name \<Rightarrow>
              Ret (PodError w pod ReasonInitializationError
                (''Init container '' @ [CHR 0x27] @ name @ [CHR 0x27] @ '' has failed''))
          | AllInitialized \<Rightarrow> apply_transition w (upd_status (mark_initialized w) pod))
       else apply_transition w pod)"

definition UpdateStatusFromRuntime :: "fsys \<Rightarrow> string \<Rightarrow> pod \<Rightarrow> pod outcome" where
  "UpdateStatusFromRuntime w hpk pod =
     (case s_phase (p_status pod) of
        NoPhase \<Rightarrow>
          (case podWithExplicitlyUnsupportedFields w pod of
             (True, pod') \<Rightarrow> Ret pod'
           | (False, pod') \<Rightarrow> investigate w hpk pod')
      | Succeeded \<Rightarrow> Ret pod
      | Failed \<Rightarrow> Ret pod
      | _ \<Rightarrow> investigate w hpk pod)"

subsection \<open>The specification\<close>

text \<open>
  What the control files say about a container: its exit code, or that it has a job, or neither.
\<close>

datatype container_view = CWaiting | CRunning | CDone int

definition view_container :: "fsys \<Rightarrow> string \<Rightarrow> string \<Rightarrow> container_view outcome" where
  "view_container w podDir name =
     bind_outcome (readIntFromFile w (ExitCodePath podDir name)) (\<lambda>(code, exists).
       if exists then Ret (CDone (to_int32 code))
       else Ret (if snd (readStringFromFile w (IDPath podDir name)) then CRunning else CWaiting))"

definition failed_view :: "container_view \<Rightarrow> bool" where
  "failed_view v = (case v of CDone c \<Rightarrow> c \<noteq> 0 | _ \<Rightarrow> False)"

definition phase_of_views :: "container_view list \<Rightarrow> pod_phase" where
  "phase_of_views vs =
     (if list_ex failed_view vs then Failed
      else if list_all (\<lambda>v. v = CDone 0) vs then Succeeded
      else if list_all (\<lambda>v. v = CDone 0 \<or> v = CRunning) vs then Running
      else Pending)"

text \<open>The view that a container status records.\<close>

definition state_view :: "container_state \<Rightarrow> container_view" where
  "state_view st =
     (case st_terminated st of
        Some t \<Rightarrow> CDone (term_exitCode t)
      | None \<Rightarrow> if st_running st \<noteq> None then CRunning else CWaiting)"

text \<open>Exactly one of the three pointers of a container state is set.\<close>

definition state_ok :: "container_state \<Rightarrow> bool" where
  "state_ok st =
     (case (st_waiting st, st_running st, st_terminated st) of
        (Some _, None, None) \<Rightarrow> True | (None, Some _, None) \<Rightarrow> True | (None, None, Some _) \<Rightarrow> True
      | _ \<Rightarrow> False)"

text \<open>A status is fresh (all three are nil) or a well-formed one.\<close>

definition status_ok :: "container_status \<Rightarrow> bool" where
  "status_ok cs \<longleftrightarrow> cs_state cs = empty_state \<or> state_ok (cs_state cs)"

subsection \<open>Container statuses follow the control files\<close>

lemma set_state_simps [simp]:
  "cs_name (set_terminated w c cs) = cs_name cs" "cs_name (set_running w cs) = cs_name cs"
  "cs_name (set_waiting cs) = cs_name cs"
  "state_view (cs_state (set_terminated w c cs)) = CDone (to_int32 c)"
  "state_view (cs_state (set_running w cs)) = CRunning"
  "state_view (cs_state (set_waiting cs)) = CWaiting"
  "state_ok (cs_state (set_terminated w c cs))" "state_ok (cs_state (set_running w cs))"
  "state_ok (cs_state (set_waiting cs))"
  by (simp_all add: set_terminated_def set_running_def set_waiting_def state_view_def state_ok_def Let_def)

lemma SetContainerStatusID_Ret:
  "SetContainerStatusID cs v = Ret cs' \<Longrightarrow> cs' = cs\<lparr>cs_containerID := v\<rparr>"
  by (auto simp: SetContainerStatusID_def)

lemma status_ok_running:
  "status_ok cs \<Longrightarrow> st_running (cs_state cs) = Some t \<Longrightarrow>
   state_ok (cs_state cs) \<and> state_view (cs_state cs) = CRunning"
  by (auto simp: status_ok_def state_ok_def state_view_def empty_state_def split: option.splits)

lemma handleStatus_Ret:
  assumes "handleStatus w d cs = Ret cs'" "status_ok cs"
  shows "view_container w d (cs_name cs) = Ret (state_view (cs_state cs')) \<and>
    state_ok (cs_state cs') \<and> cs_name cs' = cs_name cs"
proof -
  obtain code ex where c: "readIntFromFile w (ExitCodePath d (cs_name cs)) = Ret (code, ex)"
    using assms(1) by (auto simp: handleStatus_def)
  obtain jid has where j: "readStringFromFile w (IDPath d (cs_name cs)) = (jid, has)"
    by (cases "readStringFromFile w (IDPath d (cs_name cs))")
  show ?thesis
  proof (cases "st_running (cs_state cs)")
    case None
    with assms c j show ?thesis
      by (auto simp: handleStatus_def view_container_def split: if_splits bool.splits
          dest!: SetContainerStatusID_Ret)
  next
    case (Some t)
    with assms c j status_ok_running [OF assms(2) Some] show ?thesis
      by (auto simp: handleStatus_def view_container_def split: if_splits bool.splits)
  qed
qed

lemma state_ok_status_ok [simp]: "state_ok (cs_state cs) \<Longrightarrow> status_ok cs"
  by (simp add: status_ok_def)

lemma map_outcome_Ret:
  "map_outcome f xs = Ret ys \<longleftrightarrow> list_all2 (\<lambda>x y. f x = Ret y) xs ys"
  by (induction xs arbitrary: ys) (auto simp: list_all2_Cons1)

text \<open>The list of views of the containers of a pod.\<close>

definition views :: "fsys \<Rightarrow> string \<Rightarrow> container_status list \<Rightarrow> container_view list outcome" where
  "views w podDir css = map_outcome (\<lambda>cs. view_container w podDir (cs_name cs)) css"

lemma sync_views:
  assumes "map_outcome (handleStatus w d) css = Ret css'" "list_all status_ok css"
  shows "views w d css = Ret (map (state_view \<circ> cs_state) css') \<and>
    list_all (state_ok \<circ> cs_state) css' \<and> map cs_name css' = map cs_name css"
proof -
  from assms have "list_all2 (\<lambda>cs cs'. handleStatus w d cs = Ret cs' \<and> status_ok cs) css css'"
    by (auto simp: map_outcome_Ret list_all2_conv_all_nth list_all_length)
  then show ?thesis
    unfolding views_def map_outcome_Ret
    by (induction rule: list_all2_induct) (auto dest: handleStatus_Ret)
qed

subsection \<open>Classification is exact\<close>

definition class_keys :: "classifier \<Rightarrow> string set" where
  "class_keys cl = fst ` (set (pendingJobs cl) \<union> set (runningJobs cl) \<union> set (successfulJobs cl) \<union> set (failedJobs cl))"

lemma map_fst_update_fresh:
  "k \<notin> fst ` set al \<Longrightarrow> map fst (AList.update k v al) = map fst al @ [k]"
  by (simp add: update_keys)

lemma classify_all_names:
  assumes "distinct (map cs_name css)" "set (map cs_name css) \<inter> class_keys cl = {}"
  defines "cl' \<equiv> fold (\<lambda>cs. Classify (cs_name cs) cs) css cl"
  shows "map fst (failedJobs cl') = map fst (failedJobs cl) @ map cs_name (filter (\<lambda>cs. failed_view (state_view (cs_state cs))) css) \<and>
    map fst (successfulJobs cl') = map fst (successfulJobs cl) @ map cs_name (filter (\<lambda>cs. state_view (cs_state cs) = CDone 0) css) \<and>
    map fst (runningJobs cl') = map fst (runningJobs cl) @ map cs_name (filter (\<lambda>cs. state_view (cs_state cs) = CRunning) css) \<and>
    map fst (pendingJobs cl') = map fst (pendingJobs cl) @ map cs_name (filter (\<lambda>cs. state_view (cs_state cs) = CWaiting) css)"
  using assms(1,2) unfolding cl'_def
proof (induction css arbitrary: cl)
  case (Cons cs css)
  have keys: "class_keys (Classify (cs_name cs) cs cl) \<subseteq> insert (cs_name cs) (class_keys cl)"
    by (simp add: Classify_def class_keys_def image_Un dom_update split: option.split) blast
  from Cons.prems have "set (map cs_name css) \<inter> class_keys cl = {}" "cs_name cs \<notin> set (map cs_name css)"
    by auto
  with keys have "set (map cs_name css) \<inter> class_keys (Classify (cs_name cs) cs cl) = {}"
    by blast
  with Cons.IH Cons.prems(1)
  have IH: "?case" if "map fst (failedJobs (Classify (cs_name cs) cs cl)) = map fst (failedJobs cl) @ (if failed_view (state_view (cs_state cs)) then [cs_name cs] else [])"
    "map fst (successfulJobs (Classify (cs_name cs) cs cl)) = map fst (successfulJobs cl) @ (if state_view (cs_state cs) = CDone 0 then [cs_name cs] else [])"
    "map fst (runningJobs (Classify (cs_name cs) cs cl)) = map fst (runningJobs cl) @ (if state_view (cs_state cs) = CRunning then [cs_name cs] else [])"
    "map fst (pendingJobs (Classify (cs_name cs) cs cl)) = map fst (pendingJobs cl) @ (if state_view (cs_state cs) = CWaiting then [cs_name cs] else [])"
    using that by simp
  from Cons.prems(2) have "cs_name cs \<notin> fst ` set (failedJobs cl)" "cs_name cs \<notin> fst ` set (successfulJobs cl)"
    "cs_name cs \<notin> fst ` set (runningJobs cl)" "cs_name cs \<notin> fst ` set (pendingJobs cl)"
    by (auto simp: class_keys_def)
  then show ?case
    by (intro IH) (auto simp: Classify_def state_view_def failed_view_def map_fst_update_fresh split: option.splits)
qed simp

lemma classify_all_lengths:
  assumes "distinct (map cs_name css)"
  shows "length (failedJobs (classify_all css)) = length (filter (\<lambda>cs. failed_view (state_view (cs_state cs))) css)"
    and "length (successfulJobs (classify_all css)) = length (filter (\<lambda>cs. state_view (cs_state cs) = CDone 0) css)"
    and "length (runningJobs (classify_all css)) = length (filter (\<lambda>cs. state_view (cs_state cs) = CRunning) css)"
    and "length (pendingJobs (classify_all css)) = length (filter (\<lambda>cs. state_view (cs_state cs) = CWaiting) css)"
proof -
  have "set (map cs_name css) \<inter> class_keys classifier_Reset = {}"
    by (simp add: class_keys_def classifier_Reset_def)
  from classify_all_names [OF assms this]
  show "length (failedJobs (classify_all css)) = length (filter (\<lambda>cs. failed_view (state_view (cs_state cs))) css)"
    "length (successfulJobs (classify_all css)) = length (filter (\<lambda>cs. state_view (cs_state cs) = CDone 0) css)"
    "length (runningJobs (classify_all css)) = length (filter (\<lambda>cs. state_view (cs_state cs) = CRunning) css)"
    "length (pendingJobs (classify_all css)) = length (filter (\<lambda>cs. state_view (cs_state cs) = CWaiting) css)"
    by (auto simp: classify_all_def classifier_Reset_def dest!: arg_cong [where f = length])
qed

lemma length_filter_all: "length (filter P xs) = length xs \<longleftrightarrow> list_all P xs"
proof (induction xs)
  case (Cons x xs)
  have "length (filter P xs) \<noteq> Suc (length xs)" using length_filter_le [of P xs] by linarith
  with Cons show ?case by (cases "P x") auto
qed simp

lemma length_filter_two:
  "(\<And>x. \<not> (P x \<and> Q x)) \<Longrightarrow> length (filter P xs) + length (filter Q xs) = length (filter (\<lambda>x. P x \<or> Q x) xs)"
  by (induction xs) auto

text \<open>The phase that the transition table chooses is the one of the specification.\<close>

lemma apply_transition_phase:
  assumes "distinct (map cs_name css)" "css = s_containerStatuses (p_status pod)"
    and "length (ps_containers (p_spec pod)) = length css"
  shows "\<exists>pod'. apply_transition w pod = Ret pod' \<and> p_meta pod' = p_meta pod \<and> p_spec pod' = p_spec pod \<and>
    s_phase (p_status pod') = phase_of_views (map (state_view \<circ> cs_state) css) \<and>
    s_reason (p_status pod') \<noteq> ''PodFailure'' \<and>
    s_containerStatuses (p_status pod') = css \<and>
    s_initContainerStatuses (p_status pod') = s_initContainerStatuses (p_status pod)"
proof -
  note len = classify_all_lengths [OF assms(1)]
  let ?v = "\<lambda>cs. state_view (cs_state cs)"
  have one: "\<not> (?v cs = CRunning \<and> ?v cs = CDone 0)" for cs by simp
  have fail: "0 < length (failedJobs (classify_all css)) \<longleftrightarrow> list_ex failed_view (map (state_view \<circ> cs_state) css)"
    by (auto simp: len list_ex_iff filter_empty_conv)
  have succ: "length (successfulJobs (classify_all css)) = length css \<longleftrightarrow>
      list_all (\<lambda>v. v = CDone 0) (map (state_view \<circ> cs_state) css)"
    by (simp add: len length_filter_all list.pred_map comp_def)
  have run: "length (runningJobs (classify_all css)) + length (successfulJobs (classify_all css)) = length css \<longleftrightarrow>
      list_all (\<lambda>v. v = CDone 0 \<or> v = CRunning) (map (state_view \<circ> cs_state) css)"
    by (simp add: len length_filter_two [OF one] length_filter_all list.pred_map comp_def disj_commute)
  have pend: "0 < length (pendingJobs (classify_all css))"
    if "\<not> list_ex failed_view (map (state_view \<circ> cs_state) css)"
      "\<not> list_all (\<lambda>v. v = CDone 0 \<or> v = CRunning) (map (state_view \<circ> cs_state) css)"
    using that
    by (auto simp: len list_ex_iff list_all_iff filter_empty_conv failed_view_def split: container_view.splits)
      (metis container_view.exhaust)
  show ?thesis
    using fail succ run pend assms
    by (simp add: apply_transition_def phaseTransitionSequence_def phase_of_views_def
        setTerminationConditions_def mark_running_def set_condition_def)
qed

subsection \<open>Refinement\<close>

text \<open>
  A pod as \<open>CreatePod\<close> leaves it and every update keeps it: one status per container, under
  the container's name, the names distinct, and every status fresh or well formed.
\<close>

definition pod_ok :: "pod \<Rightarrow> bool" where
  "pod_ok pod \<longleftrightarrow>
     map cs_name (s_containerStatuses (p_status pod)) = map c_name (ps_containers (p_spec pod)) \<and>
     distinct (map c_name (ps_containers (p_spec pod))) \<and>
     map cs_name (s_initContainerStatuses (p_status pod)) = map c_name (ps_initContainers (p_spec pod)) \<and>
     list_all status_ok (s_containerStatuses (p_status pod)) \<and>
     list_all status_ok (s_initContainerStatuses (p_status pod))"

definition dir_of :: "string \<Rightarrow> pod \<Rightarrow> string" where
  "dir_of hpk pod = pod_dir hpk (ObjectKeyFromObject pod)"

text \<open>
  What an update should do with a pod that is not in a final phase: the pod waits while an init
  container is not done, fails when one has failed, and otherwise takes the phase that the
  views of its containers determine. Init containers count only while the pod is pending.
\<close>

definition init_views_verdict :: "container_view list \<Rightarrow> pod_phase option" where
  "init_views_verdict vs =
     (case dropWhile (\<lambda>v. v = CDone 0) vs of
        [] \<Rightarrow> None
      | v # _ \<Rightarrow> Some (if failed_view v then Failed else Pending))"

definition next_phase :: "pod_phase \<Rightarrow> container_view list \<Rightarrow> container_view list \<Rightarrow> pod_phase" where
  "next_phase phase inits mains =
     (if phase = Pending
      then (case init_views_verdict inits of Some ph \<Rightarrow> ph | None \<Rightarrow> phase_of_views mains)
      else phase_of_views mains)"

lemma check_init_verdict:
  "init_views_verdict (map (state_view \<circ> cs_state) ics) =
   (case check_init ics of
      AllInitialized \<Rightarrow> None | InitContainerFailed n \<Rightarrow> Some Failed | StillInitializing \<Rightarrow> Some Pending)"
  by (induction ics)
    (auto simp: init_views_verdict_def state_view_def failed_view_def split: option.splits)

lemma read_pod_ip_simps [simp]:
  "p_meta (read_pod_ip w hpk pod) = p_meta pod" "p_spec (read_pod_ip w hpk pod) = p_spec pod"
  "s_phase (p_status (read_pod_ip w hpk pod)) = s_phase (p_status pod)"
  "s_containerStatuses (p_status (read_pod_ip w hpk pod)) = s_containerStatuses (p_status pod)"
  "s_initContainerStatuses (p_status (read_pod_ip w hpk pod)) = s_initContainerStatuses (p_status pod)"
  by (auto simp: read_pod_ip_def split: prod.splits bool.splits)

lemma pod_ok_cong:
  "p_spec pod' = p_spec pod \<Longrightarrow>
   s_containerStatuses (p_status pod') = s_containerStatuses (p_status pod) \<Longrightarrow>
   s_initContainerStatuses (p_status pod') = s_initContainerStatuses (p_status pod) \<Longrightarrow>
   pod_ok pod' = pod_ok pod"
  by (simp add: pod_ok_def)

lemma PodError_simps [simp]:
  "p_meta (PodError w pod r m) = p_meta pod" "p_spec (PodError w pod r m) = p_spec pod"
  "s_phase (p_status (PodError w pod r m)) = Failed"
  "s_reason (p_status (PodError w pod r m)) = r" "s_message (p_status (PodError w pod r m)) = m"
  "s_containerStatuses (p_status (PodError w pod r m)) = s_containerStatuses (p_status pod)"
  "s_initContainerStatuses (p_status (PodError w pod r m)) = s_initContainerStatuses (p_status pod)"
  by (simp_all add: PodError_def set_condition_def)

lemma ObjectKey_meta: "p_meta p = p_meta q \<Longrightarrow> ObjectKeyFromObject p = ObjectKeyFromObject q"
  by (simp add: ObjectKeyFromObject_def)

lemma sync_Ret:
  assumes "SyncContainerStatuses w hpk pod = Ret pod1" "pod_ok pod"
  shows "\<exists>vi vm. views w (dir_of hpk pod) (s_initContainerStatuses (p_status pod)) = Ret vi \<and>
    views w (dir_of hpk pod) (s_containerStatuses (p_status pod)) = Ret vm \<and>
    vi = map (state_view \<circ> cs_state) (s_initContainerStatuses (p_status pod1)) \<and>
    vm = map (state_view \<circ> cs_state) (s_containerStatuses (p_status pod1)) \<and>
    pod_ok pod1 \<and> p_meta pod1 = p_meta pod \<and> p_spec pod1 = p_spec pod \<and>
    s_phase (p_status pod1) = s_phase (p_status pod)"
proof -
  from assms(1) obtain inits mains where im:
    "map_outcome (handleStatus w (dir_of hpk pod)) (s_initContainerStatuses (p_status pod)) = Ret inits"
    "map_outcome (handleStatus w (dir_of hpk pod)) (s_containerStatuses (p_status pod)) = Ret mains"
    "pod1 = upd_status (\<lambda>s. s\<lparr>s_initContainerStatuses := inits, s_containerStatuses := mains\<rparr>) pod"
    by (auto simp: SyncContainerStatuses_def Let_def dir_of_def)
  have ok: "list_all status_ok (s_initContainerStatuses (p_status pod))"
    "list_all status_ok (s_containerStatuses (p_status pod))"
    using assms(2) by (auto simp: pod_ok_def)
  have weak: "list_all (state_ok \<circ> cs_state) css \<Longrightarrow> list_all status_ok css" for css
    by (auto simp: list_all_iff)
  show ?thesis
    using sync_views [OF im(1) ok(1)] sync_views [OF im(2) ok(2)] assms(2) im(3)
    by (auto simp: pod_ok_def weak)
qed

lemma apply_transition_ok:
  assumes "pod_ok pod"
  shows "\<exists>pod'. apply_transition w pod = Ret pod' \<and> pod_ok pod' \<and> p_meta pod' = p_meta pod \<and>
    p_spec pod' = p_spec pod \<and> s_reason (p_status pod') \<noteq> ''PodFailure'' \<and>
    s_containerStatuses (p_status pod') = s_containerStatuses (p_status pod) \<and>
    s_phase (p_status pod') = phase_of_views (map (state_view \<circ> cs_state) (s_containerStatuses (p_status pod)))"
proof -
  have "length (ps_containers (p_spec pod)) = length (s_containerStatuses (p_status pod))"
    using assms by (metis length_map pod_ok_def)
  moreover have "distinct (map cs_name (s_containerStatuses (p_status pod)))"
    using assms by (simp add: pod_ok_def)
  ultimately show ?thesis
    using apply_transition_phase [OF _ refl, of pod w] assms by (metis pod_ok_cong)
qed

text \<open>The control files of a container decode: the exit code is a number, the job id has a known form.\<close>

definition control_files_ok :: "fsys \<Rightarrow> string \<Rightarrow> string \<Rightarrow> bool" where
  "control_files_ok w d name \<longleftrightarrow>
     (case readIntFromFile w (ExitCodePath d name) of Ret _ \<Rightarrow> True | Panic _ \<Rightarrow> False) \<and>
     (case readStringFromFile w (IDPath d name) of
        (jid, True) \<Rightarrow> strings_HasPrefix jid JobIDTypeSlurm \<or> strings_HasPrefix jid JobIDTypeProcess
      | (_, False) \<Rightarrow> True)"

lemma handleStatus_total:
  assumes "control_files_ok w d (cs_name cs)"
  shows "\<exists>cs'. handleStatus w d cs = Ret cs'"
proof -
  obtain code ex where c: "readIntFromFile w (ExitCodePath d (cs_name cs)) = Ret (code, ex)"
    using assms by (auto simp: control_files_ok_def split: outcome.splits)
  obtain jid has where j: "readStringFromFile w (IDPath d (cs_name cs)) = (jid, has)"
    by (cases "readStringFromFile w (IDPath d (cs_name cs))")
  show ?thesis
    using assms c j
    by (cases ex; cases has)
      (auto simp: control_files_ok_def handleStatus_def SetContainerStatusID_def parseIDType_def)
qed

lemma map_outcome_total: "(\<And>x. x \<in> set xs \<Longrightarrow> \<exists>y. f x = Ret y) \<Longrightarrow> \<exists>ys. map_outcome f xs = Ret ys"
  by (induction xs) fastforce+

lemma sync_total:
  assumes "\<And>cs. cs \<in> set (s_initContainerStatuses (p_status pod) @ s_containerStatuses (p_status pod)) \<Longrightarrow>
      control_files_ok w (dir_of hpk pod) (cs_name cs)"
  shows "\<exists>pod1. SyncContainerStatuses w hpk pod = Ret pod1"
proof -
  have "\<exists>ys. map_outcome (handleStatus w (dir_of hpk pod)) (s_initContainerStatuses (p_status pod)) = Ret ys"
    "\<exists>ys. map_outcome (handleStatus w (dir_of hpk pod)) (s_containerStatuses (p_status pod)) = Ret ys"
    using assms by (auto intro!: map_outcome_total handleStatus_total)
  then show ?thesis by (auto simp: SyncContainerStatuses_def Let_def dir_of_def)
qed

lemma sync_ip_total:
  assumes "\<forall>cs\<in>set (s_initContainerStatuses (p_status pod) @ s_containerStatuses (p_status pod)).
      control_files_ok w (dir_of hpk pod) (cs_name cs)"
  shows "\<exists>pod1. SyncContainerStatuses w hpk (read_pod_ip w hpk pod) = Ret pod1"
proof (rule sync_total)
  fix cs
  assume "cs \<in> set (s_initContainerStatuses (p_status (read_pod_ip w hpk pod)) @
      s_containerStatuses (p_status (read_pod_ip w hpk pod)))"
  moreover have "dir_of hpk (read_pod_ip w hpk pod) = dir_of hpk pod"
    by (simp add: dir_of_def ObjectKey_meta [of "read_pod_ip w hpk pod" pod])
  ultimately show "control_files_ok w (dir_of hpk (read_pod_ip w hpk pod)) (cs_name cs)"
    using assms by simp
qed

lemma investigate_sync:
  assumes sync: "SyncContainerStatuses w hpk (read_pod_ip w hpk pod) = Ret pod1" and ok: "pod_ok pod"
  shows "\<exists>pod' vi vm. investigate w hpk pod = Ret pod' \<and>
    views w (dir_of hpk pod) (s_initContainerStatuses (p_status pod)) = Ret vi \<and>
    views w (dir_of hpk pod) (s_containerStatuses (p_status pod)) = Ret vm \<and>
    s_phase (p_status pod') = next_phase (s_phase (p_status pod)) vi vm \<and>
    map (state_view \<circ> cs_state) (s_containerStatuses (p_status pod')) = vm \<and>
    pod_ok pod' \<and> p_meta pod' = p_meta pod \<and> p_spec pod' = p_spec pod"
proof -
  have "pod_ok (read_pod_ip w hpk pod)" using ok by (simp add: pod_ok_def)
  from sync_Ret [OF sync this] obtain vi vm where v:
      "views w (dir_of hpk pod) (s_initContainerStatuses (p_status pod)) = Ret vi"
      "views w (dir_of hpk pod) (s_containerStatuses (p_status pod)) = Ret vm"
      "vi = map (state_view \<circ> cs_state) (s_initContainerStatuses (p_status pod1))"
      "vm = map (state_view \<circ> cs_state) (s_containerStatuses (p_status pod1))"
    and p1: "pod_ok pod1" "p_meta pod1 = p_meta pod" "p_spec pod1 = p_spec pod"
      "s_phase (p_status pod1) = s_phase (p_status pod)"
    by (auto simp: dir_of_def ObjectKey_meta [of "read_pod_ip w hpk pod" pod])
  note verdict = check_init_verdict [of "s_initContainerStatuses (p_status pod1)", folded v(3)]
  have init: "pod_ok (upd_status (mark_initialized w) pod1)"
    using p1(1) by (simp add: pod_ok_def mark_initialized_def set_condition_def)
  have init_eq: "s_containerStatuses (mark_initialized w s) = s_containerStatuses s" for s
    by (simp add: mark_initialized_def set_condition_def)
  have err: "pod_ok (PodError w pod1 r m)" for r m using p1(1) by (simp add: pod_ok_def)
  show ?thesis
    using v p1 verdict sync apply_transition_ok [OF p1(1), of w] apply_transition_ok [OF init, of w] err
    by (auto simp: investigate_def next_phase_def init_eq split: init_verdict.splits)
qed

lemma UpdateStatus_next_phase:
  assumes "pod_ok pod" "s_phase (p_status pod) \<in> {Pending, Running, UnknownPhase}"
    and "\<forall>cs\<in>set (s_initContainerStatuses (p_status pod) @ s_containerStatuses (p_status pod)).
      control_files_ok w (dir_of hpk pod) (cs_name cs)"
  shows "\<exists>pod' vi vm. UpdateStatusFromRuntime w hpk pod = Ret pod' \<and>
    views w (dir_of hpk pod) (s_initContainerStatuses (p_status pod)) = Ret vi \<and>
    views w (dir_of hpk pod) (s_containerStatuses (p_status pod)) = Ret vm \<and>
    s_phase (p_status pod') = next_phase (s_phase (p_status pod)) vi vm \<and>
    map (state_view \<circ> cs_state) (s_containerStatuses (p_status pod')) = vm \<and>
    pod_ok pod' \<and> p_meta pod' = p_meta pod \<and> p_spec pod' = p_spec pod"
proof -
  from sync_ip_total [OF assms(3)] obtain pod1
    where "SyncContainerStatuses w hpk (read_pod_ip w hpk pod) = Ret pod1" ..
  from investigate_sync [OF this assms(1)] assms(2) show ?thesis
    by (auto simp: UpdateStatusFromRuntime_def)
qed

text \<open>
  C2. The lifecycle refines the specification. For a well-formed pod in a phase that is not final,
  whose control files decode, the update returns (it does not panic), the phase is the one that the
  control files determine, every container status records its control files, and the pod stays well
  formed with its key and specification unchanged.
\<close>

theorem UpdateStatusFromRuntime_refines:
  assumes "pod_ok pod" "s_phase (p_status pod) \<in> {Pending, Running, UnknownPhase}"
    and "\<forall>cs\<in>set (s_initContainerStatuses (p_status pod) @ s_containerStatuses (p_status pod)).
      control_files_ok w (dir_of hpk pod) (cs_name cs)"
  shows "\<exists>pod' vi vm. UpdateStatusFromRuntime w hpk pod = Ret pod' \<and>
    views w (dir_of hpk pod) (s_initContainerStatuses (p_status pod)) = Ret vi \<and>
    views w (dir_of hpk pod) (s_containerStatuses (p_status pod)) = Ret vm \<and>
    s_phase (p_status pod') = next_phase (s_phase (p_status pod)) vi vm \<and>
    map (state_view \<circ> cs_state) (s_containerStatuses (p_status pod')) = vm \<and>
    pod_ok pod' \<and> p_meta pod' = p_meta pod \<and> p_spec pod' = p_spec pod"
  by (rule UpdateStatus_next_phase [OF assms])

text \<open>A pod with two containers, one done and one running, and its control files.\<close>

definition demo_container :: "string \<Rightarrow> container" where
  "demo_container n = \<lparr>c_name = n, c_image = ''alpine'', c_command = None, c_args = None, c_env = [],
     c_requests = [], c_volumeMounts = [], c_securityContext = None, c_startupProbe = False,
     c_livenessProbe = False, c_readinessProbe = False\<rparr>"

definition demo_pod :: pod where
  "demo_pod = \<lparr>p_meta = \<lparr>om_namespace = ''default'', om_name = ''web'', om_uid = ''u1'', om_labels = [],
       om_annotations = [], om_resourceVersion = ''1''\<rparr>,
     p_spec = \<lparr>ps_volumes = [], ps_initContainers = [], ps_containers = [demo_container ''main'', demo_container ''side''],
       ps_ephemeralContainers = [], ps_affinity = False, ps_dnsConfig = False, ps_securityContext = None,
       ps_serviceAccountName = ''default'', ps_nodeName = []\<rparr>,
     p_status = \<lparr>s_phase = Pending, s_conditions = [], s_message = [], s_reason = [], s_hostIP = [],
       s_podIP = [], s_podIPs = [], s_initContainerStatuses = [],
       s_containerStatuses = [zero_status\<lparr>cs_name := ''main''\<rparr>, zero_status\<lparr>cs_name := ''side''\<rparr>]\<rparr>\<rparr>"

definition demo_run_fs :: fsys where
  "demo_run_fs = demo_fs\<lparr>entries := entries demo_fs @
     [([''h'', ''default'', ''web'', ''controlfiles''], Dir 493),
      ([''h'', ''default'', ''web'', ''controlfiles'', ''main.exitCode''], File (''0'' @ [CHR 0x0A]) 420 0),
      ([''h'', ''default'', ''web'', ''controlfiles'', ''side.jobid''], File (''pid://12'' @ [CHR 0x0A]) 420 0),
      ([''h'', ''default'', ''web'', ''job''], Dir 493),
      ([''h'', ''default'', ''web'', ''job'', ''pod.crd''], File ''{pod}'' 384 0)]\<rparr>"

lemma demo_run_read:
  assumes "name_ok f"
  shows "os_ReadFile demo_run_fs (abs_path [''h'', ''default'', ''web'', ''controlfiles'', f]) =
   (if f = ''main.exitCode'' then Inr (''0'' @ [CHR 0x0A])
    else if f = ''side.jobid'' then Inr (''pid://12'' @ [CHR 0x0A])
    else Inl (OsError ENOENT (abs_path [''h'', ''default'', ''web'', ''controlfiles'', f])))"
proof -
  let ?d = "[''h'', ''default'', ''web'', ''controlfiles'']"
  have look: "fs_lookup demo_run_fs (?d @ [f]) =
     (if f = ''main.exitCode'' then Some (File (''0'' @ [CHR 0x0A]) 420 0)
      else if f = ''side.jobid'' then Some (File (''pid://12'' @ [CHR 0x0A]) 420 0) else None)"
    and real: "real_dir demo_run_fs ?d" and fault: "faults demo_run_fs op p = None"
    and names: "list_all name_ok ?d" for op p
    by (simp_all add: demo_run_fs_def demo_fs_def fs_lookup_def name_ok_def)
  note rd = os_ReadFile_in_dir [OF names assms real fault]
  show ?thesis using look rd by (auto split: if_splits)
qed

lemma demo_dir: "dir_of (abs_path [''h'']) demo_pod = abs_path [''h'', ''default'', ''web'']"
  using pod_dir_abs [of "[''h'']" "ObjectKeyFromObject demo_pod"]
  by (simp add: dir_of_def demo_pod_def ObjectKeyFromObject_def key_ok_def name_ok_def)

lemma demo_files_ok:
  assumes "name_ok c" "c \<in> {''main'', ''side''}"
  shows "control_files_ok demo_run_fs (abs_path [''h'', ''default'', ''web'']) c"
  using assms container_layout_abs [of "[''h'', ''default'', ''web'']" c] 
  by (auto simp: control_files_ok_def readIntFromFile_def readStringFromFile_def demo_run_read name_ok_def
      first_word_def is_word_space_def is_space_def strconv_Atoi_def is_digit_def digits_val_def digit_val_def
      in_int64_def strings_HasPrefix_def strings_TrimSuffix_def JobIDTypeSlurm_def JobIDTypeProcess_def)

theorem UpdateStatusFromRuntime_refines_witness:
  "\<exists>pod' vi vm. UpdateStatusFromRuntime demo_run_fs (abs_path [''h'']) demo_pod = Ret pod' \<and>
    views demo_run_fs (dir_of (abs_path [''h'']) demo_pod) (s_initContainerStatuses (p_status demo_pod)) = Ret vi \<and>
    views demo_run_fs (dir_of (abs_path [''h'']) demo_pod) (s_containerStatuses (p_status demo_pod)) = Ret vm \<and>
    s_phase (p_status pod') = next_phase (s_phase (p_status demo_pod)) vi vm \<and>
    map (state_view \<circ> cs_state) (s_containerStatuses (p_status pod')) = vm \<and>
    pod_ok pod' \<and> p_meta pod' = p_meta demo_pod \<and> p_spec pod' = p_spec demo_pod"
proof (rule UpdateStatusFromRuntime_refines)
  show "pod_ok demo_pod" by code_simp
  show "s_phase (p_status demo_pod) \<in> {Pending, Running, UnknownPhase}" by code_simp
  show "\<forall>cs\<in>set (s_initContainerStatuses (p_status demo_pod) @ s_containerStatuses (p_status demo_pod)).
      control_files_ok demo_run_fs (dir_of (abs_path [''h'']) demo_pod) (cs_name cs)"
    unfolding demo_dir by (auto simp: demo_pod_def name_ok_def intro!: demo_files_ok)
qed

subsection \<open>Sequences of updates\<close>

text \<open>
  The control files change between updates in any way; each update sees some file system.
\<close>

inductive pod_step :: "string \<Rightarrow> pod \<Rightarrow> pod \<Rightarrow> bool" for hpk where
  update: "UpdateStatusFromRuntime w hpk pod = Ret pod' \<Longrightarrow> pod_step hpk pod pod'"

inductive_cases pod_stepE: "pod_step hpk pod pod'"

definition final_phase :: "pod_phase \<Rightarrow> bool" where
  "final_phase ph = (ph = Succeeded \<or> ph = Failed)"

lemma UpdateStatus_final [simp]:
  "final_phase (s_phase (p_status pod)) \<Longrightarrow> UpdateStatusFromRuntime w hpk pod = Ret pod"
  by (auto simp: final_phase_def UpdateStatusFromRuntime_def)

lemma unsupported_simps:
  "podWithExplicitlyUnsupportedFields w pod = (b, pod') \<Longrightarrow>
   p_meta pod' = p_meta pod \<and> p_spec pod' = p_spec pod \<and> (pod_ok pod \<longrightarrow> pod_ok pod') \<and>
   (\<not> b \<longrightarrow> pod' = pod) \<and> (b \<longrightarrow> s_phase (p_status pod') = Failed)"
  by (auto simp: podWithExplicitlyUnsupportedFields_def Let_def pod_ok_def split: if_splits)

lemma investigate_Ret:
  assumes "investigate w hpk pod = Ret pod'" "pod_ok pod"
  shows "pod_ok pod' \<and> p_meta pod' = p_meta pod \<and> p_spec pod' = p_spec pod \<and>
    (\<exists>vi vm. views w (dir_of hpk pod) (s_initContainerStatuses (p_status pod)) = Ret vi \<and>
      views w (dir_of hpk pod) (s_containerStatuses (p_status pod)) = Ret vm \<and>
      s_phase (p_status pod') = next_phase (s_phase (p_status pod)) vi vm)"
proof -
  from assms(1) obtain pod1 where "SyncContainerStatuses w hpk (read_pod_ip w hpk pod) = Ret pod1"
    by (auto simp: investigate_def)
  from investigate_sync [OF this assms(2)] assms(1) show ?thesis by auto
qed

lemma UpdateStatus_keeps:
  assumes "UpdateStatusFromRuntime w hpk pod = Ret pod'" "pod_ok pod"
  shows "pod_ok pod' \<and> p_meta pod' = p_meta pod \<and> p_spec pod' = p_spec pod"
  using assms investigate_Ret
  by (auto simp: UpdateStatusFromRuntime_def split: pod_phase.splits prod.splits bool.splits
      dest!: unsupported_simps)

text \<open>The update changes nothing but the status, of any pod.\<close>

lemma SyncContainerStatuses_identity:
  "SyncContainerStatuses w hpk pod = Ret pod' \<Longrightarrow> p_meta pod' = p_meta pod \<and> p_spec pod' = p_spec pod"
  by (auto simp: SyncContainerStatuses_def Let_def split: if_splits)

lemma apply_transition_identity:
  "apply_transition w pod = Ret pod' \<Longrightarrow> p_meta pod' = p_meta pod \<and> p_spec pod' = p_spec pod"
  by (auto simp: apply_transition_def split: if_splits option.splits prod.splits)

lemma UpdateStatus_identity:
  assumes "UpdateStatusFromRuntime w hpk pod = Ret pod'"
  shows "p_meta pod' = p_meta pod \<and> p_spec pod' = p_spec pod"
proof -
  have "p_meta q' = p_meta q \<and> p_spec q' = p_spec q" if "investigate w hpk q = Ret q'" for q q'
    using that by (fastforce simp: investigate_def split: if_splits init_verdict.splits
        dest!: SyncContainerStatuses_identity apply_transition_identity)
  then show ?thesis
    using assms by (fastforce simp: UpdateStatusFromRuntime_def split: pod_phase.splits prod.splits bool.splits
        dest!: unsupported_simps)
qed

interpretation pod_sys: step_invariant "\<lambda>q. q = pod" "pod_step hpk"
  "\<lambda>q. pod_ok pod \<longrightarrow> pod_ok q \<and> p_meta q = p_meta pod \<and> p_spec q = p_spec pod \<and> (final_phase (s_phase (p_status pod)) \<longrightarrow> q = pod)"
  for pod hpk
  by unfold_locales (auto elim!: pod_stepE dest: UpdateStatus_keeps)

text \<open>
  C34. Along any sequence of updates, whatever happens to the files in between: the pod stays well
  formed, its metadata and specification never change, and once a final phase is reached the pod
  does not change any more.
\<close>

theorem pod_steps_invariant:
  assumes "(pod_step hpk)\<^sup>*\<^sup>* pod pod'" "pod_ok pod"
  shows "pod_ok pod' \<and> p_meta pod' = p_meta pod \<and> p_spec pod' = p_spec pod \<and>
    (final_phase (s_phase (p_status pod)) \<longrightarrow> pod' = pod)"
  using pod_sys.inv_run [OF refl assms(1)] assms(2) by blast

lemma demo_views:
  "views demo_run_fs (abs_path [''h'', ''default'', ''web'']) (s_containerStatuses (p_status demo_pod)) = Ret [CDone 0, CRunning]"
  using container_layout_abs [of "[''h'', ''default'', ''web'']" "''main''"]
    container_layout_abs [of "[''h'', ''default'', ''web'']" "''side''"]
  by (simp add: views_def demo_pod_def view_container_def readIntFromFile_def readStringFromFile_def
      demo_run_read name_ok_def first_word_def is_word_space_def is_space_def strconv_Atoi_def is_digit_def
      digits_val_def digit_val_def in_int64_def to_int32_def)

lemma views_names: "views w d css = map_outcome (view_container w d) (map cs_name css)"
  by (induction css) (auto simp: views_def)

lemma demo_step:
  assumes "pod_ok pod" "p_meta pod = p_meta demo_pod" "p_spec pod = p_spec demo_pod"
    "s_phase (p_status pod) \<in> {Pending, Running}"
  shows "views demo_run_fs (dir_of (abs_path [''h'']) pod) (s_containerStatuses (p_status pod)) = Ret [CDone 0, CRunning] \<and>
    (\<exists>pod'. UpdateStatusFromRuntime demo_run_fs (abs_path [''h'']) pod = Ret pod' \<and> s_phase (p_status pod') = Running)"
proof -
  have dir: "dir_of (abs_path [''h'']) pod = abs_path [''h'', ''default'', ''web'']"
    using demo_dir ObjectKey_meta [OF assms(2)] by (simp add: dir_of_def)
  have names: "map cs_name (s_containerStatuses (p_status pod)) = [''main'', ''side'']"
    "s_initContainerStatuses (p_status pod) = []"
    using assms(1,3) by (simp_all add: pod_ok_def demo_pod_def demo_container_def)
  have vm: "views demo_run_fs (dir_of (abs_path [''h'']) pod) (s_containerStatuses (p_status pod)) = Ret [CDone 0, CRunning]"
    using demo_views names(1) by (simp add: views_names dir demo_pod_def)
  have "\<forall>cs\<in>set (s_initContainerStatuses (p_status pod) @ s_containerStatuses (p_status pod)).
      control_files_ok demo_run_fs (dir_of (abs_path [''h'']) pod) (cs_name cs)"
    using names dir by (auto simp: demo_files_ok name_ok_def map_eq_Cons_conv)
  from sync_ip_total [OF this] obtain pod1
    where "SyncContainerStatuses demo_run_fs (abs_path [''h'']) (read_pod_ip demo_run_fs (abs_path [''h'']) pod) = Ret pod1" ..
  from investigate_sync [OF this assms(1)] obtain pod' where
    p: "investigate demo_run_fs (abs_path [''h'']) pod = Ret pod'"
      "s_phase (p_status pod') = next_phase (s_phase (p_status pod)) [] [CDone 0, CRunning]"
    using vm names(2) by (auto simp: views_names)
  with assms(4) vm show ?thesis
    by (auto simp: UpdateStatusFromRuntime_def next_phase_def init_views_verdict_def phase_of_views_def failed_view_def)
qed

lemma demo_pod_ok: "pod_ok demo_pod" "s_phase (p_status demo_pod) = Pending"
  by code_simp+

theorem pod_steps_invariant_witness:
  "\<exists>pod'. pod' \<noteq> demo_pod \<and> pod_ok pod' \<and> p_meta pod' = p_meta demo_pod \<and> p_spec pod' = p_spec demo_pod \<and>
    (final_phase (s_phase (p_status demo_pod)) \<longrightarrow> pod' = demo_pod)"
proof -
  obtain pod' where p: "UpdateStatusFromRuntime demo_run_fs (abs_path [''h'']) demo_pod = Ret pod'"
    "s_phase (p_status pod') = Running" using demo_step [of demo_pod] demo_pod_ok by auto
  from p(1) have "(pod_step (abs_path [''h'']))\<^sup>*\<^sup>* demo_pod pod'" by (auto intro: pod_step.update)
  moreover note demo_pod_ok(1)
  moreover have "pod' \<noteq> demo_pod" using p(2) by (auto simp: demo_pod_def)
  ultimately show ?thesis using pod_steps_invariant by blast
qed

subsection \<open>No regression\<close>

text \<open>Control files only appear, and an exit code does not change.\<close>

definition view_le :: "container_view \<Rightarrow> container_view \<Rightarrow> bool" where
  "view_le a b =
     (case (a, b) of
        (CWaiting, _) \<Rightarrow> True
      | (CRunning, CRunning) \<Rightarrow> True
      | (CRunning, CDone _) \<Rightarrow> True
      | (CDone c, CDone d) \<Rightarrow> c = d
      | _ \<Rightarrow> False)"

definition phase_rank :: "pod_phase \<Rightarrow> nat" where
  "phase_rank ph =
     (case ph of NoPhase \<Rightarrow> 0 | UnknownPhase \<Rightarrow> 0 | Pending \<Rightarrow> 1 | Running \<Rightarrow> 2 | Succeeded \<Rightarrow> 3 | Failed \<Rightarrow> 3)"

lemma next_phase_rank: "1 \<le> phase_rank (next_phase ph vi vm)"
  by (auto simp: next_phase_def phase_of_views_def init_views_verdict_def phase_rank_def
      split: option.splits list.splits)

lemma next_phase_Running:
  "next_phase ph vi vm = Running \<Longrightarrow> list_all (\<lambda>v. v = CDone 0 \<or> v = CRunning) vm"
  by (auto simp: next_phase_def phase_of_views_def init_views_verdict_def
      split: option.splits list.splits if_splits)

lemma views_advance:
  assumes "list_all2 view_le vm vm'" "list_all (\<lambda>v. v = CDone 0 \<or> v = CRunning) vm"
  shows "2 \<le> phase_rank (phase_of_views vm')"
proof -
  from assms have "list_all (\<lambda>v. v \<noteq> CWaiting) vm'"
    by (induction rule: list_all2_induct) (auto simp: view_le_def split: container_view.splits)
  moreover have "list_all (\<lambda>v. v \<noteq> CWaiting) vs \<Longrightarrow> \<not> list_ex failed_view vs \<Longrightarrow>
      list_all (\<lambda>v. v = CDone 0 \<or> v = CRunning) vs" for vs
    by (induction vs) (auto simp: failed_view_def split: container_view.splits)
  ultimately show ?thesis by (auto simp: phase_of_views_def phase_rank_def)
qed

text \<open>
  C33. The phase never moves back: if an update was followed by another one, and in between control
  files were only added, the phase of the pod is at least as far in the order pending, running,
  final.
\<close>

theorem UpdateStatusFromRuntime_monotone:
  assumes "pod_ok pod" "s_phase (p_status pod) \<in> {Pending, Running}"
    and "UpdateStatusFromRuntime w hpk pod = Ret pod1" "UpdateStatusFromRuntime w' hpk pod1 = Ret pod2"
    and "views w (dir_of hpk pod) (s_containerStatuses (p_status pod)) = Ret vm"
      "views w' (dir_of hpk pod1) (s_containerStatuses (p_status pod1)) = Ret vm'" "list_all2 view_le vm vm'"
  shows "phase_rank (s_phase (p_status pod1)) \<le> phase_rank (s_phase (p_status pod2))"
proof -
  from assms(2,3) have "investigate w hpk pod = Ret pod1" by (auto simp: UpdateStatusFromRuntime_def)
  from investigate_Ret [OF this assms(1)] assms(5) obtain vi where
    one: "pod_ok pod1" "s_phase (p_status pod1) = next_phase (s_phase (p_status pod)) vi vm" by auto
  consider (final) "final_phase (s_phase (p_status pod1))"
    | (step) "s_phase (p_status pod1) = Pending \<or> s_phase (p_status pod1) = Running"
    using next_phase_rank [of "s_phase (p_status pod)" vi vm] one(2)
    by (cases "s_phase (p_status pod1)") (auto simp: phase_rank_def final_phase_def)
  then show ?thesis
  proof cases
    case final
    with assms(4) show ?thesis by simp
  next
    case step
    with assms(4) have "investigate w' hpk pod1 = Ret pod2" by (auto simp: UpdateStatusFromRuntime_def)
    from investigate_Ret [OF this one(1)] assms(6) obtain vi' where
      two: "s_phase (p_status pod2) = next_phase (s_phase (p_status pod1)) vi' vm'" by auto
    show ?thesis
    proof (cases "s_phase (p_status pod1) = Running")
      case True
      with one(2) have "2 \<le> phase_rank (phase_of_views vm')"
        by (intro views_advance [OF assms(7)] next_phase_Running [of "s_phase (p_status pod)" vi]) simp
      with True two show ?thesis by (simp add: next_phase_def phase_rank_def)
    next
      case False
      with step two next_phase_rank show ?thesis by (simp add: phase_rank_def)
    qed
  qed
qed

theorem UpdateStatusFromRuntime_monotone_witness:
  "\<exists>pod1 pod2. UpdateStatusFromRuntime demo_run_fs (abs_path [''h'']) demo_pod = Ret pod1 \<and>
    UpdateStatusFromRuntime demo_run_fs (abs_path [''h'']) pod1 = Ret pod2 \<and>
    phase_rank (s_phase (p_status pod1)) \<le> phase_rank (s_phase (p_status pod2))"
proof -
  obtain pod1 where one: "UpdateStatusFromRuntime demo_run_fs (abs_path [''h'']) demo_pod = Ret pod1"
    "s_phase (p_status pod1) = Running"
    "views demo_run_fs (dir_of (abs_path [''h'']) demo_pod) (s_containerStatuses (p_status demo_pod)) = Ret [CDone 0, CRunning]"
    using demo_step [of demo_pod] demo_pod_ok by auto
  from UpdateStatus_keeps [OF one(1) demo_pod_ok(1)] one(2) obtain pod2 where
    two: "UpdateStatusFromRuntime demo_run_fs (abs_path [''h'']) pod1 = Ret pod2"
    "views demo_run_fs (dir_of (abs_path [''h'']) pod1) (s_containerStatuses (p_status pod1)) = Ret [CDone 0, CRunning]"
    using demo_step [of pod1] by auto
  have "phase_rank (s_phase (p_status pod1)) \<le> phase_rank (s_phase (p_status pod2))"
    by (rule UpdateStatusFromRuntime_monotone [OF demo_pod_ok(1) _ one(1) two(1) one(3) two(2)])
      (simp_all add: demo_pod_ok(2) view_le_def)
  with one two show ?thesis by blast
qed

text \<open>
  The transition table is complete: on a well-formed pod some rule before the last one applies,
  so the reason \<open>PodFailure\<close> and the panic behind the table are never reached.
\<close>

theorem apply_transition_complete:
  assumes "pod_ok pod"
  shows "\<exists>pod'. apply_transition w pod = Ret pod' \<and> s_reason (p_status pod') \<noteq> ''PodFailure'' \<and>
    s_phase (p_status pod') \<in> {Pending, Running, Succeeded, Failed}"
  using apply_transition_ok [OF assms, of w] by (auto simp: phase_of_views_def)

theorem apply_transition_complete_witness:
  "\<exists>pod'. apply_transition demo_fs demo_pod = Ret pod' \<and> s_reason (p_status pod') \<noteq> ''PodFailure'' \<and>
    s_phase (p_status pod') \<in> {Pending, Running, Succeeded, Failed}"
  by (rule apply_transition_complete) (rule demo_pod_ok)

text \<open>
  A pod that is met for the first time and asks for an unsupported feature (the namespace
  \<open>kube-system\<close> or a DNS configuration) fails at once, with reason \<open>UnsupportedFeatures\<close>, a false
  ready condition, and no container status touched; no other new pod is rejected.
\<close>

theorem first_met_unsupported:
  assumes "s_phase (p_status pod) = NoPhase"
  shows "if om_namespace (p_meta pod) = ''kube-system'' \<or> ps_dnsConfig (p_spec pod)
    then \<exists>pod'. UpdateStatusFromRuntime w hpk pod = Ret pod' \<and> s_phase (p_status pod') = Failed \<and>
      s_reason (p_status pod') = ReasonUnsupportedFeatures \<and>
      IsStatusConditionFalse (s_conditions (p_status pod')) PodReady \<and>
      s_containerStatuses (p_status pod') = s_containerStatuses (p_status pod)
    else UpdateStatusFromRuntime w hpk pod = investigate w hpk pod"
proof -
  let ?c = "mk_condition PodReady ConditionFalse (now w) ''PodUnready'' ''Pod Has Failed.''"
  have "IsStatusConditionFalse (SetPodStatusCondition t cs ?c) PodReady" for t cs
    using Find_Set_same [of t cs ?c]
    by (auto simp: IsStatusConditionFalse_def PresentAndEqual_iff mk_condition_def)
  then show ?thesis using assms
    by (auto simp: UpdateStatusFromRuntime_def podWithExplicitlyUnsupportedFields_def Let_def
        PodError_def set_condition_def)
qed

theorem first_met_unsupported_witness:
  "let pod = demo_pod\<lparr>p_status := (p_status demo_pod)\<lparr>s_phase := NoPhase\<rparr>\<rparr> in
   if om_namespace (p_meta pod) = ''kube-system'' \<or> ps_dnsConfig (p_spec pod)
    then \<exists>pod'. UpdateStatusFromRuntime demo_fs ''/h'' pod = Ret pod' \<and> s_phase (p_status pod') = Failed \<and>
      s_reason (p_status pod') = ReasonUnsupportedFeatures \<and>
      IsStatusConditionFalse (s_conditions (p_status pod')) PodReady \<and>
      s_containerStatuses (p_status pod') = s_containerStatuses (p_status pod)
    else UpdateStatusFromRuntime demo_fs ''/h'' pod = investigate demo_fs ''/h'' pod"
  unfolding Let_def by (rule first_met_unsupported) simp

text \<open>
  A container that has ended is recorded with the exit code of its file, but with a zero start
  time even when the running state held one: the state is cleared before its start time is read.
\<close>

theorem terminated_start_time_lost:
  assumes "readIntFromFile w (ExitCodePath d (cs_name cs)) = Ret (code, True)"
    and "st_running (cs_state cs) = Some (Some t)"
  shows "\<exists>cs' tm. handleStatus w d cs = Ret cs' \<and> st_terminated (cs_state cs') = Some tm \<and>
    term_exitCode tm = to_int32 code \<and> term_startedAt tm = None"
  using assms by (simp add: handleStatus_def set_terminated_def Let_def)

theorem terminated_start_time_lost_witness:
  "\<exists>cs' tm. handleStatus demo_run_fs (abs_path [''h'', ''default'', ''web''])
      (zero_status\<lparr>cs_name := ''main'', cs_state := empty_state\<lparr>st_running := Some (Some 42)\<rparr>\<rparr>) = Ret cs' \<and>
    st_terminated (cs_state cs') = Some tm \<and> term_exitCode tm = to_int32 0 \<and> term_startedAt tm = None"
  using container_layout_abs [of "[''h'', ''default'', ''web'']" "''main''"]
  by (intro terminated_start_time_lost [where t = 42])
    (simp_all add: zero_status_def readIntFromFile_def demo_run_read name_ok_def first_word_def
      is_word_space_def is_space_def strconv_Atoi_def is_digit_def digits_val_def digit_val_def in_int64_def)

end
