(* ===== verification/HPK_PodFile.thy ===== *)
theory HPK_PodFile
  imports HPK_Status
begin

text \<open>
  The description of a pod on disk (\<open>compute/podhandler/podhandler.go\<close>: \<open>LoadPodFromKey\<close>,
  \<open>LoadPodFromFile\<close>, \<open>SavePodToFile\<close>). The JSON encoder and decoder belong to the Kubernetes library
  and are the parameter \<open>codec\<close>; \<open>codec_ok\<close> says that decoding undoes encoding. The theorem shows
  that a saved pod is what is loaded afterwards and that no other pod is affected.
\<close>

record codec =
  json_Marshal :: "pod \<Rightarrow> go_error + string"
  json_Unmarshal :: "string \<Rightarrow> go_error + pod"

definition LoadPodFromFile :: "codec \<Rightarrow> fsys \<Rightarrow> string \<Rightarrow> (go_error + pod) outcome" where
  "LoadPodFromFile c w filePath =
     (if filePath = [] then Ret (Inl (Message ''file path not specified''))
      else case os_ReadFile w filePath of
        Inl err \<Rightarrow> Ret (Inl (Wrapped err ''failed to read file path''))
      | Inr podDef \<Rightarrow>
          if podDef = [] then Ret (Inl (Message (''file was empty: '' @ filePath)))
          else (case json_Unmarshal c podDef of
                  Inl err \<Rightarrow> SystemPanic err ''failed decoding file''
                | Inr pod \<Rightarrow> Ret (Inr pod)))"

definition LoadPodFromKey :: "codec \<Rightarrow> string \<Rightarrow> fsys \<Rightarrow> objkey \<Rightarrow> (go_error + pod) outcome" where
  "LoadPodFromKey c hpk w podRef = LoadPodFromFile c w (EncodedJSONPath (pod_dir hpk podRef))"

text \<open>The pod is a pointer: \<open>None\<close> is nil.\<close>

definition SavePodToFile :: "codec \<Rightarrow> string \<Rightarrow> pod option \<Rightarrow> fsys \<Rightarrow> (go_error option \<times> fsys) outcome" where
  "SavePodToFile c hpk podp w =
     (case podp of
        None \<Rightarrow> Ret (Some (Message ''empty pod''), w)
      | Some pod \<Rightarrow>
          (case json_Marshal c pod of
             Inl err \<Rightarrow> Ret (Some (Wrapped err ''failed encoding pod''), w)
           | Inr podDef \<Rightarrow>
               (case os_WriteFile (EncodedJSONPath (pod_dir hpk (ObjectKeyFromObject pod))) podDef
                       PodSpecJsonFilePermissions w of
                  (Some err, w') \<Rightarrow> SystemPanic err ''failed to write file path''
                | (None, w') \<Rightarrow> Ret (None, w'))))"

subsection \<open>Where the description lies\<close>

definition job_elems :: "fpath \<Rightarrow> objkey \<Rightarrow> fpath" where
  "job_elems root k = root @ [key_namespace k, key_name k, ''job'']"

definition crd_elems :: "fpath \<Rightarrow> objkey \<Rightarrow> fpath" where
  "crd_elems root k = job_elems root k @ [''pod.crd'']"

lemma crd_name [simp]: "name_ok ''pod.crd''" "name_ok ''job''" "''pod'' @ ExtensionCRD = ''pod.crd''"
  by (simp_all add: name_ok_def ExtensionCRD_def)

lemma EncodedJSONPath_abs:
  assumes "list_all name_ok root" and "key_ok k"
  shows "EncodedJSONPath (pod_dir (abs_path root) k) = abs_path (crd_elems root k)"
  using assms
  by (simp add: EncodedJSONPath_def JobDir_def pod_dir_def key_ok_def crd_elems_def job_elems_def ExtensionCRD_def)

lemma crd_elems_ok: "list_all name_ok root \<Longrightarrow> key_ok k \<Longrightarrow> list_all name_ok (crd_elems root k)"
  by (simp add: crd_elems_def job_elems_def key_ok_def)

lemma crd_elems_inject:
  "crd_elems root k = crd_elems root k' \<Longrightarrow> k = k'"
  by (auto simp: crd_elems_def job_elems_def)

text \<open>The directory of a pod's description is there, and the description is not a link.\<close>

definition pod_home :: "fpath \<Rightarrow> fsys \<Rightarrow> objkey \<Rightarrow> bool" where
  "pod_home root w k =
     (real_dir w (job_elems root k) \<and> \<not> is_link (fs_lookup w (crd_elems root k)))"

lemma crd_syscall:
  assumes "list_all name_ok root" and "key_ok k" and "pod_home root w k"
    and "faults w op (abs_path (crd_elems root k)) = None"
  shows "syscall op follow w (abs_path (crd_elems root k)) act =
    (case act (crd_elems root k) of
       Inl e \<Rightarrow> Inl (OsError e (abs_path (crd_elems root k))) | Inr a \<Rightarrow> Inr a)"
proof -
  have "list_all name_ok (job_elems root k)" using assms(1,2) by (simp add: job_elems_def key_ok_def)
  then show ?thesis
    unfolding crd_elems_def
    by (intro syscall_in_dir) (use assms in \<open>auto simp: pod_home_def crd_elems_def\<close>)
qed

text \<open>Reading the description of a pod whose directory is there.\<close>

lemma LoadPodFromKey_home:
  assumes "list_all name_ok root" and "key_ok k" and "pod_home root w k"
    and "faults w SysRead (abs_path (crd_elems root k)) = None"
  shows "fs_lookup w (crd_elems root k) = Some (File d m t) \<Longrightarrow> d \<noteq> [] \<Longrightarrow> json_Unmarshal c d = Inr pod \<Longrightarrow>
      LoadPodFromKey c (abs_path root) w k = Ret (Inr pod)"
    and "fs_lookup w (crd_elems root k) = None \<Longrightarrow>
      LoadPodFromKey c (abs_path root) w k =
        Ret (Inl (Wrapped (OsError ENOENT (abs_path (crd_elems root k))) ''failed to read file path''))"
  using assms
  by (simp_all add: LoadPodFromKey_def LoadPodFromFile_def EncodedJSONPath_abs os_ReadFile_def crd_syscall)

lemma pod_home_put_file:
  assumes "pod_home root w k" and "\<not> is_dir (fs_lookup w p)" and "p \<noteq> []"
  shows "pod_home root (fs_put p (File d m t) w) k"
  using assms by (auto simp: pod_home_def intro!: dir_chain_put)

lemma fs_resolve_home:
  assumes "list_all name_ok root" and "key_ok k" and "pod_home root w k"
  shows "fs_resolve f w (abs_path (crd_elems root k)) = Inr (crd_elems root k)"
  using assms fs_resolve_in_dir [of "job_elems root k" "''pod.crd''" w f]
  by (simp add: pod_home_def crd_elems_def job_elems_def key_ok_def)

text \<open>Writing a file elsewhere does not change what is loaded.\<close>

lemma LoadPodFromKey_cong:
  assumes "list_all name_ok root" and "key_ok k" and "pod_home root w k" and "pod_home root w' k"
    and "faults w' = faults w" and "fs_lookup w' (crd_elems root k) = fs_lookup w (crd_elems root k)"
  shows "LoadPodFromKey c (abs_path root) w' k = LoadPodFromKey c (abs_path root) w k"
proof -
  have "os_ReadFile w' (abs_path (crd_elems root k)) = os_ReadFile w (abs_path (crd_elems root k))"
    using assms by (simp add: os_ReadFile_def syscall_def fs_resolve_home split: option.split)
  with assms show ?thesis
    by (simp add: LoadPodFromKey_def LoadPodFromFile_def EncodedJSONPath_abs)
qed

definition codec_ok :: "codec \<Rightarrow> bool" where
  "codec_ok c = (\<forall>pod s. json_Marshal c pod = Inr s \<longrightarrow> s \<noteq> [] \<and> json_Unmarshal c s = Inr pod)"

lemma SavePodToFile_home:
  assumes "list_all name_ok root" and "key_ok (ObjectKeyFromObject pod)"
    and "pod_home root w (ObjectKeyFromObject pod)"
    and "SavePodToFile c (abs_path root) (Some pod) w = Ret (None, w')"
  obtains s m where "json_Marshal c pod = Inr s"
    "w' = fs_put (crd_elems root (ObjectKeyFromObject pod)) (File s m (clock w)) w"
    "\<not> is_dir (fs_lookup w (crd_elems root (ObjectKeyFromObject pod)))"
proof -
  let ?p = "crd_elems root (ObjectKeyFromObject pod)"
  from assms obtain s where s: "json_Marshal c pod = Inr s"
    and wr: "os_WriteFile (abs_path ?p) s PodSpecJsonFilePermissions w = (None, w')"
    by (auto simp: SavePodToFile_def EncodedJSONPath_abs SystemPanic_def split: sum.splits prod.splits option.splits)
  have "faults w SysOpen (abs_path ?p) = None"
    using wr by (auto simp: os_WriteFile_def syscall_def split: option.splits)
  note call = crd_syscall [OF assms(1-3) this]
  from wr s show thesis
    by (auto simp: os_WriteFile_def call split: option.splits fnode.splits prod.splits intro: that)
qed

text \<open>
  C17. What \<open>SavePodToFile\<close> reports as saved is what \<open>LoadPodFromKey\<close> returns for the pod's key from
  then on, and what it returns for every other pod is unchanged.
\<close>

theorem SavePod_LoadPod_roundtrip:
  assumes "codec_ok c" and "list_all name_ok root" and "key_ok (ObjectKeyFromObject pod)"
    and "pod_home root w (ObjectKeyFromObject pod)"
    and "\<And>k. faults w SysRead (abs_path (crd_elems root k)) = None"
    and "SavePodToFile c (abs_path root) (Some pod) w = Ret (None, w')"
  shows "LoadPodFromKey c (abs_path root) w' (ObjectKeyFromObject pod) = Ret (Inr pod) \<and>
    (\<forall>k. key_ok k \<and> pod_home root w k \<and> k \<noteq> ObjectKeyFromObject pod \<longrightarrow>
       LoadPodFromKey c (abs_path root) w' k = LoadPodFromKey c (abs_path root) w k)"
proof -
  let ?k = "ObjectKeyFromObject pod"
  obtain s m where s: "json_Marshal c pod = Inr s"
    and w': "w' = fs_put (crd_elems root ?k) (File s m (clock w)) w"
    and nodir: "\<not> is_dir (fs_lookup w (crd_elems root ?k))"
    by (rule SavePodToFile_home [OF assms(2,3,4,6)])
  have ne: "crd_elems root ?k \<noteq> []" by (simp add: crd_elems_def)
  have home: "pod_home root w' k" if "pod_home root w k" for k
    unfolding w' by (rule pod_home_put_file [OF that nodir ne])
  have "fs_lookup w' (crd_elems root ?k) = Some (File s m (clock w))" using w' ne by simp
  moreover have "s \<noteq> []" "json_Unmarshal c s = Inr pod" using assms(1) s by (auto simp: codec_ok_def)
  ultimately have "LoadPodFromKey c (abs_path root) w' ?k = Ret (Inr pod)"
    using assms(2,3,5) home [OF assms(4)] by (intro LoadPodFromKey_home) (auto simp: w')
  moreover have "LoadPodFromKey c (abs_path root) w' k = LoadPodFromKey c (abs_path root) w k"
    if "key_ok k" "pod_home root w k" "k \<noteq> ?k" for k
    by (rule LoadPodFromKey_cong)
      (use that assms(2) home [OF that(2)] w' crd_elems_inject [of root k ?k] in auto)
  ultimately show ?thesis by blast
qed

text \<open>A codec that knows one pod, and a file system with the job directory of \<open>demo_pod\<close>.\<close>

definition one_codec :: "pod \<Rightarrow> codec" where
  "one_codec pod =
     \<lparr>json_Marshal = (\<lambda>p. if p = pod then Inr ''{pod}'' else Inl (Message ''unsupported'')),
      json_Unmarshal = (\<lambda>s. if s = ''{pod}'' then Inr pod else Inl (Message ''syntax''))\<rparr>"

lemma one_codec_ok: "codec_ok (one_codec pod)"
  by (simp add: codec_ok_def one_codec_def)

definition demo_job_fs :: fsys where
  "demo_job_fs = demo_run_fs\<lparr>entries := [([''h''], Dir 493), ([''h'', ''default''], Dir 493),
     ([''h'', ''default'', ''web''], Dir 493), ([''h'', ''default'', ''web'', ''job''], Dir 493)]\<rparr>"

lemma demo_key: "ObjectKeyFromObject demo_pod = \<lparr>key_namespace = ''default'', key_name = ''web''\<rparr>"
  by (simp add: ObjectKeyFromObject_def demo_pod_def)

lemma demo_key_ok: "key_ok (ObjectKeyFromObject demo_pod)"
  by (simp add: demo_key key_ok_def name_ok_def)

lemma demo_job_home: "pod_home [''h''] demo_job_fs (ObjectKeyFromObject demo_pod)"
  by (simp add: pod_home_def job_elems_def crd_elems_def demo_key demo_job_fs_def fs_lookup_def)

lemma demo_job_faults [simp]: "faults demo_job_fs op s = None"
  by (simp add: demo_job_fs_def demo_run_fs_def demo_fs_def)

lemma demo_save:
  "\<exists>w'. SavePodToFile (one_codec demo_pod) (abs_path [''h'']) (Some demo_pod) demo_job_fs = Ret (None, w')"
proof -
  have h: "list_all name_ok [''h'']" by (simp add: name_ok_def)
  have "fs_lookup demo_job_fs (crd_elems [''h''] (ObjectKeyFromObject demo_pod)) = None"
    by (simp add: job_elems_def crd_elems_def demo_key demo_job_fs_def fs_lookup_def)
  then show ?thesis
    using h demo_key_ok demo_job_home
    by (simp add: SavePodToFile_def EncodedJSONPath_abs one_codec_def os_WriteFile_def crd_syscall)
qed

theorem SavePod_LoadPod_roundtrip_witness:
  "\<exists>w'. SavePodToFile (one_codec demo_pod) (abs_path [''h'']) (Some demo_pod) demo_job_fs = Ret (None, w') \<and>
     LoadPodFromKey (one_codec demo_pod) (abs_path [''h'']) w' (ObjectKeyFromObject demo_pod) = Ret (Inr demo_pod)"
proof -
  have h: "list_all name_ok [''h'']" by (simp add: name_ok_def)
  obtain w' where save: "SavePodToFile (one_codec demo_pod) (abs_path [''h'']) (Some demo_pod) demo_job_fs = Ret (None, w')"
    using demo_save by blast
  with SavePod_LoadPod_roundtrip [OF one_codec_ok h demo_key_ok demo_job_home _ save] show ?thesis by simp
qed

lemma demo_load: "LoadPodFromKey (one_codec demo_pod) (abs_path [''h'']) demo_run_fs (ObjectKeyFromObject demo_pod) = Ret (Inr demo_pod)"
proof (rule LoadPodFromKey_home(1))
  show "list_all name_ok [''h'']" by (simp add: name_ok_def)
  show "key_ok (ObjectKeyFromObject demo_pod)" by (rule demo_key_ok)
  show "pod_home [''h''] demo_run_fs (ObjectKeyFromObject demo_pod)"
    by (simp add: pod_home_def job_elems_def crd_elems_def demo_key demo_run_fs_def demo_fs_def fs_lookup_def)
  show "fs_lookup demo_run_fs (crd_elems [''h''] (ObjectKeyFromObject demo_pod)) = Some (File ''{pod}'' 384 0)"
    by (simp add: job_elems_def crd_elems_def demo_key demo_run_fs_def demo_fs_def fs_lookup_def)
qed (simp_all add: one_codec_def demo_run_fs_def demo_fs_def)

end
