(* ===== verification/HPK_AtomicWriter_Proofs.thy ===== *)
theory HPK_AtomicWriter_Proofs
  imports HPK_AtomicWriter
begin

text \<open>
  The correctness of \<open>compute/volume/util/atomic_writer.go\<close>. Every call of the projection stays in the
  new timestamped directory (\<open>grows\<close>, \<open>link_free\<close>), the switch of the link \<open>..data\<close> is the only
  change to the version in force, and the steps after it leave the new version alone (\<open>untouched\<close>).
  Hence a write is atomic whatever fails, and after a successful one the payload reads back in the
  version and at the paths the users see.
\<close>

subsection \<open>A tree without links\<close>

text \<open>
  \<open>link_free w base\<close>: \<open>base\<close> is reached through directories only, nothing in it is a link, so that a
  path below it names itself, and everything in it lies in a directory.
\<close>

definition link_free :: "fsys \<Rightarrow> fpath \<Rightarrow> bool" where
  "link_free w base = (list_all name_ok base \<and> real_dir w base \<and>
     (\<forall>q. prefix base q \<longrightarrow> \<not> is_link (fs_lookup w q)) \<and>
     (\<forall>q c. prefix base q \<longrightarrow> fs_lookup w (q @ [c]) \<noteq> None \<longrightarrow> is_dir (fs_lookup w q)))"

text \<open>
  \<open>grows base X w w'\<close>: outside \<open>X\<close> (a set of paths in \<open>base\<close>) the step from \<open>w\<close> to \<open>w'\<close> only
  makes new directories in \<open>base\<close>.
\<close>

definition grows :: "fpath \<Rightarrow> fpath set \<Rightarrow> fsys \<Rightarrow> fsys \<Rightarrow> bool" where
  "grows base X w w' =
     (faults w' = faults w \<and> X \<subseteq> {q. prefix base q} \<and>
      (\<forall>q. q \<notin> X \<longrightarrow> fs_lookup w' q = fs_lookup w q \<or>
         prefix base q \<and> fs_lookup w q = None \<and> is_dir (fs_lookup w' q)))"

lemma grows_refl [simp]: "grows base {} w w"
  by (simp add: grows_def)

lemma grows_trans:
  assumes "grows base X w w1" and "grows base Y w1 w2"
  shows "grows base (X \<union> Y) w w2"
proof -
  have "fs_lookup w2 q = fs_lookup w q \<or> prefix base q \<and> fs_lookup w q = None \<and> is_dir (fs_lookup w2 q)"
    if "q \<notin> X \<union> Y" for q
  proof -
    have "fs_lookup w1 q = fs_lookup w q \<or> prefix base q \<and> fs_lookup w q = None \<and> is_dir (fs_lookup w1 q)"
      and "fs_lookup w2 q = fs_lookup w1 q \<or> prefix base q \<and> fs_lookup w1 q = None \<and> is_dir (fs_lookup w2 q)"
      using assms that unfolding grows_def by blast+
    then show ?thesis by auto
  qed
  then show ?thesis using assms unfolding grows_def by simp
qed

lemma grows_mono: "grows base X w w' \<Longrightarrow> X \<subseteq> Y \<Longrightarrow> Y \<subseteq> {q. prefix base q} \<Longrightarrow> grows base Y w w'"
  unfolding grows_def by (intro conjI allI impI) (simp, assumption, meson subsetD)

lemma grows_off: "grows base X w w' \<Longrightarrow> \<not> prefix base q \<Longrightarrow> fs_lookup w' q = fs_lookup w q"
  unfolding grows_def by auto

lemma grows_old: "grows base X w w' \<Longrightarrow> q \<notin> X \<Longrightarrow> fs_lookup w q \<noteq> None \<Longrightarrow> fs_lookup w' q = fs_lookup w q"
  unfolding grows_def by metis

lemma resolve_no_links:
  assumes "\<forall>q. prefix base q \<longrightarrow> \<not> is_link (fs_lookup w q)"
  shows "resolve f n w cur cs = Inr p \<Longrightarrow> prefix base cur \<Longrightarrow> ''..'' \<notin> set cs \<Longrightarrow> is_dir (fs_lookup w cur) \<Longrightarrow>
    p = cur @ cs \<and> is_dir (fs_lookup w (cur @ butlast cs))"
proof (induction cs arbitrary: cur)
  case (Cons c cs)
  have "prefix base (cur @ [c])" using Cons.prems(2) by (simp add: prefix_prefix)
  then have "\<not> is_link (fs_lookup w (cur @ [c]))" using assms by blast
  then show ?case
    using Cons.prems Cons.IH [of "cur @ [c]"] \<open>prefix base (cur @ [c])\<close>
    by (auto simp: resolve.simps split: option.splits fnode.splits if_splits)
qed simp

lemma fs_resolve_below:
  assumes "link_free w base" and "path_elems s = base @ cs" and "''..'' \<notin> set cs"
    and "fs_resolve f w s = Inr p"
  shows "p = base @ cs \<and> is_dir (fs_lookup w (base @ butlast cs))"
proof -
  have "resolve f max_symlinks w base cs = Inr p"
    using assms resolve_dir_chain [of w "[]" base f max_symlinks cs]
    by (auto simp: link_free_def fs_resolve_def split: if_splits)
  then show ?thesis using resolve_no_links assms(1,3) real_dir_lookup unfolding link_free_def by blast
qed

lemma syscall_below:
  assumes "link_free w base" and "path_elems s = base @ cs" and "''..'' \<notin> set cs"
    and "syscall op f w s act = Inr x"
  shows "act (base @ cs) = Inr x \<and> is_dir (fs_lookup w (base @ butlast cs))"
  using assms(4) fs_resolve_below [OF assms(1-3)]
  by (auto simp: syscall_def split: option.splits sum.splits)

lemma link_free_put:
  assumes "link_free w base" and "\<not> is_link (Some n)" and "is_dir (Some n) \<or> \<not> is_dir (fs_lookup w (base @ cs))"
    and "is_dir (fs_lookup w (base @ butlast cs))"
  shows "link_free (fs_put (base @ cs) n w) base"
proof -
  have "is_dir (fs_lookup (fs_put (base @ cs) n w) q)"
    if "prefix base q" and "fs_lookup (fs_put (base @ cs) n w) (q @ [c]) \<noteq> None" for q c
  proof (cases "q @ [c] = base @ cs")
    case True
    then have "q = base @ butlast cs"
      using that(1) by (cases cs rule: rev_cases) (auto simp: prefix_def)
    then show ?thesis using assms(3,4) True by auto
  next
    case False
    then have "is_dir (fs_lookup w q)" using assms(1) that unfolding link_free_def by auto
    then show ?thesis using assms(3) by auto
  qed
  then show ?thesis using assms by (simp add: link_free_def dir_chain_put)
qed

lemma grows_put:
  assumes "prefix base p"
  shows "grows base {p} w (fs_put p n w)"
  using assms by (simp add: grows_def)

lemma grows_put_dir:
  assumes "prefix base p" and "fs_lookup w p = None"
  shows "grows base {} w (fs_put p (Dir m) w)"
  using assms by (auto simp: grows_def)

subsection \<open>Every call of the projection stays in the new directory\<close>

lemma os_Mkdir_below:
  assumes "link_free w base" "path_elems s = base @ cs" "''..'' \<notin> set cs" "os_Mkdir s perm w = Inr w'"
  shows "grows base {} w w' \<and> link_free w' base \<and> is_dir (fs_lookup w' (base @ cs))"
proof -
  have act: "(if fs_lookup w (base @ cs) \<noteq> None then Inl EEXIST
      else Inr (fs_put (base @ cs) (Dir (masked w perm)) w)) = Inr w' \<and> is_dir (fs_lookup w (base @ butlast cs))"
    by (rule syscall_below [OF assms(1-3)]) (use assms(4) in \<open>simp add: os_Mkdir_def\<close>)
  then have none: "fs_lookup w (base @ cs) = None" and w': "w' = fs_put (base @ cs) (Dir (masked w perm)) w"
    by (auto split: if_splits)
  have "base @ cs \<noteq> []" using none by (metis fs_lookup_root option.distinct(1))
  then show ?thesis using none w' act assms(1) by (simp add: grows_put_dir link_free_put)
qed

lemma mkdir_elems_below:
  "mkdir_elems pre cs perm w = (e, w') \<Longrightarrow> link_free w base \<Longrightarrow> path_elems pre = base @ ds \<Longrightarrow>
   ''..'' \<notin> set ds \<Longrightarrow> list_all name_ok cs \<Longrightarrow> grows base {} w w' \<and> link_free w' base"
proof (induction pre cs perm w arbitrary: ds rule: mkdir_elems.induct)
  case (2 pre c cs perm w)
  have el: "path_elems (pre @ slash # c) = base @ (ds @ [c])" "''..'' \<notin> set (ds @ [c])" "list_all name_ok cs"
    using "2.prems" by (auto simp: path_elems_append path_elems_name) (simp add: name_ok_def)
  show ?case
  proof (cases "stat_quiet w (pre @ slash # c)")
    case None
    show ?thesis
    proof (cases "os_Mkdir (pre @ slash # c) perm w")
      case (Inl x)
      then show ?thesis using 2 None by (simp add: Let_def)
    next
      case (Inr w1)
      have w1: "grows base {} w w1" "link_free w1 base"
        using os_Mkdir_below [OF \<open>link_free w base\<close> el(1,2) Inr] by auto
      have "grows base {} w1 w' \<and> link_free w' base"
        using "2.IH"(1) [OF refl None Inr _ w1(2) el] "2.prems"(1) None Inr by (simp add: Let_def)
      then show ?thesis using grows_trans [OF w1(1)] by auto
    qed
  next
    case (Some nd)
    then show ?thesis using 2 el by (cases nd) (auto simp: Let_def)
  qed
qed simp

lemma mkdir_elems_chain:
  "dir_chain w cur cs \<Longrightarrow> real_dir w cur \<Longrightarrow> path_elems pre = cur \<Longrightarrow> list_all name_ok cs \<Longrightarrow>
   \<exists>pre'. path_elems pre' = cur @ cs \<and> mkdir_elems pre (cs @ rest) perm w = mkdir_elems pre' rest perm w"
proof (induction cs arbitrary: cur pre)
  case (Cons c cs)
  have el: "path_elems (pre @ slash # c) = cur @ [c]"
    using Cons.prems by (simp add: path_elems_append path_elems_name)
  have ch: "real_dir w (cur @ [c])" using Cons.prems by (simp add: dir_chain_append)
  obtain m where "fs_lookup w (cur @ [c]) = Some (Dir m)" using Cons.prems by (auto elim: is_dirE)
  then have "stat_quiet w (pre @ slash # c) = Some (Dir m)"
    using el resolve_dir_chain [OF ch, of True max_symlinks "[]"] by (simp add: stat_quiet_def fs_resolve_def)
  then show ?case
    using Cons.IH [of "cur @ [c]" "pre @ slash # c"] Cons.prems el ch by (simp add: Let_def)
qed auto

lemma os_MkdirAll_below:
  assumes "os_MkdirAll s perm w = (e, w')" "link_free w base" "path_elems s = base @ cs" "list_all name_ok cs"
  shows "grows base {} w w' \<and> link_free w' base"
proof (cases "s = []")
  case False
  obtain pre' where pre': "path_elems pre' = base"
      "mkdir_elems [] (base @ cs) perm w = mkdir_elems pre' cs perm w"
    using mkdir_elems_chain [of w "[]" base "[]" cs perm] assms(2) unfolding link_free_def by auto
  then show ?thesis
    using assms False mkdir_elems_below [of pre' cs perm w e w' base "[]"] by (simp add: os_MkdirAll_def)
qed (use assms in \<open>simp add: os_MkdirAll_def\<close>)

lemma os_WriteFile_below:
  assumes "os_WriteFile s data perm w = (e, w')" "link_free w base" "path_elems s = base @ cs" "''..'' \<notin> set cs"
  shows "grows base {base @ cs} w w' \<and> link_free w' base \<and>
    (e = None \<longrightarrow> cs \<noteq> [] \<and> (\<exists>m t. fs_lookup w' (base @ cs) = Some (File data m t)))"
proof -
  let ?act = "\<lambda>p. case fs_lookup w p of
           None \<Rightarrow> Inr (p, masked w perm)
         | Some (File c m t) \<Rightarrow> Inr (p, m)
         | Some (Dir m) \<Rightarrow> Inl EISDIR
         | Some _ \<Rightarrow> Inl EIO"
  show ?thesis
  proof (cases "syscall SysOpen True w s ?act")
    case (Inl x)
    then show ?thesis using assms grows_mono [OF grows_refl, of "{base @ cs}" base w]
      by (auto simp: os_WriteFile_def)
  next
    case (Inr pm)
    have act: "?act (base @ cs) = Inr pm \<and> is_dir (fs_lookup w (base @ butlast cs))"
      by (rule syscall_below [OF assms(2-4) Inr])
    then obtain m where pm: "pm = (base @ cs, m)" and nd: "\<not> is_dir (fs_lookup w (base @ cs))"
      by (auto split: option.splits fnode.splits)
    have "base @ cs \<noteq> []" using nd by (metis fs_lookup_root is_dir_simps(1))
    moreover have "cs \<noteq> []" using nd real_dir_lookup [of w base] assms(2) by (auto simp: link_free_def)
    ultimately show ?thesis
      using assms Inr pm nd act
      by (auto simp: os_WriteFile_def grows_put link_free_put split: option.splits)
  qed
qed

lemma set_mode_kind [simp]:
  "is_dir (Some (set_mode perm n)) = is_dir (Some n)" "is_link (Some (set_mode perm n)) = is_link (Some n)"
  by (cases n; simp add: set_mode_def)+

lemma os_Chmod_below:
  assumes "os_Chmod s perm w = Inr w'" "link_free w base" "path_elems s = base @ cs" "''..'' \<notin> set cs"
  shows "grows base {base @ cs} w w' \<and> link_free w' base \<and>
    (\<forall>n. fs_lookup w (base @ cs) = Some n \<longrightarrow> base @ cs \<noteq> [] \<longrightarrow> fs_lookup w' (base @ cs) = Some (set_mode (syscallMode perm) n))"
proof -
  have act: "(case fs_lookup w (base @ cs) of None \<Rightarrow> Inl ENOENT
      | Some n \<Rightarrow> Inr (fs_put (base @ cs) (set_mode (syscallMode perm) n) w)) = Inr w' \<and> is_dir (fs_lookup w (base @ butlast cs))"
    by (rule syscall_below [OF assms(2-4)]) (use assms(1) in \<open>simp add: os_Chmod_def\<close>)
  then obtain n where n: "fs_lookup w (base @ cs) = Some n" "w' = fs_put (base @ cs) (set_mode (syscallMode perm) n) w"
    by (auto split: option.splits)
  have "\<not> is_link (Some n)" using n(1) assms(2) by (metis link_free_def prefixI)
  moreover have "is_dir (Some (set_mode (syscallMode perm) n)) \<or> \<not> is_dir (fs_lookup w (base @ cs))" using n(1) by simp
  ultimately show ?thesis using n assms(2) act by (simp add: grows_put link_free_put del: set_mode_kind(1))
qed

subsection \<open>The cleaned payload\<close>

definition rel_path :: "string list \<Rightarrow> string" where
  "rel_path ns = (if ns = [] then ''.'' else strings_Join ns [slash])"

lemma path_elems_rel_path [simp]: "list_all name_ok ns \<Longrightarrow> path_elems (rel_path ns) = ns"
  by (cases "ns = []") (simp_all add: rel_path_def path_elems_Join_names, simp add: path_elems_def)

lemma validatePath_elems:
  assumes "validatePath k = None"
  shows "list_all name_ok (path_elems k)" and "filepath_Clean k = rel_path (path_elems k)"
proof -
  have k: "k \<noteq> []" "\<not> filepath_IsAbs k" "''..'' \<notin> set (split_char slash k)"
    using assms by (auto simp: validatePath_def Let_def find_None_iff split: if_splits option.splits)
  then show ok: "list_all name_ok (path_elems k)"
    by (auto simp: path_elems_def list_all_iff name_ok_def dest: split_char_elem)
  have "strings_Join (path_elems k) [slash] = [] \<Longrightarrow> path_elems k = []"
    using ok by (cases "path_elems k" rule: list.exhaust; cases "tl (path_elems k)") (auto simp: name_ok_def)
  then show "filepath_Clean k = rel_path (path_elems k)"
    using k by (auto simp: filepath_Clean_def rel_path_def Let_def clean_elems_no_dotdot simp flip: path_elems_def)
qed

definition clean_payload :: "payload \<Rightarrow> bool" where
  "clean_payload ps =
     (distinct (map fst ps) \<and>
      list_all (\<lambda>(p, fp). list_all name_ok (path_elems p) \<and> p = rel_path (path_elems p)) ps)"

lemma clean_payload_update:
  assumes "clean_payload ps" and "validatePath k = None"
  shows "clean_payload (AList.update (filepath_Clean k) fp ps)"
proof -
  have new: "list_all name_ok (path_elems (filepath_Clean k)) \<and>
      filepath_Clean k = rel_path (path_elems (filepath_Clean k))"
    using validatePath_elems [OF assms(2)] by simp
  have "set (AList.update (filepath_Clean k) fp ps) \<subseteq> insert (filepath_Clean k, fp) (set ps)"
    by (induction ps) auto
  then show ?thesis
    using assms(1) new distinct_update [of ps "filepath_Clean k" fp]
    by (fastforce simp: clean_payload_def list_all_iff)
qed

lemma validate_all_clean:
  "validate_all payload acc = Inr clean \<Longrightarrow> clean_payload acc \<Longrightarrow> clean_payload clean"
  by (induction payload acc rule: validate_all.induct)
    (auto simp: clean_payload_update split: option.splits)

lemma validatePayload_clean: "validatePayload payload = Inr clean \<Longrightarrow> clean_payload clean"
  using validate_all_clean [of payload "[]"] by (simp add: validatePayload_def clean_payload_def)

lemma clean_payload_distinct:
  assumes "clean_payload ps"
  shows "distinct (map (path_elems \<circ> fst) ps)"
proof -
  have "inj_on path_elems (fst ` set ps)"
    using assms by (fastforce simp: clean_payload_def list_all_iff intro: inj_on_inverseI [where g = rel_path])
  then show ?thesis using assms by (auto simp: clean_payload_def distinct_map simp flip: map_map)
qed

subsection \<open>Writing the payload\<close>

lemma Split_abs_path:
  assumes "list_all name_ok (ns @ [c])"
  shows "path_elems (fst (filepath_Split (abs_path (ns @ [c])))) = ns" "fst (filepath_Split (abs_path (ns @ [c]))) \<noteq> []"
proof -
  define d where "d = (if ns = [] then [] else abs_path ns)"
  have "abs_path (ns @ [c]) = d @ slash # c" by (simp add: d_def abs_path_snoc) (simp add: abs_path_def)
  moreover have "path_elems (d @ [slash]) = ns"
    using assms path_elems_append [of d "[]"] by (simp add: d_def)
  ultimately show "path_elems (fst (filepath_Split (abs_path (ns @ [c])))) = ns"
    "fst (filepath_Split (abs_path (ns @ [c]))) \<noteq> []"
    using assms by (simp_all add: Split_snoc name_ok_def)
qed

lemma MkdirAll_parent_below:
  assumes "os_MkdirAll (fst (filepath_Split (abs_path (base @ cs)))) perm w = (e, w')"
    and lf: "link_free w base" and "base \<noteq> []" and ok: "list_all name_ok cs"
  shows "grows base {} w w' \<and> link_free w' base"
proof (cases cs rule: rev_cases)
  case (snoc ds c)
  then have "path_elems (fst (filepath_Split (abs_path (base @ cs)))) = base @ ds"
    using Split_abs_path(1) [of "base @ ds" c] lf ok by (simp add: link_free_def)
  then show ?thesis using os_MkdirAll_below [OF assms(1) lf] snoc ok by simp
next
  case Nil
  obtain ns n where ns: "base = ns @ [n]" using \<open>base \<noteq> []\<close> by (metis append_butlast_last_id)
  have elems: "path_elems (fst (filepath_Split (abs_path base))) = ns" "list_all name_ok ns"
    using Split_abs_path(1) [of ns n] lf ns by (auto simp: link_free_def)
  have "real_dir w ns" using lf ns by (simp add: link_free_def dir_chain_append)
  then have "mkdir_elems [] ns perm w = (None, w)"
    using mkdir_elems_chain [of w "[]" ns "[]" "[]" perm] elems(2) by auto
  then show ?thesis using assms(1) elems Nil lf by (auto simp: os_MkdirAll_def split: if_splits)
qed

lemma write_projection_below:
  assumes wr: "write_projection (abs_path base) p fp w = (e, w')"
    and lf: "link_free w base" and "base \<noteq> []" and ok: "list_all name_ok (path_elems p)"
  shows "grows base {base @ path_elems p} w w' \<and> link_free w' base \<and>
    (e = None \<longrightarrow> path_elems p \<noteq> [] \<and>
       (\<exists>t. fs_lookup w' (base @ path_elems p) = Some (File (fp_data fp) (syscallMode (fp_mode fp)) t)))"
proof -
  let ?cs = "path_elems p" and ?full = "abs_path (base @ path_elems p)"
  let ?X = "{base @ path_elems p}"
  have nodd: "''..'' \<notin> set ?cs" using ok by (auto simp: list_all_iff name_ok_def)
  have full: "filepath_Join [abs_path base, p] = ?full" and el: "path_elems ?full = base @ ?cs"
    using lf ok nodd by (simp_all add: link_free_def Join_abs_path)
  have sub: "?X \<subseteq> {q. prefix base q}" by simp
  obtain e1 w1 where m: "os_MkdirAll (fst (filepath_Split ?full)) 511 w = (e1, w1)" by fastforce
  note g1 = MkdirAll_parent_below [OF m lf \<open>base \<noteq> []\<close> ok]
  obtain e2 w2 where o: "os_WriteFile ?full (fp_data fp) (fp_mode fp) w1 = (e2, w2)" by fastforce
  note g2 = os_WriteFile_below [OF o conjunct2 [OF g1] el nodd]
  have g1X: "grows base ?X w w1" using g1 grows_mono [OF _ _ sub] by blast
  have g2X: "grows base ?X w w2" using grows_trans [OF g1X] g2 by fastforce
  show ?thesis
  proof (cases "e1 = None \<and> e2 = None")
    case False
    then show ?thesis using wr m o full g1X g2X g1 g2
      by (cases e1; cases e2) (auto simp: write_projection_def Let_def)
  next
    case True
    then obtain m0 t where f: "?cs \<noteq> []" "fs_lookup w2 (base @ ?cs) = Some (File (fp_data fp) m0 t)" using g2 by blast
    show ?thesis
    proof (cases "os_Chmod ?full (fp_mode fp) w2")
      case (Inl err)
      then show ?thesis using wr True m o full g2X g2 by (simp add: write_projection_def Let_def) auto
    next
      case (Inr w3)
      note g3 = os_Chmod_below [OF Inr conjunct1 [OF conjunct2 [OF g2]] el nodd]
      have g3X: "grows base ?X w w3" using grows_trans [OF g2X] g3 by fastforce
      have content: "fs_lookup w3 (base @ ?cs) = Some (File (fp_data fp) (syscallMode (fp_mode fp)) t)"
        using g3 f by (simp add: set_mode_def)
      have "w' = w3"
        using wr True m o full Inr
        by (auto simp: write_projection_def Let_def os_Chown_def syscall_def
            split: option.splits sum.splits)
      then show ?thesis using g3X g3 content f(1) by blast
    qed
  qed
qed

lemma writePayloadToDir_below:
  "writePayloadToDir ps (abs_path base) w = (e, w') \<Longrightarrow> link_free w base \<Longrightarrow> base \<noteq> [] \<Longrightarrow>
   list_all (\<lambda>(p, fp). list_all name_ok (path_elems p)) ps \<Longrightarrow> distinct (map (path_elems \<circ> fst) ps) \<Longrightarrow>
   grows base ((\<lambda>(p, fp). base @ path_elems p) ` set ps) w w' \<and> link_free w' base \<and>
   (e = None \<longrightarrow> (\<forall>(p, fp) \<in> set ps. path_elems p \<noteq> [] \<and>
      (\<exists>t. fs_lookup w' (base @ path_elems p) = Some (File (fp_data fp) (syscallMode (fp_mode fp)) t))))"
proof (induction ps arbitrary: w)
  case (Cons a ps)
  obtain p fp where a: "a = (p, fp)" by fastforce
  let ?full = "\<lambda>(p, fp). base @ path_elems p"
  obtain e1 w1 where wp: "write_projection (abs_path base) p fp w = (e1, w1)" by fastforce
  note g1 = write_projection_below [OF wp Cons.prems(2,3)]
  have ok: "list_all name_ok (path_elems p)" using Cons.prems(4) a by simp
  have X: "?full ` set ps \<union> {base @ path_elems p} \<subseteq> {q. prefix base q}" by auto
  show ?case
  proof (cases e1)
    case (Some err)
    then have "e = Some err" "w' = w1" using Cons.prems(1) a wp by simp_all
    then show ?thesis
      using g1 [OF ok] grows_mono [of base "{base @ path_elems p}" w w1 "?full ` set (a # ps)"] X a by auto
  next
    case None
    then have rest: "writePayloadToDir ps (abs_path base) w1 = (e, w')" using Cons.prems(1) a wp by simp
    have IH: "grows base (?full ` set ps) w1 w'" "link_free w' base"
      "e = None \<Longrightarrow> \<forall>(p, fp) \<in> set ps. path_elems p \<noteq> [] \<and>
        (\<exists>t. fs_lookup w' (base @ path_elems p) = Some (File (fp_data fp) (syscallMode (fp_mode fp)) t))"
      using Cons.IH [OF rest] g1 [OF ok] Cons.prems(3-5) by auto
    have "?full ` set (a # ps) = {base @ path_elems p} \<union> ?full ` set ps" using a by auto
    then have gr: "grows base (?full ` set (a # ps)) w w'"
      using grows_trans [OF conjunct1 [OF g1 [OF ok]] IH(1)] by simp
    have "base @ path_elems p \<notin> ?full ` set ps" using Cons.prems(5) a by (auto simp: image_iff split: prod.splits)
    then have "fs_lookup w1 (base @ path_elems p) \<noteq> None \<Longrightarrow> fs_lookup w' (base @ path_elems p) = fs_lookup w1 (base @ path_elems p)"
      using grows_old [OF IH(1)] by blast
    then have "path_elems p \<noteq> [] \<and> (\<exists>t. fs_lookup w' (base @ path_elems p) = Some (File (fp_data fp) (syscallMode (fp_mode fp)) t))"
      using g1 [OF ok] None by auto
    then show ?thesis using gr IH a by auto
  qed
qed simp

subsection \<open>The versions of a volume\<close>

definition tree_ok :: "fsys \<Rightarrow> bool" where
  "tree_ok w = (\<forall>q c. fs_lookup w (q @ [c]) \<noteq> None \<longrightarrow> is_dir (fs_lookup w q))"

lemma tree_ok_below:
  assumes "tree_ok w" and "fs_lookup w p = None"
  shows "fs_lookup w (p @ cs) = None"
proof (induction cs rule: rev_induct)
  case (snoc c cs)
  show ?case
  proof (rule ccontr)
    assume "fs_lookup w (p @ cs @ [c]) \<noteq> None"
    then have "is_dir (fs_lookup w (p @ cs))" using assms(1) unfolding tree_ok_def by (metis append_assoc)
    then show False using snoc by simp
  qed
qed (use assms(2) in simp)

text \<open>
  The version in force is the name that \<open>..data\<close> links to. \<open>holds_payload\<close>: the files of a version
  are exactly those of the payload, with their content and mode.
\<close>

definition current_version :: "fsys \<Rightarrow> fpath \<Rightarrow> string option" where
  "current_version w t = (case fs_lookup w (t @ [dataDirName]) of Some (Symlink v) \<Rightarrow> Some v | _ \<Rightarrow> None)"

definition same_version :: "fpath \<Rightarrow> fsys \<Rightarrow> fsys \<Rightarrow> bool" where
  "same_version t w w' =
     (current_version w' t = current_version w t \<and>
      (\<forall>v q. current_version w t = Some v \<longrightarrow> fs_lookup w' (t @ v # q) = fs_lookup w (t @ v # q)))"

definition holds_payload :: "fsys \<Rightarrow> fpath \<Rightarrow> string \<Rightarrow> payload \<Rightarrow> bool" where
  "holds_payload w t v ps =
     (\<forall>q c m. (\<exists>tm. fs_lookup w (t @ v # q) = Some (File c m tm)) \<longleftrightarrow>
        (\<exists>(p, fp) \<in> set ps. path_elems p = q \<and> fp_data fp = c \<and> syscallMode (fp_mode fp) = m))"

definition volume_ok :: "fsys \<Rightarrow> fpath \<Rightarrow> bool" where
  "volume_ok w t =
     (t \<noteq> [] \<and> list_all name_ok t \<and> real_dir w t \<and> tree_ok w \<and> list_all (\<lambda>r. slash \<notin> set r) (rand_suffixes w) \<and>
      (\<forall>v. current_version w t = Some v \<longrightarrow> name_ok v \<and> prefix ''..'' v \<and> is_dir (fs_lookup w (t @ [v])) \<and>
        (\<forall>c. fs_lookup w (t @ [v, c]) \<noteq> None \<longrightarrow> name_ok c \<and> \<not> prefix ''..'' c)))"

lemma dataDirName_ok [simp]: "name_ok dataDirName" "name_ok newDataDirName" "dataDirName \<noteq> newDataDirName"
  by (simp_all add: name_ok_def dataDirName_def newDataDirName_def)

subsection \<open>The new directory\<close>

lemma is_digit_not_slash: "list_all is_digit s \<Longrightarrow> slash \<notin> set s"
  by (auto simp: list_all_iff is_digit_def)

lemma timestamp_name_ok:
  assumes "slash \<notin> set r"
  shows "name_ok (timestamp_name w @ r)" and "timestamp_name w @ r \<noteq> dataDirName"
    and "timestamp_name w @ r \<noteq> newDataDirName" and "prefix ''..'' (timestamp_name w @ r)"
proof -
  obtain c cs where y: "nat_digits (year (utc w)) = c # cs" "is_digit c" by (rule nat_digits_Cons)
  have "slash \<notin> set (nat_digits n)" for n by (rule is_digit_not_slash [OF nat_digits_all_digits])
  then have "slash \<notin> set (timestamp_name w)" by (simp add: timestamp_name_def two_digits_def)
  moreover obtain rest where ts: "timestamp_name w = CHR ''.'' # CHR ''.'' # c # rest"
    by (simp add: timestamp_name_def y)
  ultimately show "name_ok (timestamp_name w @ r)" using assms by (auto simp: name_ok_def)
  show "timestamp_name w @ r \<noteq> dataDirName" "timestamp_name w @ r \<noteq> newDataDirName"
    using y(2) by (auto simp: ts dataDirName_def newDataDirName_def is_digit_def)
  show "prefix ''..'' (timestamp_name w @ r)" by (simp add: ts)
qed

lemma try_mkdir_temp_Inr:
  "try_mkdir_temp pre rs w = Inr (s, w') \<Longrightarrow> \<exists>r \<in> set rs. s = pre @ r \<and> os_Mkdir s 448 w = Inr w'"
  by (induction pre rs w rule: try_mkdir_temp.induct) (auto split: sum.splits if_splits)

lemma os_Mkdir_in_dir:
  assumes "list_all name_ok ns" "name_ok c" "real_dir w ns" "os_Mkdir (abs_path (ns @ [c])) perm w = Inr w'"
  shows "fs_lookup w (ns @ [c]) = None \<and> w' = fs_put (ns @ [c]) (Dir (masked w perm)) w"
  using assms fs_resolve_in_dir [of ns c w False]
  by (auto simp: os_Mkdir_def syscall_def split: option.splits sum.splits if_splits)

text \<open>What is known of the state once the timestamped directory \<open>ts\<close> was drawn.\<close>

definition new_dir :: "fpath \<Rightarrow> string \<Rightarrow> fsys \<Rightarrow> fsys \<Rightarrow> bool" where
  "new_dir t ts w w1 =
     (name_ok ts \<and> prefix ''..'' ts \<and> ts \<noteq> dataDirName \<and> ts \<noteq> newDataDirName \<and> fs_lookup w (t @ [ts]) = None \<and>
      link_free w1 (t @ [ts]) \<and> grows (t @ [ts]) {t @ [ts]} w w1 \<and>
      (\<forall>q. q \<noteq> [] \<longrightarrow> fs_lookup w1 (t @ ts # q) = None))"

lemma newTimestampDir_new:
  assumes vol: "volume_ok w t" and nt: "newTimestampDir (abs_path t) w = (r, w1)"
  shows "(\<exists>e. r = Inl e) \<and> w1 = w \<or>
    (\<exists>ts. new_dir t ts w w1 \<and> (r = Inr (abs_path (t @ [ts])) \<or> (\<exists>e. r = Inl e)))"
proof (cases "os_MkdirTemp (abs_path t) (timestamp_name w) w")
  case (Inl e)
  then show ?thesis using nt by (auto simp: newTimestampDir_def)
next
  case (Inr sw)
  then obtain s w2 where sw: "os_MkdirTemp (abs_path t) (timestamp_name w) w = Inr (s, w2)" by (cases sw) simp
  then have "try_mkdir_temp (abs_path t @ slash # timestamp_name w) (rand_suffixes w) w = Inr (s, w2)"
    by (simp add: os_MkdirTemp_def split: option.splits)
  then obtain x where x: "x \<in> set (rand_suffixes w)" "s = abs_path t @ slash # timestamp_name w @ x"
      "os_Mkdir s 448 w = Inr w2"
    using try_mkdir_temp_Inr by fastforce
  define ts where "ts = timestamp_name w @ x"
  have t: "t \<noteq> []" "list_all name_ok t" "real_dir w t" "tree_ok w" and nx: "slash \<notin> set x"
    using vol x(1) by (auto simp: volume_ok_def list_all_iff)
  have s: "s = abs_path (t @ [ts])" using x(2) t(1) by (simp add: abs_path_snoc ts_def)
  note names = timestamp_name_ok [OF nx, of w, folded ts_def]
  have mk: "fs_lookup w (t @ [ts]) = None" "w2 = fs_put (t @ [ts]) (Dir (masked w 448)) w"
    using os_Mkdir_in_dir [of t ts w] t names(1) x(3) s by auto
  have below: "fs_lookup w (t @ ts # q) = None" for q using tree_ok_below [OF t(4) mk(1), of q] by simp
  have lf: "link_free w2 (t @ [ts])"
    using t names(1) mk(2) below dir_chain_put [OF t(3)]
    by (auto simp: link_free_def dir_chain_append prefix_def name_ok_def)
  have new2: "new_dir t ts w w2"
    using names mk below lf grows_put [of "t @ [ts]" "t @ [ts]" w] by (simp add: new_dir_def)
  show ?thesis
  proof (cases "os_Chmod s 493 w2")
    case (Inl e)
    then show ?thesis using new2 nt sw by (auto simp: newTimestampDir_def)
  next
    case (Inr w3)
    have el: "path_elems s = (t @ [ts]) @ []" using s t(2) names(1) by simp
    note ch = os_Chmod_below [OF Inr lf el]
    have "grows (t @ [ts]) {t @ [ts]} w w3"
      using grows_trans [of "t @ [ts]" "{t @ [ts]}" w w2 "{t @ [ts]}" w3] new2 ch by (simp add: new_dir_def)
    moreover have "fs_lookup w3 (t @ ts # q) = None" if "q \<noteq> []" for q
    proof -
      have "w3 = fs_put (t @ [ts]) (set_mode (syscallMode 493) (Dir (masked w 448))) w2"
        using syscall_below [OF lf el _ Inr [unfolded os_Chmod_def]] mk(2) by simp
      then show ?thesis using that new2 by (simp add: new_dir_def)
    qed
    ultimately have "new_dir t ts w w3" using new2 ch by (simp add: new_dir_def)
    then show ?thesis using nt sw Inr s by (auto simp: newTimestampDir_def)
  qed
qed

subsection \<open>Switching the link\<close>

lemma os_RemoveAll_off:
  assumes "fs_resolve False w s = Inr p" and "\<not> prefix p q"
  shows "fs_lookup (snd (os_RemoveAll s w)) q = fs_lookup w q"
proof -
  have "map_of (filter (\<lambda>(q, n). \<not> prefix p q \<or> P q) es) q = map_of es q" for P and es :: entries
    using map_of_filter_keys [of "\<lambda>q. \<not> prefix p q \<or> P q" es] assms(2) by simp
  then show ?thesis
    using assms by (auto simp: os_RemoveAll_def fs_lookup_def fs_del_tree_def Let_def split: list.splits)
qed

lemma os_RemoveAll_faults [simp]: "faults (snd (os_RemoveAll s w)) = faults w"
  by (auto simp: os_RemoveAll_def Let_def split: sum.splits list.splits)

lemma os_RemoveAll_in_dir:
  assumes "list_all name_ok ns" "name_ok c" "real_dir w ns" "\<not> prefix (ns @ [c]) q"
  shows "fs_lookup (snd (os_RemoveAll (abs_path (ns @ [c])) w)) q = fs_lookup w q"
  using os_RemoveAll_off fs_resolve_in_dir [of ns c w False] assms by blast

lemma os_Symlink_in_dir:
  assumes "list_all name_ok ns" "name_ok c" "real_dir w ns" "os_Symlink target (abs_path (ns @ [c])) w = Inr w'"
  shows "fs_lookup w (ns @ [c]) = None \<and> w' = fs_put (ns @ [c]) (Symlink target) w"
  using assms fs_resolve_in_dir [of ns c w False]
  by (auto simp: os_Symlink_def syscall_def split: option.splits sum.splits if_splits)

lemma os_Remove_in_dir:
  assumes "list_all name_ok ns" "name_ok c" "real_dir w ns" "os_Remove (abs_path (ns @ [c])) w = Inr w'"
  shows "w' = fs_del_tree (ns @ [c]) w"
  using assms fs_resolve_in_dir [of ns c w False]
  by (auto simp: os_Remove_def syscall_def split: option.splits sum.splits fnode.splits if_splits)

lemma os_Rename_link_in_dir:
  assumes "list_all name_ok ns" "name_ok c" "name_ok d" "c \<noteq> d" "real_dir w ns"
    and "fs_lookup w (ns @ [c]) = Some (Symlink l)"
    and "os_Rename (abs_path (ns @ [c])) (abs_path (ns @ [d])) w = Inr w'"
  shows "w' = fs_move (ns @ [c]) (ns @ [d]) w \<and> \<not> is_dir (fs_lookup w (ns @ [d]))"
  using assms fs_resolve_in_dir [of ns c w False] fs_resolve_in_dir [of ns d w False]
  by (auto simp: os_Rename_def syscall_def split: option.splits sum.splits if_splits)

lemma Base_abs_path:
  assumes "name_ok c"
  shows "filepath_Base (abs_path (ns @ [c])) = c"
proof -
  obtain d where d: "abs_path (ns @ [c]) = d @ slash # c"
    by (cases "ns = []") (auto simp: abs_path_snoc, simp add: abs_path_def)
  obtain x y where c: "c = x @ [y]" "y \<noteq> slash" using assms by (cases c rule: rev_cases) (auto simp: name_ok_def)
  then have "rev (dropWhile (\<lambda>c. c = slash) (rev (d @ slash # c))) = d @ slash # c" by simp
  then show ?thesis using Split_snoc [of c d] assms by (simp add: filepath_Base_def d name_ok_def)
qed

text \<open>
  A failed switch leaves everything but the new directory and \<open>..data_tmp\<close>; a successful one moves
  the link and nothing else.
\<close>

lemma switch_link_cases:
  assumes t: "list_all name_ok t" and rd: "real_dir w t" and ts: "name_ok ts"
    and sw: "switch_link (abs_path t) (abs_path (t @ [ts])) w = (e, w')"
  shows "(e \<noteq> None \<longrightarrow> (\<forall>q. \<not> prefix (t @ [ts]) q \<longrightarrow>
            \<not> (fs_lookup w (t @ [newDataDirName]) = None \<and> prefix (t @ [newDataDirName]) q) \<longrightarrow>
            fs_lookup w' q = fs_lookup w q)) \<and>
         (e = None \<longrightarrow> fs_lookup w' (t @ [dataDirName]) = Some (Symlink ts) \<and>
            (\<forall>q. \<not> prefix (t @ [newDataDirName]) q \<longrightarrow> \<not> prefix (t @ [dataDirName]) q \<longrightarrow> fs_lookup w' q = fs_lookup w q) \<and>
            faults w' = faults w)"
proof -
  let ?new = "abs_path (t @ [newDataDirName])" and ?ts = "abs_path (t @ [ts])"
  have joins: "filepath_Join [abs_path t, newDataDirName] = ?new"
    "filepath_Join [abs_path t, dataDirName] = abs_path (t @ [dataDirName])" "filepath_Base ?ts = ts"
    using t ts by (simp_all add: Base_abs_path)
  have sw': "(case os_Symlink ts ?new w of
        Inl err \<Rightarrow> (Some err, snd (os_RemoveAll ?ts w))
      | Inr w1 \<Rightarrow>
          (case os_Rename ?new (abs_path (t @ [dataDirName])) w1 of
             Inr w2 \<Rightarrow> (None, w2)
           | Inl err \<Rightarrow> (Some err, snd (os_RemoveAll ?ts (case os_Remove ?new w1 of Inl _ \<Rightarrow> w1 | Inr w2 \<Rightarrow> w2))))) = (e, w')"
    using sw unfolding switch_link_def Let_def joins .
  show ?thesis
  proof (cases "os_Symlink ts ?new w")
    case (Inl err)
    then show ?thesis using sw' os_RemoveAll_in_dir [OF t ts rd] by auto
  next
    case (Inr w1)
    have w1: "fs_lookup w (t @ [newDataDirName]) = None" "w1 = fs_put (t @ [newDataDirName]) (Symlink ts) w"
      using os_Symlink_in_dir [OF t _ rd Inr] by auto
    have rd1: "real_dir w1 t" using rd w1 by (auto intro: dir_chain_put)
    show ?thesis
    proof (cases "os_Rename ?new (abs_path (t @ [dataDirName])) w1")
      case (Inl err)
      define w2 where "w2 = (case os_Remove ?new w1 of Inl _ \<Rightarrow> w1 | Inr w2 \<Rightarrow> w2)"
      have "w2 = w1 \<or> w2 = fs_del_tree (t @ [newDataDirName]) w1"
        using os_Remove_in_dir [OF t _ rd1] by (auto simp: w2_def split: sum.splits)
      then have rd2: "real_dir w2 t" and off: "\<not> prefix (t @ [newDataDirName]) q \<Longrightarrow> fs_lookup w2 q = fs_lookup w q" for q
        using rd1 w1(2) by (auto intro: dir_chain_del_tree)
      have "e = Some err" "w' = snd (os_RemoveAll ?ts w2)" using sw' Inr Inl by (simp_all add: w2_def)
      then show ?thesis using os_RemoveAll_in_dir [OF t ts rd2] off w1(1) by auto
    next
      case (Inr w2)
      have "w2 = fs_move (t @ [newDataDirName]) (t @ [dataDirName]) w1"
        using os_Rename_link_in_dir [OF t _ _ _ rd1 _ Inr] w1(2) dataDirName_ok(3) by fastforce
      moreover have "e = None" "w' = w2" using sw' Inr \<open>os_Symlink ts ?new w = Inr w1\<close> by simp_all
      ultimately show ?thesis using w1(2) by (auto simp: fs_lookup_move)
    qed
  qed
qed

subsection \<open>After the switch\<close>

text \<open>
  \<open>untouched t ts w w'\<close>: the link \<open>..data\<close>, the target directory and the version \<open>ts\<close> are as before.
\<close>

definition untouched :: "fpath \<Rightarrow> string \<Rightarrow> fsys \<Rightarrow> fsys \<Rightarrow> bool" where
  "untouched t ts w w' =
     (real_dir w' t \<and> faults w' = faults w \<and> fs_lookup w' (t @ [dataDirName]) = fs_lookup w (t @ [dataDirName]) \<and>
      (\<forall>q. fs_lookup w' (t @ ts # q) = fs_lookup w (t @ ts # q)))"

lemma untouched_refl: "real_dir w t \<Longrightarrow> untouched t ts w w"
  by (simp add: untouched_def)

lemma untouched_trans: "untouched t ts w w1 \<Longrightarrow> untouched t ts w1 w2 \<Longrightarrow> untouched t ts w w2"
  by (simp add: untouched_def)

lemma untouched_put:
  assumes "real_dir w t" "fs_lookup w (t @ [c]) = None" "fs_lookup w (t @ [ts]) \<noteq> None"
    "fs_lookup w (t @ [dataDirName]) \<noteq> None"
  shows "untouched t ts w (fs_put (t @ [c]) n w)"
  using assms by (auto simp: untouched_def dir_chain_put)

lemma untouched_del:
  assumes "real_dir w t" "c \<noteq> ts" "c \<noteq> dataDirName"
  shows "untouched t ts w (fs_del_tree (t @ [c]) w)"
  using assms by (auto simp: untouched_def dir_chain_del_tree)

lemma strings_Index_char:
  "c \<notin> set a \<Longrightarrow> strings_Index a [c] = None"
  "c \<notin> set a \<Longrightarrow> strings_Index (a @ c # b) [c] = Some (length a)"
  by (induction a) auto

lemma link_name_rel_path:
  assumes "list_all name_ok (n # ns)"
  shows "link_name (rel_path (n # ns)) = n"
  using assms by (cases ns) (auto simp: link_name_def rel_path_def name_ok_def strings_Index_char)

definition good_paths :: "payload \<Rightarrow> bool" where
  "good_paths ps = list_all (\<lambda>(p, fp). path_elems p \<noteq> [] \<and> list_all name_ok (path_elems p) \<and> p = rel_path (path_elems p)) ps"

lemma good_path_link_name:
  assumes "good_paths ((p, fp) # ps)"
  shows "link_name p = hd (path_elems p)" "name_ok (link_name p)"
proof -
  obtain n ns where "path_elems p = n # ns" "list_all name_ok (n # ns)" "p = rel_path (n # ns)"
    using assms by (cases "path_elems p") (auto simp: good_paths_def)
  then show "link_name p = hd (path_elems p)" "name_ok (link_name p)"
    using link_name_rel_path [of n ns] by simp_all
qed

lemma createUserVisibleFiles_untouched:
  "createUserVisibleFiles (abs_path t) ps w = (e, w') \<Longrightarrow> list_all name_ok t \<Longrightarrow> real_dir w t \<Longrightarrow> good_paths ps \<Longrightarrow>
   fs_lookup w (t @ [ts]) \<noteq> None \<Longrightarrow> fs_lookup w (t @ [dataDirName]) \<noteq> None \<Longrightarrow> untouched t ts w w'"
proof (induction ps arbitrary: w)
  case (Cons a ps)
  obtain p fp where a: "a = (p, fp)" by fastforce
  have ok: "name_ok (link_name p)" "good_paths ps"
    using Cons.prems(4) good_path_link_name(2) a by (auto simp: good_paths_def)
  have j: "filepath_Join [abs_path t, link_name p] = abs_path (t @ [link_name p])" using ok Cons.prems(2) by simp
  note step = Cons.prems(1) [unfolded a createUserVisibleFiles.simps Let_def j]
  show ?case
  proof (cases "\<exists>w1. os_Symlink (filepath_Join [dataDirName, link_name p]) (abs_path (t @ [link_name p])) w = Inr w1 \<and>
      createUserVisibleFiles (abs_path t) ps w1 = (e, w')")
    case True
    then obtain w1 where w1: "os_Symlink (filepath_Join [dataDirName, link_name p]) (abs_path (t @ [link_name p])) w = Inr w1"
        "createUserVisibleFiles (abs_path t) ps w1 = (e, w')" by blast
    have "untouched t ts w w1"
      using os_Symlink_in_dir [OF Cons.prems(2) ok(1) Cons.prems(3) w1(1)] Cons.prems(3,5,6) untouched_put by blast
    moreover from this have "untouched t ts w1 w'"
      using Cons.IH [OF w1(2) Cons.prems(2) _ ok(2)] Cons.prems(5,6) unfolding untouched_def by metis
    ultimately show ?thesis by (rule untouched_trans)
  next
    case False
    then have "w' = w \<or> createUserVisibleFiles (abs_path t) ps w = (e, w')"
      using step by (auto split: sum.splits if_splits)
    then show ?thesis using Cons.IH [OF _ Cons.prems(2,3) ok(2)] Cons.prems(3,5,6) untouched_refl by blast
  qed
qed (simp add: untouched_refl)

lemma remove_paths_untouched:
  "remove_paths (abs_path t) ps le w = (e, w') \<Longrightarrow> list_all name_ok t \<Longrightarrow> real_dir w t \<Longrightarrow> prefix ''..'' ts \<Longrightarrow>
   (\<forall>p \<in> set ps. \<not> strings_Contains p [slash] \<longrightarrow> name_ok p \<and> \<not> prefix ''..'' p) \<Longrightarrow>
   untouched t ts w w' \<and> (\<forall>c. c \<notin> set ps \<longrightarrow> fs_lookup w' (t @ [c]) = fs_lookup w (t @ [c]))"
proof (induction ps arbitrary: w le)
  case (Cons p ps)
  show ?case
  proof (cases "strings_Contains p [slash]")
    case True
    then show ?thesis using Cons by simp
  next
    case False
    have ok: "name_ok p" "p \<noteq> ts" "p \<noteq> dataDirName" using False Cons.prems(4,5) by (auto simp: dataDirName_def)
    have step: "(case os_Remove (abs_path (t @ [p])) w of
        Inl err \<Rightarrow> remove_paths (abs_path t) ps (Some err) w
      | Inr w' \<Rightarrow> remove_paths (abs_path t) ps le w') = (e, w')"
      using Cons.prems(1,2) False ok(1) by simp
    show ?thesis
    proof (cases "os_Remove (abs_path (t @ [p])) w")
      case (Inl err)
      then show ?thesis using step Cons.IH [OF _ Cons.prems(2-4)] Cons.prems(5) by simp
    next
      case (Inr w1)
      have w1: "w1 = fs_del_tree (t @ [p]) w" by (rule os_Remove_in_dir [OF Cons.prems(2) ok(1) Cons.prems(3) Inr])
      have u: "untouched t ts w w1" unfolding w1 by (rule untouched_del [OF Cons.prems(3) ok(2,3)])
      then have "untouched t ts w1 w' \<and> (\<forall>c. c \<notin> set ps \<longrightarrow> fs_lookup w' (t @ [c]) = fs_lookup w1 (t @ [c]))"
        using Cons.IH [of le w1] step Inr Cons.prems(2,4,5) by (simp add: untouched_def)
      then show ?thesis using untouched_trans [OF u] w1 by auto
    qed
  qed
qed (simp add: untouched_refl)

lemma os_RemoveAll_untouched:
  assumes "list_all name_ok t" "real_dir w t" "name_ok old" "old \<noteq> ts" "old \<noteq> dataDirName"
  shows "untouched t ts w (snd (os_RemoveAll (abs_path (t @ [old])) w))"
proof -
  note off = os_RemoveAll_in_dir [OF assms(1,3,2)]
  have "real_dir (snd (os_RemoveAll (abs_path (t @ [old])) w)) t"
  proof (rule dir_chain_cong [OF _ assms(2)])
    fix i
    have "length (take i t) < length (t @ [old])" by simp
    then have "\<not> prefix (t @ [old]) (take i t)" using prefix_length_le by fastforce
    then show "is_dir (fs_lookup w ([] @ take i t)) \<Longrightarrow>
      is_dir (fs_lookup (snd (os_RemoveAll (abs_path (t @ [old])) w)) ([] @ take i t))"
      using off by simp
  qed
  then show ?thesis using off assms(4,5) by (simp add: untouched_def)
qed

text \<open>What step (10) may remove: names of the old version.\<close>

definition removable :: "string list \<Rightarrow> bool" where
  "removable ps = (\<forall>p \<in> set ps. \<not> strings_Contains p [slash] \<longrightarrow> name_ok p \<and> \<not> prefix ''..'' p)"

lemma finish_write_untouched:
  assumes "finish_write (abs_path t) ps rem old w = (e, w')" "list_all name_ok t" "real_dir w t" "good_paths ps"
    "fs_lookup w (t @ [ts]) \<noteq> None" "fs_lookup w (t @ [dataDirName]) \<noteq> None" "prefix ''..'' ts" "removable rem"
    "old \<noteq> [] \<longrightarrow> name_ok old \<and> old \<noteq> ts \<and> old \<noteq> dataDirName"
  shows "untouched t ts w w'"
proof -
  obtain e1 w1 where c: "createUserVisibleFiles (abs_path t) ps w = (e1, w1)" by fastforce
  note u1 = createUserVisibleFiles_untouched [OF c assms(2-6)]
  obtain e2 w2 where r: "remove_paths (abs_path t) rem None w1 = (e2, w2)" by fastforce
  have "untouched t ts w1 w2"
    using remove_paths_untouched [OF r assms(2) _ assms(7)] assms(8) u1 by (simp add: untouched_def removable_def)
  then have u2: "untouched t ts w w2" by (rule untouched_trans [OF u1])
  have "untouched t ts w (snd (os_RemoveAll (abs_path (t @ [old])) w2))" if "old \<noteq> []"
    using untouched_trans [OF u2 os_RemoveAll_untouched] assms(2,9) that u2 by (simp add: untouched_def)
  then show ?thesis
    using assms(1,2,9) c r u1 u2
    by (auto simp: finish_write_def removeUserVisiblePaths_def split: option.splits if_splits)
qed

text \<open>
  \<open>links_ok\<close>: what users see in the target directory are links into \<open>..data\<close>. \<open>visible\<close>: each path
  of the payload has its link.
\<close>

definition data_link :: "string \<Rightarrow> fnode" where
  "data_link c = Symlink (dataDirName @ slash # c)"

definition links_ok :: "fsys \<Rightarrow> fpath \<Rightarrow> bool" where
  "links_ok w t = (\<forall>c. name_ok c \<longrightarrow> \<not> prefix ''..'' c \<longrightarrow> fs_lookup w (t @ [c]) \<in> {None, Some (data_link c)})"

definition visible :: "fpath \<Rightarrow> payload \<Rightarrow> fsys \<Rightarrow> bool" where
  "visible t ps w = (\<forall>(p, fp) \<in> set ps. fs_lookup w (t @ [hd (path_elems p)]) = Some (data_link (hd (path_elems p))))"

definition plain_heads :: "payload \<Rightarrow> bool" where
  "plain_heads ps = list_all (\<lambda>(p, fp). \<not> prefix ''..'' (hd (path_elems p))) ps"

lemma Join_dataDirName:
  assumes "name_ok c"
  shows "filepath_Join [dataDirName, c] = dataDirName @ slash # c"
proof -
  have "split_char slash (dataDirName @ slash # c) = [dataDirName, c]"
    using assms by (simp add: split_char_append split_char_none name_ok_def dataDirName_def)
  moreover have "clean_elems False [dataDirName, c] = [dataDirName, c]"
    using assms by (subst clean_elems_no_dotdot) (auto simp: dataDirName_def name_ok_def)
  ultimately show ?thesis
    by (simp add: filepath_Join_def filepath_Clean_def filepath_IsAbs_def Let_def) (simp add: dataDirName_def)
qed

lemma createUserVisibleFiles_visible:
  "createUserVisibleFiles (abs_path t) ps w = (None, w') \<Longrightarrow> list_all name_ok t \<Longrightarrow> real_dir w t \<Longrightarrow> good_paths ps \<Longrightarrow>
   plain_heads ps \<Longrightarrow> links_ok w t \<Longrightarrow> (\<forall>s. faults w SysReadlink s = None) \<Longrightarrow>
   visible t ps w' \<and> (\<forall>c n. fs_lookup w (t @ [c]) = Some n \<longrightarrow> fs_lookup w' (t @ [c]) = Some n)"
proof (induction ps arbitrary: w)
  case (Cons a ps)
  obtain p fp where a: "a = (p, fp)" by fastforce
  define c where "c = link_name p"
  have c: "c = hd (path_elems p)" "name_ok c" "\<not> prefix ''..'' c" and rest: "good_paths ps" "plain_heads ps"
    using Cons.prems(4,5) good_path_link_name a by (auto simp: good_paths_def plain_heads_def c_def)
  have j: "filepath_Join [abs_path t, c] = abs_path (t @ [c])" using c Cons.prems(2) by simp
  note step = Cons.prems(1) [unfolded a createUserVisibleFiles.simps Let_def, folded c_def, unfolded j Join_dataDirName [OF c(2)]]
  have rl: "os_Readlink w (abs_path (t @ [c])) = (case fs_lookup w (t @ [c]) of
      None \<Rightarrow> Inl (OsError ENOENT (abs_path (t @ [c]))) | Some (Symlink l) \<Rightarrow> Inr l
    | Some _ \<Rightarrow> Inl (OsError EINVAL (abs_path (t @ [c]))))"
    unfolding os_Readlink_def using Cons.prems(7)
    by (subst syscall_in_dir [OF Cons.prems(2) c(2) Cons.prems(3)]) (auto split: option.splits fnode.splits)
  show ?case
  proof (cases "fs_lookup w (t @ [c])")
    case None
    then obtain w1 where w1: "os_Symlink (dataDirName @ slash # c) (abs_path (t @ [c])) w = Inr w1"
        "createUserVisibleFiles (abs_path t) ps w1 = (None, w')"
      using step rl by (auto split: sum.splits if_splits)
    have p1: "w1 = fs_put (t @ [c]) (data_link c) w"
      using os_Symlink_in_dir [OF Cons.prems(2) c(2) Cons.prems(3) w1(1)] by (simp add: data_link_def)
    have "real_dir w1 t" "links_ok w1 t" "\<forall>s. faults w1 SysReadlink s = None"
      using p1 Cons.prems(3,6,7) None by (auto simp: dir_chain_put links_ok_def)
    then have "visible t ps w' \<and> (\<forall>c n. fs_lookup w1 (t @ [c]) = Some n \<longrightarrow> fs_lookup w' (t @ [c]) = Some n)"
      using Cons.IH [OF w1(2) Cons.prems(2) _ rest] by blast
    moreover from this have "fs_lookup w' (t @ [c]) = Some (data_link c)" using p1 by simp
    moreover have "fs_lookup w1 (t @ [d]) = Some n" if "fs_lookup w (t @ [d]) = Some n" for d n using p1 None that by auto
    ultimately show ?thesis using c(1) a by (simp add: visible_def)
  next
    case (Some n)
    then have n: "n = data_link c" using Cons.prems(6) c unfolding links_ok_def by fastforce
    then have "createUserVisibleFiles (abs_path t) ps w = (None, w')" using step rl Some by (simp add: data_link_def)
    then have "visible t ps w' \<and> (\<forall>c n. fs_lookup w (t @ [c]) = Some n \<longrightarrow> fs_lookup w' (t @ [c]) = Some n)"
      using Cons.IH [OF _ Cons.prems(2,3) rest Cons.prems(6,7)] by blast
    then show ?thesis using Some n c(1) a by (auto simp: visible_def)
  qed
qed (simp add: visible_def)

text \<open>No step of the end of a write leaves anything but such links.\<close>

lemma createUserVisibleFiles_links:
  "createUserVisibleFiles (abs_path t) ps w = (e, w') \<Longrightarrow> list_all name_ok t \<Longrightarrow> real_dir w t \<Longrightarrow> good_paths ps \<Longrightarrow>
   links_ok w t \<Longrightarrow> links_ok w' t \<and> real_dir w' t"
proof (induction ps arbitrary: w)
  case (Cons a ps)
  obtain p fp where a: "a = (p, fp)" by fastforce
  have ok: "name_ok (link_name p)" "good_paths ps"
    using Cons.prems(4) good_path_link_name(2) a by (auto simp: good_paths_def)
  have j: "filepath_Join [abs_path t, link_name p] = abs_path (t @ [link_name p])" using ok Cons.prems(2) by simp
  note step = Cons.prems(1) [unfolded a createUserVisibleFiles.simps Let_def j]
  show ?case
  proof (cases "\<exists>w1. os_Symlink (filepath_Join [dataDirName, link_name p]) (abs_path (t @ [link_name p])) w = Inr w1 \<and>
      createUserVisibleFiles (abs_path t) ps w1 = (e, w')")
    case True
    then obtain w1 where w1: "os_Symlink (filepath_Join [dataDirName, link_name p]) (abs_path (t @ [link_name p])) w = Inr w1"
        "createUserVisibleFiles (abs_path t) ps w1 = (e, w')" by blast
    have "fs_lookup w (t @ [link_name p]) = None \<and> w1 = fs_put (t @ [link_name p]) (data_link (link_name p)) w"
      using os_Symlink_in_dir [OF Cons.prems(2) ok(1) Cons.prems(3) w1(1)] Join_dataDirName [OF ok(1)] by (simp add: data_link_def)
    then have "real_dir w1 t" "links_ok w1 t" using Cons.prems(3,5) by (auto simp: dir_chain_put links_ok_def)
    then show ?thesis using Cons.IH [OF w1(2) Cons.prems(2) _ ok(2)] by blast
  next
    case False
    then have "w' = w \<or> createUserVisibleFiles (abs_path t) ps w = (e, w')"
      using step by (auto split: sum.splits if_splits)
    then show ?thesis using Cons.IH [OF _ Cons.prems(2,3) ok(2)] Cons.prems(3,5) by blast
  qed
qed simp

lemma remove_paths_links:
  "remove_paths (abs_path t) ps le w = (e, w') \<Longrightarrow> list_all name_ok t \<Longrightarrow> real_dir w t \<Longrightarrow> removable ps \<Longrightarrow>
   links_ok w t \<Longrightarrow> links_ok w' t \<and> real_dir w' t"
proof (induction ps arbitrary: w le)
  case (Cons p ps)
  then have rem: "removable ps" by (simp add: removable_def)
  show ?case
  proof (cases "strings_Contains p [slash]")
    case True
    then show ?thesis using Cons rem by simp
  next
    case False
    then have ok: "name_ok p" using Cons.prems(4) by (simp add: removable_def)
    have step: "(case os_Remove (abs_path (t @ [p])) w of
        Inl err \<Rightarrow> remove_paths (abs_path t) ps (Some err) w
      | Inr w' \<Rightarrow> remove_paths (abs_path t) ps le w') = (e, w')"
      using Cons.prems(1,2) False ok by simp
    show ?thesis
    proof (cases "os_Remove (abs_path (t @ [p])) w")
      case (Inl err)
      then show ?thesis using step Cons.IH [OF _ Cons.prems(2,3) rem Cons.prems(5)] by simp
    next
      case (Inr w1)
      have "w1 = fs_del_tree (t @ [p]) w" by (rule os_Remove_in_dir [OF Cons.prems(2) ok Cons.prems(3) Inr])
      then have "real_dir w1 t" "links_ok w1 t" using Cons.prems(3,5) by (auto simp: dir_chain_del_tree links_ok_def)
      then show ?thesis using Cons.IH [OF _ Cons.prems(2) _ rem] step Inr by simp
    qed
  qed
qed simp

lemma finish_write_links:
  assumes "finish_write (abs_path t) ps rem old w = (e, w')" "list_all name_ok t" "real_dir w t" "good_paths ps"
    "links_ok w t" "removable rem" "old \<noteq> [] \<longrightarrow> name_ok old \<and> prefix ''..'' old"
  shows "links_ok w' t"
proof -
  obtain e1 w1 e2 w2 where c: "createUserVisibleFiles (abs_path t) ps w = (e1, w1)"
    and r: "remove_paths (abs_path t) rem None w1 = (e2, w2)" by fastforce
  have l1: "links_ok w1 t" "real_dir w1 t" using createUserVisibleFiles_links [OF c assms(2-5)] by simp_all
  have l2: "links_ok w2 t" "real_dir w2 t" using remove_paths_links [OF r assms(2) l1(2) assms(6) l1(1)] by simp_all
  have "links_ok (snd (os_RemoveAll (abs_path (t @ [old])) w2)) t" if "old \<noteq> []"
    unfolding links_ok_def
  proof (intro allI impI)
    fix d assume d: "name_ok d" "\<not> prefix ''..'' d"
    then have "d \<noteq> old" using assms(7) that by auto
    then have "fs_lookup (snd (os_RemoveAll (abs_path (t @ [old])) w2)) (t @ [d]) = fs_lookup w2 (t @ [d])"
      using os_RemoveAll_in_dir [OF assms(2) _ l2(2), of old "t @ [d]"] assms(7) that by simp
    then show "fs_lookup (snd (os_RemoveAll (abs_path (t @ [old])) w2)) (t @ [d]) \<in> {None, Some (data_link d)}"
      using l2(1) d by (simp add: links_ok_def)
  qed
  then show ?thesis
    using assms(1,2,7) c r l1(1) l2(1)
    by (auto simp: finish_write_def removeUserVisiblePaths_def split: option.splits if_splits)
qed

lemma finish_write_visible:
  assumes "finish_write (abs_path t) ps rem old w = (None, w')" "list_all name_ok t" "real_dir w t" "good_paths ps"
    "plain_heads ps" "links_ok w t" "\<forall>s. faults w SysReadlink s = None" "removable rem"
    "\<forall>(p, fp) \<in> set ps. hd (path_elems p) \<notin> set rem" "old \<noteq> [] \<longrightarrow> name_ok old \<and> prefix ''..'' old"
    "fs_lookup w (t @ [ts]) \<noteq> None" "fs_lookup w (t @ [dataDirName]) \<noteq> None" "prefix ''..'' ts"
  shows "visible t ps w'"
proof -
  obtain w1 where c: "createUserVisibleFiles (abs_path t) ps w = (None, w1)"
    using assms(1) by (auto simp: finish_write_def split: prod.splits option.splits)
  note v1 = createUserVisibleFiles_visible [OF c assms(2-7)]
  have rd1: "real_dir w1 t" using createUserVisibleFiles_untouched [OF c assms(2-4,11,12)] by (simp add: untouched_def)
  obtain w2 where r: "remove_paths (abs_path t) rem None w1 = (None, w2)"
    using assms(1) c by (auto simp: finish_write_def removeUserVisiblePaths_def split: prod.splits option.splits)
  note u = remove_paths_untouched [OF r assms(2) rd1 assms(13) assms(8) [unfolded removable_def]]
  have v2: "visible t ps w2" using v1 u assms(9) by (fastforce simp: visible_def)
  show ?thesis
  proof (cases "old = []")
    case True
    then show ?thesis using assms(1) c r v2 by (simp add: finish_write_def removeUserVisiblePaths_def)
  next
    case False
    then have w': "w' = snd (os_RemoveAll (abs_path (t @ [old])) w2)"
      using assms(1,2,10) c r by (simp add: finish_write_def removeUserVisiblePaths_def)
    have "fs_lookup w' (t @ [hd (path_elems p)]) = fs_lookup w2 (t @ [hd (path_elems p)])" if "(p, fp) \<in> set ps" for p fp
    proof -
      have "hd (path_elems p) \<noteq> old" using assms(5,10) False that by (auto simp: plain_heads_def list_all_iff)
      then show ?thesis using os_RemoveAll_in_dir [of t old w2] assms(2,10) False u w' by (simp add: untouched_def)
    qed
    then show ?thesis using v2 by (fastforce simp: visible_def)
  qed
qed

lemma sub_paths_hd:
  "list_all name_ok (n # ns) \<Longrightarrow> n \<in> set (sub_paths (rel_path (n # ns)))"
proof (induction ns rule: rev_induct)
  case Nil
  then show ?case by (subst sub_paths.simps) (auto simp: rel_path_def name_ok_def)
next
  case (snoc m ns)
  have r: "rel_path (n # ns @ [m]) = rel_path (n # ns) @ slash # m"
    using strings_Join_append [of "n # ns" "[m]"] by (simp add: rel_path_def)
  have "strings_TrimSuffix (fst (filepath_Split (rel_path (n # ns @ [m])))) [slash] = rel_path (n # ns)"
    using Split_snoc [of m "rel_path (n # ns)"] snoc.prems by (simp add: r name_ok_def strings_TrimSuffix_def suffix_def)
  then have "sub_paths (rel_path (n # ns @ [m])) = rel_path (n # ns @ [m]) # sub_paths (rel_path (n # ns))"
    by (subst sub_paths.simps) (simp add: r)
  then show ?case using snoc by simp
qed

lemma pathsToRemove_heads:
  assumes "good_paths ps"
  shows "\<forall>(p, fp) \<in> set ps. hd (path_elems p) \<notin> set (pathsToRemove w ps s)"
proof safe
  fix p fp
  assume p: "(p, fp) \<in> set ps" "hd (path_elems p) \<in> set (pathsToRemove w ps s)"
  then have g: "path_elems p \<noteq> []" "list_all name_ok (path_elems p)" "p = rel_path (path_elems p)"
    using assms unfolding good_paths_def list_all_iff by blast+
  have "hd (path_elems p) \<in> set (sub_paths p)"
    using sub_paths_hd [of "hd (path_elems p)" "tl (path_elems p)"] g by (metis list.collapse)
  then have "hd (path_elems p) \<in> set (concat (map (sub_paths \<circ> fst) ps))" using p(1) by force
  then show False using p(2) by (simp add: pathsToRemove_def Let_def)
qed

subsection \<open>A whole write\<close>

lemma written_holds_payload:
  assumes new: "new_dir t ts w w1" and wp: "writePayloadToDir ps (abs_path (t @ [ts])) w1 = (None, w2)"
    and cp: "clean_payload ps"
  shows "holds_payload w2 t ts ps \<and> good_paths ps \<and> link_free w2 (t @ [ts]) \<and> faults w2 = faults w"
proof -
  let ?base = "t @ [ts]"
  have ok: "list_all (\<lambda>(p, fp). list_all name_ok (path_elems p)) ps" using cp by (auto simp: clean_payload_def list_all_iff)
  have W: "grows ?base ((\<lambda>(p, fp). ?base @ path_elems p) ` set ps) w1 w2"
    "\<forall>(p, fp) \<in> set ps. path_elems p \<noteq> [] \<and> (\<exists>tm. fs_lookup w2 (?base @ path_elems p) = Some (File (fp_data fp) (syscallMode (fp_mode fp)) tm))"
    "link_free w2 ?base"
    using writePayloadToDir_below [OF wp _ _ ok clean_payload_distinct [OF cp]] new by (auto simp: new_dir_def)
  have "is_dir (fs_lookup w1 ?base)" using new real_dir_lookup by (auto simp: new_dir_def link_free_def)
  then have nofile: "fs_lookup w1 (t @ ts # q) \<noteq> Some (File c m tm)" for q c m tm
    using new by (cases "q = []") (auto simp: new_dir_def)
  have "(\<exists>tm. fs_lookup w2 (t @ ts # q) = Some (File c m tm)) \<longleftrightarrow>
      (\<exists>(p, fp) \<in> set ps. path_elems p = q \<and> fp_data fp = c \<and> syscallMode (fp_mode fp) = m)" for q c m
  proof (cases "\<exists>(p, fp) \<in> set ps. path_elems p = q")
    case True
    then obtain p fp where p: "(p, fp) \<in> set ps" "path_elems p = q" by auto
    then obtain tm where f: "fs_lookup w2 (t @ ts # q) = Some (File (fp_data fp) (syscallMode (fp_mode fp)) tm)" using W(2) by fastforce
    have u: "fp' = fp" if "(p', fp') \<in> set ps" "path_elems p' = q" for p' fp'
    proof -
      have "p = rel_path q" "p' = rel_path q" using that p cp by (auto simp: clean_payload_def list_all_iff)
      then show ?thesis using that p cp eq_key_imp_eq_value [of ps p fp' fp] by (simp add: clean_payload_def)
    qed
    have "(\<exists>(p, fp) \<in> set ps. path_elems p = q \<and> fp_data fp = c \<and> syscallMode (fp_mode fp) = m) \<longleftrightarrow> fp_data fp = c \<and> syscallMode (fp_mode fp) = m"
      using p u by blast
    then show ?thesis using f by simp
  next
    case False
    then have "t @ ts # q \<notin> (\<lambda>(p, fp). ?base @ path_elems p) ` set ps" by auto
    then have "fs_lookup w2 (t @ ts # q) = fs_lookup w1 (t @ ts # q) \<or> is_dir (fs_lookup w2 (t @ ts # q))"
      using W(1) unfolding grows_def by blast
    then have "fs_lookup w2 (t @ ts # q) \<noteq> Some (File c m tm)" for tm using nofile [of q c m tm] by auto
    then show ?thesis using False by auto
  qed
  moreover have "good_paths ps \<and> link_free w2 (t @ [ts]) \<and> faults w2 = faults w"
    using W(2) W(1) W(3) new cp by (auto simp: good_paths_def clean_payload_def list_all_iff grows_def new_dir_def)
  ultimately show ?thesis by (simp add: holds_payload_def)
qed

lemma same_versionI:
  assumes "volume_ok w t" and "fs_lookup w (t @ [ts]) = None" and "ts \<noteq> dataDirName"
    and "\<And>q. \<not> prefix (t @ [ts]) q \<Longrightarrow> \<not> (fs_lookup w (t @ [newDataDirName]) = None \<and> prefix (t @ [newDataDirName]) q) \<Longrightarrow>
      fs_lookup w' q = fs_lookup w q"
  shows "same_version t w w'"
proof -
  have "fs_lookup w' (t @ [dataDirName]) = fs_lookup w (t @ [dataDirName])"
    using assms(3) assms(4) [of "t @ [dataDirName]"] dataDirName_ok(3) by simp
  moreover have "fs_lookup w' (t @ v # q) = fs_lookup w (t @ v # q)" if "current_version w t = Some v" for v q
  proof -
    have "is_dir (fs_lookup w (t @ [v]))" using assms(1) that by (simp add: volume_ok_def)
    then have "v \<noteq> ts" "fs_lookup w (t @ [newDataDirName]) = None \<Longrightarrow> v \<noteq> newDataDirName" using assms(2) by auto
    then show ?thesis using assms(4) [of "t @ v # q"] by auto
  qed
  ultimately show ?thesis by (simp add: same_version_def current_version_def)
qed

lemma real_dir_off:
  assumes "real_dir w t" and "\<And>q. length q \<le> length t \<Longrightarrow> fs_lookup w' q = fs_lookup w q"
  shows "real_dir w' t"
  by (rule dir_chain_cong [OF _ assms(1)]) (simp add: assms(2))

text \<open>The state once the version \<open>ts\<close> is in force, and when the links of a payload become visible.\<close>

definition in_force :: "fpath \<Rightarrow> string \<Rightarrow> payload \<Rightarrow> fsys \<Rightarrow> fsys \<Rightarrow> bool" where
  "in_force t ts ps w w' =
     (fs_lookup w (t @ [ts]) = None \<and> current_version w' t = Some ts \<and> holds_payload w' t ts ps \<and>
      link_free w' (t @ [ts]) \<and> name_ok ts \<and> faults w' = faults w \<and> good_paths ps)"

definition shows_links :: "fpath \<Rightarrow> payload \<Rightarrow> fsys \<Rightarrow> bool" where
  "shows_links t ps w = (plain_heads ps \<and> links_ok w t \<and> (\<forall>s. faults w SysReadlink s = None))"

lemma link_free_cong:
  assumes "link_free w base" "real_dir w' base" "\<And>q. prefix base q \<Longrightarrow> fs_lookup w' q = fs_lookup w q"
  shows "link_free w' base"
proof -
  have "fs_lookup w' (q @ [c]) = fs_lookup w (q @ [c])" if "prefix base q" for q c
    using assms(3) [of "q @ [c]"] that by simp
  then show ?thesis using assms by (simp add: link_free_def)
qed

text \<open>Writing the payload of a new version changes nothing outside its directory.\<close>

lemma new_version_off:
  assumes "new_dir t ts w w1" "clean_payload ps" "writePayloadToDir ps (abs_path (t @ [ts])) w1 = (e2, w2)"
  shows "\<not> prefix (t @ [ts]) q \<Longrightarrow> fs_lookup w2 q = fs_lookup w q" and "is_dir (fs_lookup w2 (t @ [ts]))"
proof -
  have lf: "link_free w1 (t @ [ts])" and g: "grows (t @ [ts]) {t @ [ts]} w w1" using assms(1) by (auto simp: new_dir_def)
  have "list_all (\<lambda>(p, fp). list_all name_ok (path_elems p)) ps" using assms(2) by (auto simp: clean_payload_def list_all_iff)
  note g2 = writePayloadToDir_below [OF assms(3) lf _ this clean_payload_distinct [OF assms(2)]]
  show "\<not> prefix (t @ [ts]) q \<Longrightarrow> fs_lookup w2 q = fs_lookup w q" using grows_off [OF g] g2 grows_off by fastforce
  show "is_dir (fs_lookup w2 (t @ [ts]))" using g2 real_dir_lookup unfolding link_free_def by blast
qed

lemma old_version_name:
  assumes "volume_ok w t" "current_version w t = Some old" "fs_lookup w (t @ [ts]) = None"
  shows "name_ok old \<and> prefix ''..'' old \<and> old \<noteq> ts \<and> old \<noteq> dataDirName"
proof -
  have "name_ok old" "prefix ''..'' old" "is_dir (fs_lookup w (t @ [old]))" using assms by (auto simp: volume_ok_def)
  then show ?thesis using assms(2,3) by (auto simp: current_version_def split: option.splits fnode.splits)
qed

text \<open>After the switch of the link the new version is in force, and stays so while the write is finished.\<close>

lemma untouched_in_force:
  assumes "untouched t ts w3 w'" "fs_lookup w3 (t @ [dataDirName]) = Some (Symlink ts)" "faults w3 = faults w2"
    and same: "\<And>q. fs_lookup w3 (t @ ts # q) = fs_lookup w2 (t @ ts # q)"
    and "fs_lookup w (t @ [ts]) = None" "name_ok ts"
    and hp: "holds_payload w2 t ts ps" "good_paths ps" "link_free w2 (t @ [ts])" "faults w2 = faults w"
  shows "in_force t ts ps w w'"
proof -
  have all: "fs_lookup w' (t @ ts # q) = fs_lookup w2 (t @ ts # q)" for q using assms(1) same by (simp add: untouched_def)
  have "real_dir w' (t @ [ts])" using assms(1) all [of "[]"] hp(3) by (simp add: untouched_def link_free_def dir_chain_append)
  then have "link_free w' (t @ [ts])" using link_free_cong [OF hp(3)] all by (auto simp: prefix_def)
  moreover have "current_version w' t = Some ts" "holds_payload w' t ts ps" "faults w' = faults w"
    using assms(1-3) hp(1,4) all by (auto simp: untouched_def current_version_def holds_payload_def)
  ultimately show ?thesis using assms(5,6) hp(2) by (simp add: in_force_def)
qed

lemma switched_in_force:
  assumes vol: "volume_ok w t" and cp: "clean_payload ps" and rem: "removable rem"
    and old: "old \<noteq> [] \<longrightarrow> current_version w t = Some old"
    and heads: "good_paths ps \<longrightarrow> (\<forall>(p, fp) \<in> set ps. hd (path_elems p) \<notin> set rem)"
    and new: "new_dir t ts w w1" and wp: "writePayloadToDir ps (abs_path (t @ [ts])) w1 = (None, w2)"
    and sw: "switch_link (abs_path t) (abs_path (t @ [ts])) w2 = (None, w3)"
    and fin: "finish_write (abs_path t) ps rem old w3 = (e, w')"
  shows "in_force t ts ps w w' \<and> (e = None \<longrightarrow> shows_links t ps w \<longrightarrow> visible t ps w' \<and> links_ok w' t)"
proof -
  have t: "list_all name_ok t" "real_dir w t" using vol by (auto simp: volume_ok_def)
  have ts: "name_ok ts" "prefix ''..'' ts" "ts \<noteq> dataDirName" "ts \<noteq> newDataDirName" "fs_lookup w (t @ [ts]) = None"
    using new by (auto simp: new_dir_def)
  note off = new_version_off [OF new cp wp]
  have short: "length q \<le> length t \<Longrightarrow> \<not> prefix (t @ [c]) q" for q c using prefix_length_le by fastforce
  have rd2: "real_dir w2 t" using real_dir_off [OF t(2)] off(1) short by blast
  note swc = switch_link_cases [OF t(1) rd2 ts(1) sw]
  have rd3: "real_dir w3 t" by (rule real_dir_off [OF rd2]) (use swc short in blast)
  have hp: "holds_payload w2 t ts ps" "good_paths ps" "link_free w2 (t @ [ts])" "faults w2 = faults w"
    using written_holds_payload [OF new _ cp] wp by blast+
  have same: "fs_lookup w3 (t @ ts # q) = fs_lookup w2 (t @ ts # q)" for q using swc ts(3,4) by auto
  have data: "fs_lookup w3 (t @ [dataDirName]) = Some (Symlink ts)" using swc by blast
  have ex: "fs_lookup w3 (t @ [ts]) \<noteq> None" using same [of "[]"] off(2) by (auto elim: is_dirE)
  have old': "old \<noteq> [] \<longrightarrow> name_ok old \<and> prefix ''..'' old \<and> old \<noteq> ts \<and> old \<noteq> dataDirName"
    using old_version_name [OF vol _ ts(5)] old by blast
  have "untouched t ts w3 w'"
    using finish_write_untouched [OF fin t(1) rd3 hp(2) ex _ ts(2) rem] data old' by simp
  then have "in_force t ts ps w w'" by (rule untouched_in_force [OF _ data _ same ts(5,1) hp]) (use swc in blast)
  moreover have "visible t ps w' \<and> links_ok w' t" if e: "e = None" and sl: "shows_links t ps w"
  proof -
    have "fs_lookup w3 (t @ [c]) = fs_lookup w (t @ [c])" if "\<not> prefix ''..'' c" for c
    proof -
      have "c \<noteq> ts" "c \<noteq> dataDirName" "c \<noteq> newDataDirName"
        using that ts(2) by (auto simp: dataDirName_def newDataDirName_def)
      then show ?thesis using off(1) [of "t @ [c]"] swc by simp
    qed
    then have "links_ok w3 t" using sl by (simp add: shows_links_def links_ok_def)
    moreover from this have "links_ok w' t" using finish_write_links [OF fin t(1) rd3 hp(2) _ rem] old' by simp
    ultimately show ?thesis
      using finish_write_visible [OF _ t(1) rd3 hp(2) _ _ _ rem _ _ ex _ ts(2)] fin e sl heads old' data hp(2,4) swc
      by (simp add: shows_links_def)
  qed
  ultimately show ?thesis by blast
qed

text \<open>A failing switch leaves the version that was in force.\<close>

lemma failed_switch_same:
  assumes vol: "volume_ok w t" and cp: "clean_payload ps" and new: "new_dir t ts w w1"
    and wp: "writePayloadToDir ps (abs_path (t @ [ts])) w1 = (None, w2)"
    and sw: "switch_link (abs_path t) (abs_path (t @ [ts])) w2 = (Some err, w3)"
  shows "same_version t w w3"
proof -
  have t: "list_all name_ok t" "real_dir w t" using vol by (auto simp: volume_ok_def)
  have ts: "name_ok ts" "ts \<noteq> dataDirName" "ts \<noteq> newDataDirName" "fs_lookup w (t @ [ts]) = None"
    using new by (auto simp: new_dir_def)
  note off = new_version_off(1) [OF new cp wp]
  have "real_dir w2 t" by (rule real_dir_off [OF t(2) off]) (use prefix_length_le in fastforce)
  note swc = switch_link_cases [OF t(1) this ts(1) sw]
  have "fs_lookup w2 (t @ [newDataDirName]) = fs_lookup w (t @ [newDataDirName])" using off ts(3) by simp
  then show ?thesis by (intro same_versionI [OF vol ts(4,2)]) (use swc off in auto)
qed

lemma write_new_version_cases:
  assumes vol: "volume_ok w t" and cp: "clean_payload ps" and rem: "removable rem"
    and old: "old \<noteq> [] \<longrightarrow> current_version w t = Some old"
    and heads: "good_paths ps \<longrightarrow> (\<forall>(p, fp) \<in> set ps. hd (path_elems p) \<notin> set rem)"
    and wr: "write_new_version (abs_path t) ps rem old w = (e, w')"
  shows "e \<noteq> None \<and> same_version t w w' \<or>
    (\<exists>ts. in_force t ts ps w w' \<and> (e = None \<longrightarrow> shows_links t ps w \<longrightarrow> visible t ps w' \<and> links_ok w' t))"
proof -
  obtain r w1 where n: "newTimestampDir (abs_path t) w = (r, w1)" by fastforce
  consider "w1 = w" "\<exists>e. r = Inl e" | ts e1 where "new_dir t ts w w1" "r = Inl e1"
    | ts where "new_dir t ts w w1" "r = Inr (abs_path (t @ [ts]))"
    using newTimestampDir_new [OF vol n] by blast
  then show ?thesis
  proof cases
    case 1
    then show ?thesis using wr n by (auto simp: write_new_version_def same_version_def)
  next
    case 2
    then have "same_version t w w1" using same_versionI [OF vol] grows_off unfolding new_dir_def by blast
    then show ?thesis using wr n 2 by (auto simp: write_new_version_def)
  next
    case 3
    obtain e2 w2 e3 w3 where wp: "writePayloadToDir ps (abs_path (t @ [ts])) w1 = (e2, w2)"
      and sw: "switch_link (abs_path t) (abs_path (t @ [ts])) w2 = (e3, w3)" by fastforce
    have ts: "ts \<noteq> dataDirName" "fs_lookup w (t @ [ts]) = None" using 3(1) by (auto simp: new_dir_def)
    have "same_version t w w2" by (rule same_versionI [OF vol ts(2,1)]) (use new_version_off [OF 3(1) cp wp] in blast)
    moreover have "e3 = Some err \<Longrightarrow> e2 = None \<Longrightarrow> same_version t w w3" for err
      using failed_switch_same [OF vol cp 3(1)] wp sw by blast
    moreover have "finish_write (abs_path t) ps rem old w3 = (e, w') \<Longrightarrow> e2 = None \<Longrightarrow> e3 = None \<Longrightarrow> ?thesis"
      using switched_in_force [OF vol cp rem old heads 3(1)] wp sw by blast
    ultimately show ?thesis
      using wr n 3 wp sw by (cases e2; cases e3) (auto simp: write_new_version_def)
  qed
qed

lemma pathsToRemove_removable:
  assumes vol: "volume_ok w t" and cv: "current_version w t = Some old"
  shows "removable (pathsToRemove w ps (filepath_Join [abs_path t, old]))"
proof -
  have t: "list_all name_ok t" "real_dir w t" and old: "name_ok old" "is_dir (fs_lookup w (t @ [old]))"
    using vol cv by (auto simp: volume_ok_def)
  have res: "fs_resolve False w (abs_path (t @ [old])) = Inr (t @ [old])"
    using fs_resolve_in_dir [OF t(1) old(1) t(2)] by simp
  have "name_ok p \<and> \<not> prefix ''..'' p"
    if p: "p \<in> set (walk_old_paths w (abs_path (t @ [old])))" "\<not> strings_Contains p [slash]" for p
  proof -
    obtain q where q: "q \<in> set (walk_below w (t @ [old]))" "q \<noteq> t @ [old]" "p = strings_Join (drop (length (t @ [old])) q) [slash]"
      using p(1) res by (auto simp: walk_old_paths_def Let_def split: sum.splits if_splits)
    obtain cs where cs: "q = t @ old # cs" "cs \<noteq> []" using q(1,2) by (auto simp: walk_below_def prefix_def)
    have "fs_lookup w q \<noteq> None" using q(1) cs by (auto simp: walk_below_def fs_lookup_def map_of_eq_None_iff)
    moreover obtain c where "cs = [c]"
    proof (cases cs)
      case (Cons c ds)
      have "ds = []"
      proof (rule ccontr)
        assume "ds \<noteq> []"
        then have "p = c @ [slash] @ strings_Join ds [slash]" using q(3) cs(1) Cons by (simp add: strings_Join_Cons)
        then show False using strings_Index_None [of p "[slash]"] p(2) by (auto simp: strings_Contains_def)
      qed
      then show ?thesis using that Cons by simp
    qed (use cs in simp)
    ultimately have "fs_lookup w (t @ [old, c]) \<noteq> None" "p = c" using q(3) cs(1) by auto
    then show ?thesis using vol cv unfolding volume_ok_def by blast
  qed
  then show ?thesis using t(1) old(1) by (auto simp: removable_def pathsToRemove_def Let_def)
qed

lemma Readlink_current_version:
  assumes "volume_ok w t" "os_Readlink w (abs_path (t @ [dataDirName])) = Inr old"
  shows "current_version w t = Some old" "old \<noteq> []"
proof -
  have t: "list_all name_ok t" "real_dir w t" using assms(1) by (auto simp: volume_ok_def)
  show cv: "current_version w t = Some old"
    using assms(2) fs_resolve_in_dir [OF t(1) dataDirName_ok(1) t(2), of False]
    by (auto simp: os_Readlink_def syscall_def current_version_def split: option.splits sum.splits fnode.splits)
  show "old \<noteq> []" using cv assms(1) by (auto simp: volume_ok_def name_ok_def)
qed

lemma Write_cases:
  assumes vol: "volume_ok w t" and wr: "AtomicWriter_Write (abs_path t) payload w = (e, w')"
  obtains (failed) "e \<noteq> None" "same_version t w w'"
  | (current) clean old where "e = None" "w' = w" "validatePayload payload = Inr clean" "current_version w t = Some old"
      "shouldWritePayload w clean (filepath_Join [abs_path t, old]) = Inr False"
      "pathsToRemove w clean (filepath_Join [abs_path t, old]) = []"
  | (switched) clean ts where "validatePayload payload = Inr clean" "in_force t ts clean w w'"
      "e = None \<longrightarrow> shows_links t clean w \<longrightarrow> visible t clean w' \<and> links_ok w' t"
proof (cases "validatePayload payload")
  case (Inl err)
  then have "e = Some err" "w' = w" using wr by (simp_all add: AtomicWriter_Write_def)
  then show ?thesis using failed by (simp add: same_version_def)
next
  case (Inr clean)
  note cp = validatePayload_clean [OF Inr]
  have j: "filepath_Join [abs_path t, dataDirName] = abs_path (t @ [dataDirName])" using vol by (simp add: volume_ok_def)
  have new: ?thesis if "write_new_version (abs_path t) clean rem old w = (e, w')" "removable rem"
      "old \<noteq> [] \<longrightarrow> current_version w t = Some old"
      "good_paths clean \<longrightarrow> (\<forall>(p, fp) \<in> set clean. hd (path_elems p) \<notin> set rem)" for rem old
    using write_new_version_cases [OF vol cp that(2,3,4,1)] failed switched Inr by blast
  have same: "same_version t w w" by (simp add: same_version_def)
  show ?thesis
  proof (cases "os_Readlink w (abs_path (t @ [dataDirName]))")
    case (Inl err)
    then show ?thesis
      using wr Inr j new [of "[]" "[]"] failed same
      by (auto simp: AtomicWriter_Write_def Let_def removable_def split: if_splits)
  next
    case link: (Inr old)
    note cv = Readlink_current_version [OF vol link]
    let ?old = "filepath_Join [abs_path t, old]"
    have step: "(case shouldWritePayload w clean ?old of
        Inl err \<Rightarrow> (Some err, w)
      | Inr should \<Rightarrow>
          if \<not> should \<and> pathsToRemove w clean ?old = [] then (None, w)
          else write_new_version (abs_path t) clean (pathsToRemove w clean ?old) old w) = (e, w')"
      using wr Inr j link cv(2) by (simp add: AtomicWriter_Write_def Let_def)
    show ?thesis
    proof (cases "shouldWritePayload w clean ?old")
      case (Inl err)
      then have "e = Some err" "w' = w" using step by simp_all
      then show ?thesis using failed same by blast
    next
      case should: (Inr should)
      show ?thesis
      proof (cases "\<not> should \<and> pathsToRemove w clean ?old = []")
        case True
        then show ?thesis using step should current [OF _ _ Inr cv(1)] by simp
      next
        case False
        then show ?thesis
          using step should new [OF _ pathsToRemove_removable [OF vol cv(1)]] cv(1) pathsToRemove_heads
          by (simp split: if_splits)
      qed
    qed
  qed
qed

subsection \<open>Reading a version\<close>

lemma link_free_chain:
  "link_free w base \<Longrightarrow> fs_lookup w (base @ cs) \<noteq> None \<Longrightarrow> list_all name_ok cs \<Longrightarrow> dir_chain w base (butlast cs)"
proof (induction cs rule: rev_induct)
  case (snoc c cs)
  have d: "is_dir (fs_lookup w (base @ cs))" using snoc.prems(1,2) unfolding link_free_def by (metis append_assoc prefixI)
  then have ch: "dir_chain w base (butlast cs)" using snoc by (auto elim: is_dirE)
  have "dir_chain w base cs"
  proof (cases cs rule: rev_cases)
    case (snoc ds x)
    then show ?thesis using ch d \<open>list_all name_ok (cs @ [c])\<close> by (auto simp: dir_chain_append name_ok_def)
  qed simp
  then show ?case by simp
qed simp

lemma resolve_in_version:
  assumes "link_free w base" "fs_lookup w (base @ cs) = Some (File d m tm)" "list_all name_ok cs" "cs \<noteq> []"
  shows "resolve True n w base cs = Inr (base @ cs)"
proof -
  have "resolve True n w base (butlast cs @ [last cs]) = resolve True n w (base @ butlast cs) [last cs]"
    using assms by (intro resolve_dir_chain link_free_chain) simp_all
  also have "\<dots> = Inr (base @ butlast cs @ [last cs])"
    using resolve_last [of "last cs" True w "base @ butlast cs" n] assms by (auto simp: list_all_iff name_ok_def)
  finally show ?thesis using assms(4) by simp
qed

lemma ReadFile_in_version:
  assumes "link_free w base" "fs_lookup w (base @ cs) = Some (File d m tm)" "list_all name_ok cs" "cs \<noteq> []"
    and "faults w SysRead (abs_path (base @ cs)) = None"
  shows "os_ReadFile w (abs_path (base @ cs)) = Inr d"
proof -
  have "fs_resolve True w (abs_path (base @ cs)) = Inr (base @ cs)"
    using resolve_in_version [OF assms(1-4)] assms(1,3) resolve_dir_chain [of w "[]" base True max_symlinks cs]
    by (simp add: fs_resolve_def link_free_def)
  then show ?thesis using assms(2,5) by (simp add: os_ReadFile_def syscall_def)
qed

text \<open>The user's path goes through the links \<open>n\<close> to \<open>..data/n\<close> and \<open>..data\<close> to the version.\<close>

lemma ReadFile_visible:
  assumes lf: "link_free w (t @ [ts])" and fl: "fs_lookup w (t @ ts # n # ns) = Some (File d m tm)"
    and ok: "list_all name_ok (n # ns)" and cv: "current_version w t = Some ts"
    and link: "fs_lookup w (t @ [n]) = Some (data_link n)" and "faults w SysRead (abs_path (t @ n # ns)) = None"
  shows "os_ReadFile w (abs_path (t @ n # ns)) = Inr d"
proof -
  have t: "list_all name_ok t" "real_dir w t" "name_ok ts" and dir: "is_dir (fs_lookup w (t @ [ts]))"
    using lf by (auto simp: link_free_def dir_chain_append)
  have n: "name_ok n" "n \<noteq> ''..''" using ok by (simp_all add: name_ok_def)
  have data: "fs_lookup w (t @ [dataDirName]) = Some (Symlink ts)"
    using cv by (simp add: current_version_def split: option.splits fnode.splits)
  have el: "path_elems (dataDirName @ slash # n) = [dataDirName, n]" "path_elems ts = [ts]"
    using n t(3) by (simp_all add: path_elems_append path_elems_name)
  have rel: "\<not> filepath_IsAbs (dataDirName @ slash # n)" "\<not> filepath_IsAbs ts"
    using t(3) by (auto simp: filepath_IsAbs_def dataDirName_def name_ok_def prefix_def)
  have dots: "dataDirName \<noteq> ''..''" "ts \<noteq> ''..''" using t(3) by (auto simp: dataDirName_def name_ok_def)
  have "resolve True max_symlinks w [] (t @ n # ns) = resolve True 40 w t (n # ns)"
    using resolve_dir_chain [OF t(2)] by (simp add: max_symlinks_def)
  also have "\<dots> = resolve True 39 w t (dataDirName # n # ns)"
    using link el(1) rel(1) n(2) by (subst resolve.simps(2)) (simp add: data_link_def)
  also have "\<dots> = resolve True 38 w t (ts # n # ns)"
    using data el(2) rel(2) dots(1) by (subst resolve.simps(2)) simp
  also have "\<dots> = resolve True 38 w (t @ [ts]) (n # ns)"
    using dir dots(2) by (subst resolve.simps(2)) (auto elim!: is_dirE)
  also have "\<dots> = Inr ((t @ [ts]) @ n # ns)" using resolve_in_version [OF lf _ ok] fl by simp
  finally have "fs_resolve True w (abs_path (t @ n # ns)) = Inr (t @ ts # n # ns)" using t(1) ok by (simp add: fs_resolve_def)
  then show ?thesis using fl assms(6) by (simp add: os_ReadFile_def syscall_def)
qed

lemma shouldWritePayload_False:
  "shouldWritePayload w ps s = Inr False \<Longrightarrow> (p, fp) \<in> set ps \<Longrightarrow> os_ReadFile w (filepath_Join [s, p]) = Inr (fp_data fp)"
  by (induction ps) (auto simp: shouldWriteFile_def Let_def split: sum.splits bool.splits if_splits)

lemma in_force_file:
  assumes "in_force t ts ps w w'" and "(p, fp) \<in> set ps"
  obtains n ns tm where "path_elems p = n # ns" "list_all name_ok (n # ns)"
    "fs_lookup w' (t @ ts # n # ns) = Some (File (fp_data fp) (syscallMode (fp_mode fp)) tm)"
proof -
  have g: "path_elems p \<noteq> []" "list_all name_ok (path_elems p)"
    using assms unfolding in_force_def good_paths_def list_all_iff by blast+
  moreover have "\<exists>tm. fs_lookup w' (t @ ts # path_elems p) = Some (File (fp_data fp) (syscallMode (fp_mode fp)) tm)"
    using assms unfolding in_force_def holds_payload_def by blast
  ultimately show ?thesis using that by (cases "path_elems p") auto
qed

lemma in_force_reads:
  assumes vol: "list_all name_ok t" and f: "in_force t ts ps w w'" and p: "(p, fp) \<in> set ps"
    and rd: "\<forall>s. faults w SysRead s = None"
  shows "os_ReadFile w' (filepath_Join [filepath_Join [abs_path t, ts], p]) = Inr (fp_data fp)"
    and "visible t ps w' \<Longrightarrow> os_ReadFile w' (filepath_Join [abs_path t, p]) = Inr (fp_data fp)"
proof -
  obtain n ns tm where n: "path_elems p = n # ns" "list_all name_ok (n # ns)"
    "fs_lookup w' (t @ ts # n # ns) = Some (File (fp_data fp) (syscallMode (fp_mode fp)) tm)" using in_force_file [OF f p] .
  have ts: "name_ok ts" "link_free w' (t @ [ts])" "faults w' = faults w" "current_version w' t = Some ts"
    using f by (auto simp: in_force_def)
  have dd: "''..'' \<notin> set (n # ns)" using n(2) by (auto simp: list_all_iff name_ok_def)
  have j: "filepath_Join [abs_path (t @ [ts]), p] = abs_path ((t @ [ts]) @ n # ns)" "filepath_Join [abs_path t, p] = abs_path (t @ n # ns)"
    using Join_abs_path [of "t @ [ts]" p] Join_abs_path [of t p] vol ts(1) n(1) dd by simp_all
  show "os_ReadFile w' (filepath_Join [filepath_Join [abs_path t, ts], p]) = Inr (fp_data fp)"
    using ReadFile_in_version [OF ts(2) _ n(2)] n(3) rd ts(1,3) vol j(1) by simp
  assume "visible t ps w'"
  then have "fs_lookup w' (t @ [n]) = Some (data_link n)" using p n(1) by (fastforce simp: visible_def)
  then show "os_ReadFile w' (filepath_Join [abs_path t, p]) = Inr (fp_data fp)"
    using ReadFile_visible [OF ts(2) n(3,2) ts(4)] rd ts(3) j(2) by simp
qed

lemma resolve_link_free:
  "link_free w base \<Longrightarrow> prefix base cur \<Longrightarrow> list_all name_ok cs \<Longrightarrow> resolve True n w cur cs = Inr p \<Longrightarrow> p = cur @ cs"
proof (induction cs arbitrary: cur)
  case (Cons c cs)
  have "\<not> is_link (fs_lookup w (cur @ [c]))" using Cons.prems(1,2) by (simp add: link_free_def)
  then show ?case
    using Cons.prems Cons.IH [of "cur @ [c]"]
    by (auto simp: resolve.simps(2) name_ok_def split: option.splits fnode.splits if_splits)
qed simp

lemma ReadFile_link_free:
  assumes "link_free w base" "list_all name_ok cs" "os_ReadFile w (abs_path (base @ cs)) = Inr d"
  shows "cs \<noteq> [] \<and> (\<exists>m tm. fs_lookup w (base @ cs) = Some (File d m tm))"
proof -
  obtain p where p: "fs_resolve True w (abs_path (base @ cs)) = Inr p" "\<exists>m tm. fs_lookup w p = Some (File d m tm)"
    using assms(3) by (auto simp: os_ReadFile_def syscall_def split: option.splits sum.splits fnode.splits)
  have "resolve True max_symlinks w base cs = Inr p"
    using p(1) assms(1,2) resolve_dir_chain [of w "[]" base True max_symlinks cs]
    by (auto simp: fs_resolve_def link_free_def split: if_splits)
  then have "p = base @ cs" using resolve_link_free [OF assms(1) _ assms(2)] by simp
  moreover have "is_dir (fs_lookup w base)" using assms(1) real_dir_lookup by (auto simp: link_free_def)
  ultimately show ?thesis using p(2) by auto
qed

text \<open>
  A volume whose links are complete: below the target directory there are only links into \<open>..data\<close>,
  the version in force holds no links, and each of its files has the link that leads to it.
\<close>

definition synced :: "fsys \<Rightarrow> fpath \<Rightarrow> bool" where
  "synced w t \<longleftrightarrow> links_ok w t \<and>
     (\<forall>v. current_version w t = Some v \<longrightarrow> link_free w (t @ [v]) \<and>
        (\<forall>c q d m tm. fs_lookup w (t @ v # c # q) = Some (File d m tm) \<longrightarrow> fs_lookup w (t @ [c]) = Some (data_link c)))"

lemma synced_reads:
  assumes "synced w t" "current_version w t = Some v" "list_all name_ok t" "name_ok v" "list_all name_ok (path_elems p)"
    and "os_ReadFile w (filepath_Join [filepath_Join [abs_path t, v], p]) = Inr d" "\<forall>s. faults w SysRead s = None"
  shows "os_ReadFile w (filepath_Join [abs_path t, p]) = Inr d"
proof -
  have lf: "link_free w (t @ [v])" using assms(1,2) by (simp add: synced_def)
  have "''..'' \<notin> set (path_elems p)" using assms(5) by (auto simp: list_all_iff name_ok_def)
  then have j: "filepath_Join [abs_path (t @ [v]), p] = abs_path ((t @ [v]) @ path_elems p)"
    "filepath_Join [abs_path t, p] = abs_path (t @ path_elems p)"
    using Join_abs_path [of "t @ [v]" p] Join_abs_path [of t p] assms(3,4) by simp_all
  obtain n ns m tm where n: "path_elems p = n # ns" "fs_lookup w (t @ v # n # ns) = Some (File d m tm)"
    using ReadFile_link_free [OF lf assms(5)] assms(3,4,6) j(1) by (cases "path_elems p") auto
  then have "fs_lookup w (t @ [n]) = Some (data_link n)" using assms(1,2) unfolding synced_def by blast
  then show ?thesis using ReadFile_visible [OF lf n(2) _ assms(2)] assms(5,7) n(1) j(2) by simp
qed

lemma in_force_synced:
  assumes "in_force t ts ps w w'" "visible t ps w'" "links_ok w' t"
  shows "synced w' t"
  using assms by (fastforce simp: synced_def in_force_def holds_payload_def visible_def)

lemma Write_reads_back:
  assumes "volume_ok w t" and "AtomicWriter_Write (abs_path t) payload w = (None, w')"
    and "\<forall>s. faults w SysRead s = None"
  shows "\<exists>clean v. validatePayload payload = Inr clean \<and> current_version w' t = Some v \<and>
    (\<forall>(p, fp) \<in> set clean. os_ReadFile w' (filepath_Join [filepath_Join [abs_path t, v], p]) = Inr (fp_data fp)) \<and>
    (synced w t \<longrightarrow> plain_heads clean \<longrightarrow> (\<forall>s. faults w SysReadlink s = None) \<longrightarrow>
       (\<forall>(p, fp) \<in> set clean. os_ReadFile w' (filepath_Join [abs_path t, p]) = Inr (fp_data fp)) \<and> synced w' t)"
  using assms(1,2)
proof (cases rule: Write_cases)
  case (current clean old)
  have t: "list_all name_ok t" "name_ok old" using assms(1) current(4) by (auto simp: volume_ok_def)
  have "list_all name_ok (path_elems p)" if "(p, fp) \<in> set clean" for p fp
    using validatePayload_clean [OF current(3)] that by (auto simp: clean_payload_def list_all_iff)
  then show ?thesis
    using current shouldWritePayload_False [OF current(5)] synced_reads [OF _ current(4) t] assms(3) by blast
next
  case (switched clean ts)
  have t: "list_all name_ok t" using assms(1) by (simp add: volume_ok_def)
  have cv: "current_version w' t = Some ts" using switched(2) by (simp add: in_force_def)
  have "visible t clean w' \<and> links_ok w' t" if "synced w t" "plain_heads clean" "\<forall>s. faults w SysReadlink s = None"
    using switched(3) that by (simp add: shows_links_def synced_def)
  then show ?thesis
    using switched(1) cv in_force_reads [OF t switched(2) _ assms(3)] in_force_synced [OF switched(2)] by blast
qed simp

subsection \<open>A volume\<close>

definition demo_volume :: fsys where
  "demo_volume = \<lparr>entries = [([''v''], Dir 493)], umask = 18, clock = 7, utc = \<lparr>year = 2024, month = 2, day = 3, hour = 4, minute = 5, second = 6\<rparr>,
     rand_suffixes = [''1''], faults = (\<lambda>op s. None)\<rparr>"

definition demo_payload :: payload where
  "demo_payload = [(''a'', \<lparr>fp_data = ''x'', fp_mode = 420, fp_fsUser = None\<rparr>)]"

lemma demo_volume_lookup: "fs_lookup demo_volume q = (if q = [] \<or> q = [''v''] then Some (Dir 493) else None)"
  by (simp add: fs_lookup_def demo_volume_def)

lemma demo_volume_ok: "volume_ok demo_volume [''v'']"
  by (auto simp: volume_ok_def tree_ok_def demo_volume_lookup current_version_def name_ok_def append_eq_Cons_conv)
    (simp add: demo_volume_def)

lemma demo_write: "fst (AtomicWriter_Write (abs_path [''v'']) demo_payload demo_volume) = None"
  by code_simp

subsection \<open>Properties\<close>

text \<open>
  C4. Whatever system call fails, \<open>Write\<close> either leaves the version of the volume in force as it was,
  every file of it unchanged, or puts a new version in force that holds exactly the files of the
  payload.\<close>

theorem Write_atomic:
  assumes "volume_ok w t" and "AtomicWriter_Write (abs_path t) payload w = (e, w')"
  shows "same_version t w w' \<or>
    (\<exists>clean ts. validatePayload payload = Inr clean \<and> fs_lookup w (t @ [ts]) = None \<and>
       current_version w' t = Some ts \<and> holds_payload w' t ts clean)"
  using assms by (cases rule: Write_cases) (auto simp: same_version_def in_force_def)

theorem Write_atomic_witness:
  "\<exists>e w'. volume_ok demo_volume [''v''] \<and> AtomicWriter_Write (abs_path [''v'']) demo_payload demo_volume = (e, w') \<and>
    (same_version [''v''] demo_volume w' \<or>
     (\<exists>clean ts. validatePayload demo_payload = Inr clean \<and> fs_lookup demo_volume ([''v''] @ [ts]) = None \<and>
       current_version w' [''v''] = Some ts \<and> holds_payload w' [''v''] ts clean))"
  using Write_atomic [OF demo_volume_ok, of demo_payload] demo_volume_ok
  by (metis prod.exhaust_sel)

text \<open>
  C5. On a volume whose links are complete, a \<open>Write\<close> that returns no error leaves every file of the
  payload readable with its content, in the version in force and at the path the user sees, and
  leaves the links complete again, so that this holds along any sequence of successful writes (a new
  directory is such a volume). The hypotheses: the files and links can be read, and no name at the top
  of the payload starts with two dots. After a write that failed the links may be incomplete, and the
  next success does not repair them (\<open>Write_missing_link_stays\<close>).\<close>

theorem Write_success:
  assumes "volume_ok w t" "synced w t" and "AtomicWriter_Write (abs_path t) payload w = (None, w')"
    and "\<forall>s. faults w SysRead s = None" "\<forall>s. faults w SysReadlink s = None"
  shows "\<exists>clean v. validatePayload payload = Inr clean \<and> current_version w' t = Some v \<and>
    (\<forall>(p, fp) \<in> set clean. os_ReadFile w' (filepath_Join [filepath_Join [abs_path t, v], p]) = Inr (fp_data fp)) \<and>
    (plain_heads clean \<longrightarrow>
       (\<forall>(p, fp) \<in> set clean. os_ReadFile w' (filepath_Join [abs_path t, p]) = Inr (fp_data fp)) \<and> synced w' t)"
  using Write_reads_back [OF assms(1,3,4)] assms(2,5) by blast

lemma demo_volume_synced: "synced demo_volume [''v'']"
  by (auto simp: synced_def links_ok_def current_version_def demo_volume_lookup)

text \<open>A first write into an empty directory: the file is there for the user.\<close>

theorem Write_success_witness:
  "\<exists>w'. AtomicWriter_Write (abs_path [''v'']) demo_payload demo_volume = (None, w') \<and>
    os_ReadFile w' (filepath_Join [abs_path [''v''], ''a'']) = Inr ''x'' \<and> synced w' [''v'']"
proof -
  obtain w' where w': "AtomicWriter_Write (abs_path [''v'']) demo_payload demo_volume = (None, w')"
    using demo_write by (metis prod.exhaust_sel)
  have clean: "validatePayload demo_payload = Inr demo_payload" by code_simp
  have plain: "plain_heads demo_payload" by code_simp
  have "\<forall>s. faults demo_volume SysRead s = None" "\<forall>s. faults demo_volume SysReadlink s = None" by (simp_all add: demo_volume_def)
  from Write_success [OF demo_volume_ok demo_volume_synced w' this] clean plain w' show ?thesis
    by (fastforce simp: demo_payload_def)
qed

text \<open>
  A link that a failed write could not make is not made by the next write either: that one finds
  the version in force up to date, does nothing and reports success, and the file stays missing where
  the user looks for it.\<close>

theorem Write_missing_link_stays:
  "let broken = demo_volume\<lparr>faults := (\<lambda>op s. if op = SysSymlink \<and> s = ''/v/a'' then Some EIO else None)\<rparr>;
       (e1, w1) = AtomicWriter_Write ''/v'' demo_payload broken;
       (e2, w2) = AtomicWriter_Write ''/v'' demo_payload (w1\<lparr>faults := (\<lambda>op s. None)\<rparr>)
   in e1 = Some (OsError EIO ''/v/a'') \<and> e2 = None \<and> entries w2 = entries w1 \<and>
      os_ReadFile w2 ''/v/..data/a'' = Inr ''x'' \<and> os_ReadFile w2 ''/v/a'' = Inl (OsError ENOENT ''/v/a'')"
  by code_simp

end
