(* ===== verification/HPK_Volumes.thy ===== *)
theory HPK_Volumes
  imports HPK_AtomicWriter_Proofs HPK_HostUtil HPK_Status
begin

text \<open>
  The volumes of a pod: \<open>compute/volume\<close> (ConfigMap, Secret, DownwardAPI, projected, EmptyDir and
  HostPath volumes, nested mount points, the visitor of containers) and
  \<open>compute/podhandler/volumes.go\<close>. The Kubernetes API server is a parameter: a record of functions
  from a point in time (a tick, one per request) and a key to an answer. Sleeping between two attempts
  only lets time pass. client-go's \<open>retry.OnError\<close> is a parameter too, a field of the same record;
  what the mounters rely on is the hypothesis \<open>retry_law\<close>. The lemmas show what payload a ConfigMap or
  Secret gives, that mount points nested below a volume stay in it when the mount paths are absolute,
  and that the files of a mounted ConfigMap read back at their paths in the volume.
\<close>

subsection \<open>Objects and the API server\<close>

record config_map =
  cm_data :: strmap
  cm_binaryData :: strmap

record secret =
  sec_data :: strmap

record pvc =
  pvc_name :: string
  pvc_volumeMode :: "string option"
  pvc_phase :: string
  pvc_volumeName :: string

record pv =
  pv_name :: string
  pv_hostPath :: "string option"
  pv_local :: "string option"

type_synonym 'a getter = "nat \<Rightarrow> objkey \<Rightarrow> go_error + 'a"

text \<open>
  \<open>retry.OnError\<close> as the callers see it: from the steps of the backoff, the test for retriable errors
  and the error each call would return, how many calls are made and which error is returned.
\<close>

type_synonym retrier = "nat \<Rightarrow> (go_error \<Rightarrow> bool) \<Rightarrow> (nat \<Rightarrow> go_error option) \<Rightarrow> nat \<times> go_error option"

record k8s_client =
  get_configMap :: "config_map getter"
  get_secret :: "secret getter"
  get_pvc :: "pvc getter"
  get_pv :: "pv getter"
  create_token :: "nat \<Rightarrow> pod \<Rightarrow> token_projection \<Rightarrow> go_error + string"
  cl_OnError :: retrier

definition ErrNotFound :: string where "ErrNotFound = ''NotFound''"

definition IsNotFound :: "go_error \<Rightarrow> bool" where
  "IsNotFound err = errors_Is_sentinel err ErrNotFound"

text \<open>\<open>volume.NotFoundBackoff\<close> and the backoff of \<open>volumes.go\<close>: the number of attempts.\<close>

definition NotFoundBackoff :: nat where "NotFoundBackoff = 4"
definition podhandler_NotFoundBackoff :: nat where "podhandler_NotFoundBackoff = 10"

text \<open>
  What the callers rely on: with at least one step the function is called, the error of the last call is
  returned, and a further call is made only after a retriable error.
\<close>

definition retry_law :: "retrier \<Rightarrow> bool" where
  "retry_law OnError =
     (\<forall>steps retriable errs k err. 0 < steps \<longrightarrow> OnError steps retriable errs = (k, err) \<longrightarrow>
        0 < k \<and> err = errs (k - 1) \<and> (\<forall>i < k - 1. \<exists>e. errs i = Some e \<and> retriable e))"

text \<open>
  A call of \<open>retry.OnError\<close> with a closure that assigns a captured variable: \<open>time_of fn n i\<close> is the
  time of the closure's call number \<open>i\<close>, the value is the one of the last call (\<open>zero\<close>, the variable's
  initial value, when no call assigned it).
\<close>

primrec time_of :: "(nat \<Rightarrow> (go_error + 'a) \<times> nat) \<Rightarrow> nat \<Rightarrow> nat \<Rightarrow> nat" where
  "time_of fn n 0 = n"
| "time_of fn n (Suc i) = snd (fn (time_of fn n i))"

definition call_error :: "(nat \<Rightarrow> (go_error + 'a) \<times> nat) \<Rightarrow> nat \<Rightarrow> nat \<Rightarrow> go_error option" where
  "call_error fn n i = (case fst (fn (time_of fn n i)) of Inl e \<Rightarrow> Some e | Inr _ \<Rightarrow> None)"

definition with_retry :: "k8s_client \<Rightarrow> nat \<Rightarrow> (go_error \<Rightarrow> bool) \<Rightarrow> 'a \<Rightarrow> (nat \<Rightarrow> (go_error + 'a) \<times> nat) \<Rightarrow> nat \<Rightarrow> (go_error + 'a) \<times> nat" where
  "with_retry api steps retriable zero fn n =
     (case cl_OnError api steps retriable (call_error fn n) of
        (k, Some err) \<Rightarrow> (Inl err, time_of fn n k)
      | (k, None) \<Rightarrow>
          (Inr (if k = 0 then zero
                else case fst (fn (time_of fn n (k - 1))) of Inr a \<Rightarrow> a | Inl _ \<Rightarrow> zero), time_of fn n k))"

definition ask :: "'a getter \<Rightarrow> objkey \<Rightarrow> nat \<Rightarrow> (go_error + 'a) \<times> nat" where
  "ask getter key n = (getter n key, Suc n)"

subsection \<open>Payloads (configmap.go, secret.go)\<close>

definition mk_projection :: "string \<Rightarrow> int \<Rightarrow> file_projection" where
  "mk_projection data mode = \<lparr>fp_data = data, fp_mode = mode, fp_fsUser = None\<rparr>"

definition put_all :: "strmap \<Rightarrow> int \<Rightarrow> payload \<Rightarrow> payload" where
  "put_all m mode payload = foldl (\<lambda>pl (name, data). AList.update name (mk_projection data mode) pl) payload m"

text \<open>The loop over the mappings; \<open>find_key\<close> looks a key up in the object.\<close>

fun map_items :: "(string \<Rightarrow> string option) \<Rightarrow> string \<Rightarrow> bool \<Rightarrow> int \<Rightarrow> key_to_path list \<Rightarrow> payload \<Rightarrow> go_error + payload" where
  "map_items find_key what optional mode [] payload = Inr payload"
| "map_items find_key what optional mode (ktp # rest) payload =
     (case find_key (ktp_key ktp) of
        None \<Rightarrow>
          if optional then map_items find_key what optional mode rest payload
          else Inl (Message (what @ ktp_key ktp))
      | Some data \<Rightarrow>
          map_items find_key what optional mode rest
            (AList.update (ktp_path ktp)
               (mk_projection data (case ktp_mode ktp of Some m \<Rightarrow> m | None \<Rightarrow> mode)) payload))"

definition no_default_mode :: go_error where
  "no_default_mode = Message ''no defaultMode used, not even the default value for it''"

definition configMap_key :: "config_map \<Rightarrow> string \<Rightarrow> string option" where
  "configMap_key cm k = (case map_of (cm_data cm) k of Some d \<Rightarrow> Some d | None \<Rightarrow> map_of (cm_binaryData cm) k)"

definition configmap_MakePayload :: "key_to_path list \<Rightarrow> config_map \<Rightarrow> int option \<Rightarrow> bool \<Rightarrow> go_error + payload" where
  "configmap_MakePayload mappings cm defaultMode optional =
     (case defaultMode of
        None \<Rightarrow> Inl no_default_mode
      | Some mode \<Rightarrow>
          if mappings = [] then Inr (put_all (cm_binaryData cm) mode (put_all (cm_data cm) mode []))
          else map_items (configMap_key cm) ''configmap references non-existent config key: '' optional mode mappings [])"

definition totalBytes :: "config_map \<Rightarrow> nat" where
  "totalBytes cm = sum_list (map (length \<circ> snd) (cm_data cm)) + sum_list (map (length \<circ> snd) (cm_binaryData cm))"

definition secret_MakePayload :: "key_to_path list \<Rightarrow> secret \<Rightarrow> int option \<Rightarrow> bool \<Rightarrow> go_error + payload" where
  "secret_MakePayload mappings sec defaultMode optional =
     (case defaultMode of
        None \<Rightarrow> Inl no_default_mode
      | Some mode \<Rightarrow>
          if mappings = [] then Inr (put_all (sec_data sec) mode [])
          else map_items (map_of (sec_data sec)) ''references non-existent secret key: '' optional mode mappings [])"

definition totalSecretBytes :: "secret \<Rightarrow> nat" where
  "totalSecretBytes sec = sum_list (map (length \<circ> snd) (sec_data sec))"

text \<open>\<open>downwardapi.CollectData\<close>: all items are collected, the errors are aggregated.\<close>

definition NewAggregate :: "go_error list \<Rightarrow> go_error option" where
  "NewAggregate errs = (if errs = [] then None else Some (Message ''aggregated errors''))"

fun downward_items :: "(string \<Rightarrow> string list) \<Rightarrow> pod \<Rightarrow> int \<Rightarrow> downward_file list \<Rightarrow> payload \<Rightarrow> go_error list \<Rightarrow> payload \<times> go_error list" where
  "downward_items isQualifiedName pod mode [] payload errs = (payload, errs)"
| "downward_items isQualifiedName pod mode (fi # rest) payload errs =
     (let fPath = filepath_Clean (df_path fi);
          fmode = (case df_mode fi of Some m \<Rightarrow> m | None \<Rightarrow> mode);
          (data, errs') =
            (case df_fieldRef fi of
               Some fr \<Rightarrow>
                 (case fieldpath_ExtractFieldPathAsString isQualifiedName (Inr (p_meta pod)) (fr_fieldPath fr) of
                    Inl err \<Rightarrow> ([], errs @ [err])
                  | Inr v \<Rightarrow> (v, errs))
             | None \<Rightarrow> ([], errs))
      in downward_items isQualifiedName pod mode rest (AList.update fPath (mk_projection data fmode) payload) errs')"

definition CollectData :: "(string \<Rightarrow> string list) \<Rightarrow> downward_file list \<Rightarrow> pod \<Rightarrow> int option \<Rightarrow> payload \<times> go_error option" where
  "CollectData isQualifiedName items pod defaultMode =
     (case defaultMode of
        None \<Rightarrow> ([], Some no_default_mode)
      | Some mode \<Rightarrow>
          (case downward_items isQualifiedName pod mode items [] [] of (payload, errs) \<Rightarrow> (payload, NewAggregate errs)))"

subsection \<open>Visiting containers (visitor.go)\<close>

definition Containers :: int where "Containers = 1"
definition InitContainers :: int where "InitContainers = 2"
definition EphemeralContainers :: int where "EphemeralContainers = 4"
definition AllContainers :: int where "AllContainers = InitContainers OR Containers OR EphemeralContainers"
definition AllFeatureEnabledContainers :: int where "AllFeatureEnabledContainers = AllContainers"

type_synonym 's visitor = "container \<Rightarrow> int \<Rightarrow> 's \<Rightarrow> bool \<times> 's"

fun visit_list :: "'s visitor \<Rightarrow> int \<Rightarrow> container list \<Rightarrow> 's \<Rightarrow> bool \<times> 's" where
  "visit_list visit ty [] s = (True, s)"
| "visit_list visit ty (c # cs) s =
     (case visit c ty s of (True, s') \<Rightarrow> visit_list visit ty cs s' | (False, s') \<Rightarrow> (False, s'))"

definition visit_masked :: "'s visitor \<Rightarrow> int \<Rightarrow> int \<Rightarrow> container list \<Rightarrow> bool \<times> 's \<Rightarrow> bool \<times> 's" where
  "visit_masked visit cmask ty cs r =
     (case r of (go_on, s) \<Rightarrow> if go_on \<and> (cmask AND ty) \<noteq> 0 then visit_list visit ty cs s else (go_on, s))"

definition VisitContainers :: "podspec \<Rightarrow> int \<Rightarrow> 's visitor \<Rightarrow> 's \<Rightarrow> bool \<times> 's" where
  "VisitContainers spec cmask visit s =
     visit_masked visit cmask EphemeralContainers (ps_ephemeralContainers spec)
       (visit_masked visit cmask Containers (ps_containers spec)
         (visit_masked visit cmask InitContainers (ps_initContainers spec) (True, s)))"

subsection \<open>Nested mount points (nested\_volumes.go)\<close>

fun nested_below :: "string \<Rightarrow> string list \<Rightarrow> string list \<Rightarrow> string list" where
  "nested_below myMPSlash [] prevNestedMPs = []"
| "nested_below myMPSlash (mp # mps) prevNestedMPs =
     (if \<not> strings_HasPrefix mp myMPSlash then nested_below myMPSlash mps prevNestedMPs
      else if list_ex (strings_HasPrefix mp) prevNestedMPs then nested_below myMPSlash mps prevNestedMPs
      else drop (length myMPSlash) mp # nested_below myMPSlash mps (prevNestedMPs @ [mp @ [slash]]))"

fun nested_of_mounts :: "string list \<Rightarrow> string list \<Rightarrow> string list \<Rightarrow> (go_error + string list)" where
  "nested_of_mounts [] allMountPoints retval = Inr retval"
| "nested_of_mounts (my # rest) allMountPoints retval =
     (if strings_HasPrefix my ''../'' then Inl (Message (''invalid container mount point '' @ my))
      else nested_of_mounts rest allMountPoints (retval @ nested_below (my @ [slash]) allMountPoints []))"

definition checkContainer :: "string \<Rightarrow> container \<Rightarrow> string list \<Rightarrow> go_error + string list" where
  "checkContainer name c retval =
     (let all = map (filepath_Clean \<circ> vm_mountPath) (c_volumeMounts c);
          mine = map (filepath_Clean \<circ> vm_mountPath) (filter (\<lambda>m. vm_name m = name) (c_volumeMounts c))
      in nested_of_mounts mine (sort all) retval)"

definition getNestedMountpoints :: "string \<Rightarrow> pod \<Rightarrow> go_error + string list" where
  "getNestedMountpoints name pod =
     snd (VisitContainers (p_spec pod) AllFeatureEnabledContainers
       (\<lambda>c ty r. case r of Inl e \<Rightarrow> (False, Inl e)
           | Inr retval \<Rightarrow> (let r' = checkContainer name c retval in (\<not> isl r', r'))) (Inr []))"

fun make_dirs :: "string \<Rightarrow> string list \<Rightarrow> fsys \<Rightarrow> go_error option \<times> fsys" where
  "make_dirs baseDir [] w = (None, w)"
| "make_dirs baseDir (d # ds) w =
     (case os_MkdirAll (filepath_Join [baseDir, d]) 493 w of
        (Some err, w') \<Rightarrow> (Some (Message ''unable to create nested volume mountpoints''), w')
      | (None, w') \<Rightarrow> make_dirs baseDir ds w')"

definition MakeNestedMountpoints :: "string \<Rightarrow> string \<Rightarrow> pod \<Rightarrow> fsys \<Rightarrow> go_error option \<times> fsys" where
  "MakeNestedMountpoints name baseDir pod w =
     (case getNestedMountpoints name pod of
        Inl err \<Rightarrow> (Some err, w)
      | Inr dirs \<Rightarrow> make_dirs baseDir dirs w)"

subsection \<open>Mounting ConfigMaps, Secrets and projected volumes\<close>

text \<open>The common end of the three mounters.\<close>

definition write_volume :: "string \<Rightarrow> string \<Rightarrow> pod \<Rightarrow> payload \<Rightarrow> fsys \<Rightarrow> go_error option \<times> fsys" where
  "write_volume name dir pod payload w =
     (case MakeNestedMountpoints name dir pod w of
        (Some err, w1) \<Rightarrow> (Some err, w1)
      | (None, w1) \<Rightarrow>
          (case NewAtomicWriter w1 dir of
             Inl err \<Rightarrow> (Some (Wrapped err ''Error creating atomic writer''), w1)
           | Inr targetDir \<Rightarrow>
               (case AtomicWriter_Write targetDir payload w1 of
                  (Some err, w2) \<Rightarrow> (Some (Wrapped err ''Error writing payload to dir''), w2)
                | (None, w2) \<Rightarrow> (None, w2))))"

definition is_optional :: "object_source \<Rightarrow> bool" where
  "is_optional source = (os_optional source = Some True)"

definition pod_key :: "pod \<Rightarrow> string \<Rightarrow> objkey" where
  "pod_key pod name = \<lparr>key_namespace = om_namespace (p_meta pod), key_name = name\<rparr>"

text \<open>Fetching an object: a missing optional object counts as \<open>zero_obj\<close>, the empty object.\<close>

definition fetch :: "k8s_client \<Rightarrow> 'a getter \<Rightarrow> 'a \<Rightarrow> object_source \<Rightarrow> pod \<Rightarrow> nat \<Rightarrow> (go_error + 'a) \<times> nat" where
  "fetch api getter zero_obj source pod n =
     (case with_retry api NotFoundBackoff IsNotFound zero_obj (ask getter (pod_key pod (os_name source))) n of
        (Inr obj, n') \<Rightarrow> (Inr obj, n')
      | (Inl err, n') \<Rightarrow> if IsNotFound err \<and> is_optional source then (Inr zero_obj, n') else (Inl err, n'))"

definition configmap_SetUpAt :: "k8s_client \<Rightarrow> string \<Rightarrow> object_source \<Rightarrow> pod \<Rightarrow> string \<Rightarrow> nat \<Rightarrow> fsys \<Rightarrow> go_error option \<times> nat \<times> fsys" where
  "configmap_SetUpAt api name source pod dir n w =
     (case fetch api (get_configMap api) \<lparr>cm_data = [], cm_binaryData = []\<rparr> source pod n of
        (Inl err, n') \<Rightarrow> (Some (Wrapped err (''cannot get '' @ os_name source)), n', w)
      | (Inr cm, n') \<Rightarrow>
          (case configmap_MakePayload (os_items source) cm (os_defaultMode source) (is_optional source) of
             Inl err \<Rightarrow> (Some err, n', w)
           | Inr payload \<Rightarrow> (case write_volume name dir pod payload w of (e, w') \<Rightarrow> (e, n', w'))))"

definition secret_SetUpAt :: "k8s_client \<Rightarrow> string \<Rightarrow> object_source \<Rightarrow> pod \<Rightarrow> string \<Rightarrow> nat \<Rightarrow> fsys \<Rightarrow> go_error option \<times> nat \<times> fsys" where
  "secret_SetUpAt api name source pod dir n w =
     (case fetch api (get_secret api) \<lparr>sec_data = []\<rparr> source pod n of
        (Inl err, n') \<Rightarrow> (Some (Wrapped err (''cannot get '' @ os_name source)), n', w)
      | (Inr sec, n') \<Rightarrow>
          (case secret_MakePayload (os_items source) sec (os_defaultMode source) (is_optional source) of
             Inl err \<Rightarrow> (Some err, n', w)
           | Inr payload \<Rightarrow> (case write_volume name dir pod payload w of (e, w') \<Rightarrow> (e, n', w'))))"

definition merge_payload :: "payload \<Rightarrow> payload \<Rightarrow> payload" where
  "merge_payload new payload = foldl (\<lambda>pl (k, v). AList.update k v pl) payload new"

text \<open>One source of a projected volume: the new payload or the error to collect.\<close>

definition project_source :: "k8s_client \<Rightarrow> (string \<Rightarrow> string list) \<Rightarrow> pod \<Rightarrow> int option \<Rightarrow> projection_source \<Rightarrow> nat \<Rightarrow> (go_error + payload) \<times> nat" where
  "project_source api isQualifiedName pod mode source n =
     (case ps_secret source of
        Some s \<Rightarrow>
          (case fetch api (get_secret api) \<lparr>sec_data = []\<rparr> s pod n of
             (Inl err, n') \<Rightarrow> (Inl err, n')
           | (Inr sec, n') \<Rightarrow> (secret_MakePayload (os_items s) sec mode (is_optional s), n'))
      | None \<Rightarrow>
          (case ps_configMap source of
             Some s \<Rightarrow>
               (case fetch api (get_configMap api) \<lparr>cm_data = [], cm_binaryData = []\<rparr> s pod n of
                  (Inl err, n') \<Rightarrow> (Inl err, n')
                | (Inr cm, n') \<Rightarrow> (configmap_MakePayload (os_items s) cm mode (is_optional s), n'))
           | None \<Rightarrow>
               (case ps_downwardAPI source of
                  Some items \<Rightarrow>
                    (case CollectData isQualifiedName items pod mode of
                       (payload, None) \<Rightarrow> (Inr payload, n)
                     | (_, Some err) \<Rightarrow> (Inl err, n))
                | None \<Rightarrow>
                    (case ps_serviceAccountToken source of
                       None \<Rightarrow> (Inr [], n)
                     | Some tp \<Rightarrow>
                         (case create_token api n pod tp of
                            Inl err \<Rightarrow> (Inl err, Suc n)
                          | Inr token \<Rightarrow> (Inr [(tp_path tp, mk_projection token (the mode))], Suc n))))))"

fun collect_sources :: "k8s_client \<Rightarrow> (string \<Rightarrow> string list) \<Rightarrow> pod \<Rightarrow> int option \<Rightarrow> projection_source list \<Rightarrow> payload \<Rightarrow> go_error list \<Rightarrow> nat \<Rightarrow> payload \<times> go_error list \<times> nat" where
  "collect_sources api iq pod mode [] payload errlist n = (payload, errlist, n)"
| "collect_sources api iq pod mode (source # rest) payload errlist n =
     (case project_source api iq pod mode source n of
        (Inl err, n') \<Rightarrow> collect_sources api iq pod mode rest payload (errlist @ [err]) n'
      | (Inr new, n') \<Rightarrow> collect_sources api iq pod mode rest (merge_payload new payload) errlist n')"

definition collectData :: "k8s_client \<Rightarrow> (string \<Rightarrow> string list) \<Rightarrow> projected_source \<Rightarrow> pod \<Rightarrow> nat \<Rightarrow> (go_error + payload) \<times> nat" where
  "collectData api iq source pod n =
     (case collect_sources api iq pod (pj_defaultMode source) (pj_sources source) [] [] n of
        (payload, errlist, n') \<Rightarrow>
          (case NewAggregate errlist of None \<Rightarrow> (Inr payload, n') | Some err \<Rightarrow> (Inl err, n')))"

definition projected_SetUpAt :: "k8s_client \<Rightarrow> (string \<Rightarrow> string list) \<Rightarrow> string \<Rightarrow> projected_source \<Rightarrow> pod \<Rightarrow> string \<Rightarrow> nat \<Rightarrow> fsys \<Rightarrow> go_error option \<times> nat \<times> fsys" where
  "projected_SetUpAt api iq name source pod dir n w =
     (if pj_defaultMode source = None then (Some no_default_mode, n, w)
      else case with_retry api NotFoundBackoff IsNotFound [] (collectData api iq source pod) n of
        (Inl err, n') \<Rightarrow> (Some (Wrapped err ''error preparing data for project volume''), n', w)
      | (Inr payload, n') \<Rightarrow> (case write_volume name dir pod payload w of (e, w') \<Rightarrow> (e, n', w')))"

definition emptydir_SetUpAt :: "string \<Rightarrow> fsys \<Rightarrow> go_error option \<times> fsys" where
  "emptydir_SetUpAt dir w = (None, w)"

subsection \<open>The volumes of a pod (podhandler/volumes.go)\<close>

definition CheckPersistentVolumeClaimModeBlock :: "pvc \<Rightarrow> bool" where
  "CheckPersistentVolumeClaimModeBlock c = (pvc_volumeMode c = Some ''Block'')"

definition pvc_attempt :: "k8s_client \<Rightarrow> objkey \<Rightarrow> nat \<Rightarrow> (go_error + pvc) \<times> nat" where
  "pvc_attempt api key n =
     (case ask (get_pvc api) key n of
        (Inl err, n') \<Rightarrow> (Inl err, n')
      | (Inr c, n') \<Rightarrow>
          if CheckPersistentVolumeClaimModeBlock c then (Inl ErrUnsupportedClaimMode, n')
          else if pvc_phase c \<noteq> ''Bound'' then (Inl ErrUnboundedPVC, n')
          else (Inr c, n'))"

definition pvc_retriable :: "go_error \<Rightarrow> bool" where
  "pvc_retriable err = (IsNotFound err \<or> errors_Is_sentinel err ''unbound pvc'')"

text \<open>
  \<open>PersistentVolumeClaimSource\<close>: when the volume cannot be fetched the pod is marked as failed and the
  code goes on with an empty volume, which matches no known type.
\<close>

definition link_pv :: "string \<Rightarrow> string \<Rightarrow> pv \<Rightarrow> pod \<Rightarrow> nat \<Rightarrow> fsys \<Rightarrow> (pod \<times> nat \<times> fsys) outcome" where
  "link_pv podDir name v pod n w =
     (if pv_hostPath v \<noteq> None then Panic ''Hostpath pv''
      else case pv_local v of
        Some path \<Rightarrow>
          (case os_Symlink path (filepath_Join [VolumeDir podDir, name]) w of
             Inl err \<Rightarrow> SystemPanic err ''cannot link symlink at path''
           | Inr w' \<Rightarrow> Ret (pod, n, w'))
      | None \<Rightarrow> Panic ''It seems I have missed a PersistentVolume type'')"

definition zero_pvc :: pvc where
  "zero_pvc = \<lparr>pvc_name = [], pvc_volumeMode = None, pvc_phase = [], pvc_volumeName = []\<rparr>"

definition zero_pv :: pv where
  "zero_pv = \<lparr>pv_name = [], pv_hostPath = None, pv_local = None\<rparr>"

definition PersistentVolumeClaimSource :: "k8s_client \<Rightarrow> string \<Rightarrow> string \<Rightarrow> string \<Rightarrow> pod \<Rightarrow> nat \<Rightarrow> fsys \<Rightarrow> (pod \<times> nat \<times> fsys) outcome" where
  "PersistentVolumeClaimSource api podDir name claimName pod n w =
     (case with_retry api podhandler_NotFoundBackoff pvc_retriable zero_pvc (pvc_attempt api (pod_key pod claimName)) n of
        (Inl err, n1) \<Rightarrow> Ret (PodError w pod ''PVCError'' (''PVC has failed: '' @ claimName), n1, w)
      | (Inr c, n1) \<Rightarrow>
          (case with_retry api podhandler_NotFoundBackoff IsNotFound zero_pv (ask (get_pv api) (pod_key pod (pvc_volumeName c))) n1 of
             (Inr v, n2) \<Rightarrow> link_pv podDir name v pod n2 w
           | (Inl err, n2) \<Rightarrow>
               link_pv podDir name zero_pv
                 (PodError w pod ''PVError'' ''PV has failed'') n2 w))"

text \<open>
  \<open>DownwardAPIVolumeSource\<close> reads the mode from \<open>vol.Projected\<close>; without a projected source that is a
  nil dereference, as is an item without a field reference.
\<close>

fun downward_files :: "(string \<Rightarrow> string list) \<Rightarrow> string \<Rightarrow> projected_source option \<Rightarrow> downward_file list \<Rightarrow> pod \<Rightarrow> fsys \<Rightarrow> (pod \<times> fsys) outcome" where
  "downward_files iq dir proj [] pod w = Ret (pod, w)"
| "downward_files iq dir proj (item # items) pod w =
     (case df_fieldRef item of
        None \<Rightarrow> Panic ''nil pointer dereference''
      | Some fr \<Rightarrow>
          (case fieldpath_ExtractFieldPathAsString iq (Inr (p_meta pod)) (fr_fieldPath fr) of
             Inl err \<Rightarrow> Ret (PodError w pod ReasonSpecError ''field path error'', w)
           | Inr v \<Rightarrow>
               (case proj of
                  None \<Rightarrow> Panic ''nil pointer dereference''
                | Some pj \<Rightarrow>
                    (case pj_defaultMode pj of
                       None \<Rightarrow> Panic ''nil pointer dereference''
                     | Some mode \<Rightarrow>
                         (case os_WriteFile (filepath_Join [dir, df_path item]) v mode w of
                            (Some err, w') \<Rightarrow> SystemPanic err ''cannot write config map file''
                          | (None, w') \<Rightarrow> downward_files iq dir proj items pod w')))))"

text \<open>Making the directory of a volume; failing to is a panic.\<close>

definition with_volume_dir :: "string \<Rightarrow> fsys \<Rightarrow> (fsys \<Rightarrow> 'a outcome) \<Rightarrow> 'a outcome" where
  "with_volume_dir dir w k =
     (case os_MkdirAll dir PodGlobalDirectoryPermissions w of
        (Some err, w') \<Rightarrow> SystemPanic err ''cannot create dir''
      | (None, w') \<Rightarrow> k w')"

type_synonym mount_result = "go_error option \<times> pod \<times> nat \<times> fsys"

definition mount_written :: "pod \<Rightarrow> string \<Rightarrow> go_error option \<times> nat \<times> fsys \<Rightarrow> mount_result outcome" where
  "mount_written pod what r =
     (case r of (e, n, w) \<Rightarrow> Ret (map_option (\<lambda>err. Wrapped err (''failed to mount '' @ what)) e, pod, n, w))"

definition mount_hostPath :: "string \<Rightarrow> host_path \<Rightarrow> pod \<Rightarrow> nat \<Rightarrow> fsys \<Rightarrow> mount_result outcome" where
  "mount_hostPath dst hp pod n w =
     (if hp_type hp = None \<or> hp_type hp = Some HostPathUnset then
        (case PathExists w (hp_path hp) of
           (_, Some err) \<Rightarrow> SystemPanic err ''failed to inspect HostPath''
         | (False, None) \<Rightarrow> Ret (Some (Message (''HostPath does not exist: '' @ hp_path hp)), pod, n, w)
         | (True, None) \<Rightarrow>
             (case os_Symlink (hp_path hp) dst w of
                Inl err \<Rightarrow> SystemPanic err ''cannot link symlink at path''
              | Inr w' \<Rightarrow> Ret (None, pod, n, w')))
      else bind_outcome (hostpath_SetUpAt hp w) (\<lambda>r. case r of
          (Some err, w') \<Rightarrow> SystemPanic err ''mount hostpath volume has failed''
        | (None, w') \<Rightarrow> Ret (None, pod, n, w')))"

definition mountVolumeSource :: "k8s_client \<Rightarrow> (string \<Rightarrow> string list) \<Rightarrow> string \<Rightarrow> volume \<Rightarrow> pod \<Rightarrow> nat \<Rightarrow> fsys \<Rightarrow> mount_result outcome" where
  "mountVolumeSource api iq podDir vol pod n w =
     (let dir = filepath_Join [VolumeDir podDir, vol_name vol]
      in if vol_emptyDir vol then
           with_volume_dir dir w (\<lambda>w. case emptydir_SetUpAt dir w of
               (Some err, w') \<Rightarrow> SystemPanic err ''mount emptyDir volume has failed''
             | (None, w') \<Rightarrow> Ret (None, pod, n, w'))
         else case vol_configMap vol of
           Some source \<Rightarrow>
             with_volume_dir dir w (\<lambda>w. mount_written pod ''ConfigMap'' (configmap_SetUpAt api (vol_name vol) source pod dir n w))
         | None \<Rightarrow>
         case vol_secret vol of
           Some source \<Rightarrow>
             with_volume_dir dir w (\<lambda>w. mount_written pod ''Secret'' (secret_SetUpAt api (vol_name vol) source pod dir n w))
         | None \<Rightarrow>
         case vol_downwardAPI vol of
           Some items \<Rightarrow>
             with_volume_dir dir w (\<lambda>w.
               bind_outcome (downward_files iq dir (vol_projected vol) items pod w) (\<lambda>(pod', w'). Ret (None, pod', n, w')))
         | None \<Rightarrow>
         case vol_hostPath vol of
           Some hp \<Rightarrow> mount_hostPath dir hp pod n w
         | None \<Rightarrow>
         case vol_persistentVolumeClaim vol of
           Some claimName \<Rightarrow>
             bind_outcome (PersistentVolumeClaimSource api podDir (vol_name vol) claimName pod n w)
               (\<lambda>(pod', n', w'). Ret (None, pod', n', w'))
         | None \<Rightarrow>
         case vol_projected vol of
           Some source \<Rightarrow>
             with_volume_dir dir w (\<lambda>w. mount_written pod ''ProjectedVolume'' (projected_SetUpAt api iq (vol_name vol) source pod dir n w))
         | None \<Rightarrow> Panic ''It seems I have missed a Volume type'')"

subsection \<open>Fetching with retries\<close>

lemma time_of_ask [simp]: "time_of (ask getter key) n i = n + i"
  by (induction i) (simp_all add: ask_def)

lemma call_error_ask: "call_error (ask getter key) n i = (case getter (n + i) key of Inl e \<Rightarrow> Some e | Inr _ \<Rightarrow> None)"
  by (simp add: call_error_def) (simp add: ask_def)

text \<open>The object fetched is the first answer other than \<open>NotFound\<close>, or the empty object when that is allowed.\<close>

lemma fetch_Inr:
  assumes "retry_law (cl_OnError api)" and "fetch api getter zero_obj source pod n = (Inr obj, n')"
  shows "\<exists>i \<ge> n. (\<forall>j. n \<le> j \<longrightarrow> j < i \<longrightarrow> (\<exists>e. getter j (pod_key pod (os_name source)) = Inl e \<and> IsNotFound e)) \<and>
    (getter i (pod_key pod (os_name source)) = Inr obj \<or>
     (\<exists>e. getter i (pod_key pod (os_name source)) = Inl e \<and> IsNotFound e) \<and> is_optional source \<and> obj = zero_obj)"
proof -
  let ?key = "pod_key pod (os_name source)"
  obtain k err where k: "cl_OnError api NotFoundBackoff IsNotFound (call_error (ask getter ?key) n) = (k, err)" by fastforce
  then have law: "0 < k" "err = call_error (ask getter ?key) n (k - 1)"
    "\<forall>i < k - 1. \<exists>e. call_error (ask getter ?key) n i = Some e \<and> IsNotFound e"
    using assms(1) [unfolded retry_law_def, rule_format, OF _ k] by (simp_all add: NotFoundBackoff_def)
  have "\<exists>e. getter j ?key = Inl e \<and> IsNotFound e" if "n \<le> j" "j < n + (k - 1)" for j
  proof -
    have "j - n < k - 1" "n + (j - n) = j" using that by linarith+
    then show ?thesis using law(3) [rule_format, of "j - n"] by (simp add: call_error_ask split: sum.splits)
  qed
  moreover have "getter (n + (k - 1)) ?key = Inr obj \<or>
      (\<exists>e. getter (n + (k - 1)) ?key = Inl e \<and> IsNotFound e) \<and> is_optional source \<and> obj = zero_obj"
  proof (cases "getter (n + (k - 1)) ?key")
    case (Inl e)
    then have "err = Some e" using law(2) by (simp add: call_error_ask)
    then show ?thesis using assms(2) k Inl by (auto simp: fetch_def with_retry_def split: if_splits)
  next
    case (Inr a)
    then have "err = None" using law(2) by (simp add: call_error_ask)
    then show ?thesis using assms(2) k Inr law(1) by (auto simp: fetch_def with_retry_def) (simp add: ask_def)
  qed
  ultimately show ?thesis by (intro exI [of _ "n + (k - 1)"]) auto
qed

subsection \<open>What a payload holds\<close>

lemma map_of_put_all:
  "distinct (map fst m) \<Longrightarrow>
   map_of (put_all m mode pl) k = (case map_of m k of Some d \<Rightarrow> Some (mk_projection d mode) | None \<Rightarrow> map_of pl k)"
  unfolding put_all_def
proof (induction m arbitrary: pl)
  case (Cons a m)
  obtain name d where a: "a = (name, d)" by fastforce
  show ?case
  proof (cases "k = name")
    case True
    then have "map_of m k = None" using Cons.prems a by (auto simp: map_of_eq_None_iff)
    then show ?thesis using Cons a True by (simp add: AList.update_conv')
  next
    case False
    then show ?thesis using Cons a by (simp add: AList.update_conv' split: option.split)
  qed
qed simp

lemma map_items_Inr:
  "(\<exists>pl. map_items fk what opt mode ms acc = Inr pl) \<longleftrightarrow> opt \<or> (\<forall>ktp \<in> set ms. fk (ktp_key ktp) \<noteq> None)"
proof (induction ms arbitrary: acc)
  case (Cons ktp ms)
  show ?case by (cases "fk (ktp_key ktp)") (use Cons in auto)
qed simp

lemma map_of_map_items:
  "map_items fk what opt mode ms acc = Inr pl \<Longrightarrow>
   map_of pl p = (case find (\<lambda>ktp. ktp_path ktp = p \<and> fk (ktp_key ktp) \<noteq> None) (rev ms) of
       Some ktp \<Rightarrow> Some (mk_projection (the (fk (ktp_key ktp))) (case ktp_mode ktp of Some m \<Rightarrow> m | None \<Rightarrow> mode))
     | None \<Rightarrow> map_of acc p)"
proof (induction ms arbitrary: acc)
  case (Cons ktp ms)
  show ?case
  proof (cases "fk (ktp_key ktp)")
    case None
    then show ?thesis using Cons by (auto simp: find_append split: if_splits option.splits)
  next
    case (Some d)
    then show ?thesis using Cons by (auto simp: find_append AList.update_conv' split: option.splits)
  qed
qed simp

text \<open>
  The payload of a ConfigMap. Without items every key is projected under its own name with the
  default mode, binary data before text. With items the payload exists exactly when every key exists or
  the source is optional; a path holds the last item for it whose key exists, with the item's mode or
  the default mode. Without a default mode there is no payload.\<close>

theorem configmap_MakePayload_exact:
  assumes "distinct (map fst (cm_data cm))" "distinct (map fst (cm_binaryData cm))"
  shows "(\<exists>pl. configmap_MakePayload [] cm (Some mode) opt = Inr pl \<and>
           (\<forall>k. map_of pl k = map_option (\<lambda>d. mk_projection d mode)
              (case map_of (cm_binaryData cm) k of Some d \<Rightarrow> Some d | None \<Rightarrow> map_of (cm_data cm) k))) \<and>
         (ms \<noteq> [] \<longrightarrow>
           ((\<exists>pl. configmap_MakePayload ms cm (Some mode) opt = Inr pl) \<longleftrightarrow>
              opt \<or> (\<forall>ktp \<in> set ms. configMap_key cm (ktp_key ktp) \<noteq> None)) \<and>
           (\<forall>pl p. configmap_MakePayload ms cm (Some mode) opt = Inr pl \<longrightarrow>
              map_of pl p = map_option (\<lambda>ktp. mk_projection (the (configMap_key cm (ktp_key ktp)))
                  (case ktp_mode ktp of Some m \<Rightarrow> m | None \<Rightarrow> mode))
                (find (\<lambda>ktp. ktp_path ktp = p \<and> configMap_key cm (ktp_key ktp) \<noteq> None) (rev ms)))) \<and>
         configmap_MakePayload ms cm None opt = Inl no_default_mode"
proof (intro conjI impI allI)
  show "\<exists>pl. configmap_MakePayload [] cm (Some mode) opt = Inr pl \<and>
      (\<forall>k. map_of pl k = map_option (\<lambda>d. mk_projection d mode)
         (case map_of (cm_binaryData cm) k of Some d \<Rightarrow> Some d | None \<Rightarrow> map_of (cm_data cm) k))"
    using assms by (auto simp: configmap_MakePayload_def map_of_put_all split: option.splits)
next
  assume "ms \<noteq> []"
  then show "(\<exists>pl. configmap_MakePayload ms cm (Some mode) opt = Inr pl) \<longleftrightarrow>
      opt \<or> (\<forall>ktp \<in> set ms. configMap_key cm (ktp_key ktp) \<noteq> None)"
    by (simp add: configmap_MakePayload_def map_items_Inr)
next
  fix pl p
  assume "ms \<noteq> []" "configmap_MakePayload ms cm (Some mode) opt = Inr pl"
  then have "map_items (configMap_key cm) ''configmap references non-existent config key: '' opt mode ms [] = Inr pl"
    by (simp add: configmap_MakePayload_def)
  from map_of_map_items [OF this, of p]
  show "map_of pl p = map_option (\<lambda>ktp. mk_projection (the (configMap_key cm (ktp_key ktp)))
        (case ktp_mode ktp of Some m \<Rightarrow> m | None \<Rightarrow> mode))
      (find (\<lambda>ktp. ktp_path ktp = p \<and> configMap_key cm (ktp_key ktp) \<noteq> None) (rev ms))"
    by (simp split: option.splits)
qed (simp add: configmap_MakePayload_def)

theorem configmap_MakePayload_exact_witness:
  "\<exists>pl. configmap_MakePayload [] \<lparr>cm_data = [(''a'', ''1'')], cm_binaryData = [(''b'', ''2'')]\<rparr> (Some 420) False = Inr pl \<and>
     map_of pl ''b'' = Some (mk_projection ''2'' 420)"
proof -
  let ?cm = "\<lparr>cm_data = [(''a'', ''1'')], cm_binaryData = [(''b'', ''2'')]\<rparr>"
  have d: "distinct (map fst (cm_data ?cm))" "distinct (map fst (cm_binaryData ?cm))" by simp_all
  from conjunct1 [OF configmap_MakePayload_exact [OF d, of 420 False]] show ?thesis
    by (elim exE conjE) (drule spec [of _ "''b''"], auto)
qed

subsection \<open>Nested mount points stay in the volume\<close>

text \<open>Two clean absolute paths, one below the other: the rest is a path of plain names.\<close>

lemma clean_below:
  assumes "filepath_IsAbs a" "filepath_IsAbs b" "filepath_Clean b = filepath_Clean a @ slash # d"
  shows "list_all name_ok (path_elems d) \<and> path_elems d \<noteq> []"
proof -
  obtain ms ns where m: "filepath_Clean a = abs_path ms" "list_all name_ok ms"
    and n: "filepath_Clean b = abs_path ns" "list_all name_ok ns"
    using Clean_abs assms(1,2) by blast
  have eq: "abs_path ns = abs_path ms @ slash # d" using assms(3) m(1) n(1) by simp
  then have elems: "ns = ms @ path_elems d"
    using path_elems_append [of "abs_path ms" d] m(2) n(2) by (metis path_elems_abs_path)
  have "path_elems d \<noteq> []"
  proof
    assume "path_elems d = []"
    then have "abs_path ns = abs_path ms" using elems by simp
    then show False using eq by simp
  qed
  then show ?thesis using elems n(2) by simp
qed

lemma nested_below_elem:
  "d \<in> set (nested_below my mps prev) \<Longrightarrow> my @ d \<in> set mps"
  by (induction my mps prev rule: nested_below.induct)
    (auto simp: strings_HasPrefix_def prefix_def split: if_splits)

lemma nested_of_mounts_elem:
  "nested_of_mounts mine all retval = Inr dirs \<Longrightarrow> d \<in> set dirs \<Longrightarrow>
   d \<in> set retval \<or> (\<exists>my \<in> set mine. my @ slash # d \<in> set all)"
proof (induction mine all retval rule: nested_of_mounts.induct)
  case (2 my rest all retval)
  then have "nested_of_mounts rest all (retval @ nested_below (my @ [slash]) all []) = Inr dirs"
    "\<not> strings_HasPrefix my ''../''" by (auto split: if_splits)
  with 2 have "d \<in> set (retval @ nested_below (my @ [slash]) all []) \<or> (\<exists>my \<in> set rest. my @ slash # d \<in> set all)"
    by blast
  then show ?case using nested_below_elem [of d "my @ [slash]" all "[]"] by auto
qed simp

lemma nested_of_mounts_abs:
  "list_all filepath_IsAbs mine \<Longrightarrow> \<exists>dirs. nested_of_mounts mine all retval = Inr dirs"
  by (induction mine all retval rule: nested_of_mounts.induct)
    (auto simp: strings_HasPrefix_def filepath_IsAbs_def prefix_def)

text \<open>Every directory made for a volume comes from a mount of the same container below a mount of the volume.\<close>

definition nested_mount :: "string \<Rightarrow> container \<Rightarrow> string \<Rightarrow> bool" where
  "nested_mount name c d =
     (\<exists>my \<in> set (c_volumeMounts c). \<exists>m \<in> set (c_volumeMounts c).
        vm_name my = name \<and> filepath_Clean (vm_mountPath m) = filepath_Clean (vm_mountPath my) @ slash # d)"

definition absolute_mounts :: "container \<Rightarrow> bool" where
  "absolute_mounts c = list_all (\<lambda>m. filepath_IsAbs (vm_mountPath m)) (c_volumeMounts c)"

lemma checkContainer_nested:
  assumes "absolute_mounts c"
  shows "\<exists>dirs. checkContainer name c retval = Inr dirs \<and> (\<forall>d \<in> set dirs. d \<in> set retval \<or> nested_mount name c d)"
proof -
  let ?all = "map (filepath_Clean \<circ> vm_mountPath) (c_volumeMounts c)"
  let ?mine = "map (filepath_Clean \<circ> vm_mountPath) (filter (\<lambda>m. vm_name m = name) (c_volumeMounts c))"
  have "list_all filepath_IsAbs ?mine"
    using assms Clean_abs(1) by (auto simp: absolute_mounts_def list_all_iff)
  then obtain dirs where "nested_of_mounts ?mine (sort ?all) retval = Inr dirs" using nested_of_mounts_abs by blast
  moreover have "d \<in> set retval \<or> nested_mount name c d" if "d \<in> set dirs" for d
    using nested_of_mounts_elem [OF calculation that] by (fastforce simp: nested_mount_def)
  ultimately show ?thesis by (auto simp: checkContainer_def Let_def)
qed

definition check_visitor :: "string \<Rightarrow> (go_error + string list) visitor" where
  "check_visitor name = (\<lambda>c ty r. case r of Inl e \<Rightarrow> (False, Inl e)
     | Inr retval \<Rightarrow> (let r' = checkContainer name c retval in (\<not> isl r', r')))"

lemma visit_list_nested:
  assumes "\<forall>c \<in> set cs. absolute_mounts c"
  shows "\<exists>dirs. visit_list (check_visitor name) ty cs (Inr retval) = (True, Inr dirs) \<and>
    (\<forall>d \<in> set dirs. d \<in> set retval \<or> (\<exists>c \<in> set cs. nested_mount name c d))"
  using assms
proof (induction cs arbitrary: retval)
  case (Cons c cs)
  obtain dirs where d: "checkContainer name c retval = Inr dirs" "\<forall>d \<in> set dirs. d \<in> set retval \<or> nested_mount name c d"
    using checkContainer_nested [of c name retval] Cons.prems by auto
  obtain dirs' where "visit_list (check_visitor name) ty cs (Inr dirs) = (True, Inr dirs')"
    "\<forall>d \<in> set dirs'. d \<in> set dirs \<or> (\<exists>c \<in> set cs. nested_mount name c d)"
    using Cons.IH [of dirs] Cons.prems by auto
  moreover have "check_visitor name c ty (Inr retval) = (True, Inr dirs)" using d(1) by (simp add: check_visitor_def)
  ultimately show ?case using d(2) by auto
qed simp

definition all_containers :: "podspec \<Rightarrow> container list" where
  "all_containers spec = ps_initContainers spec @ ps_containers spec @ ps_ephemeralContainers spec"

lemma visit_masked_all:
  "visit_masked visit AllFeatureEnabledContainers InitContainers cs (True, s) = visit_list visit InitContainers cs s"
  "visit_masked visit AllFeatureEnabledContainers Containers cs (True, s) = visit_list visit Containers cs s"
  "visit_masked visit AllFeatureEnabledContainers EphemeralContainers cs (True, s) = visit_list visit EphemeralContainers cs s"
  by (simp_all add: visit_masked_def AllFeatureEnabledContainers_def AllContainers_def InitContainers_def Containers_def EphemeralContainers_def)

lemma getNestedMountpoints_elem:
  assumes "\<forall>c \<in> set (all_containers (p_spec pod)). absolute_mounts c"
  shows "\<exists>dirs. getNestedMountpoints name pod = Inr dirs \<and>
    (\<forall>d \<in> set dirs. \<exists>c \<in> set (all_containers (p_spec pod)). nested_mount name c d)"
proof -
  let ?s = "p_spec pod" and ?v = "check_visitor name"
  have "getNestedMountpoints name pod = snd (VisitContainers ?s AllFeatureEnabledContainers ?v (Inr []))"
    by (simp add: getNestedMountpoints_def check_visitor_def)
  moreover obtain d1 where d1: "visit_list ?v InitContainers (ps_initContainers ?s) (Inr []) = (True, Inr d1)"
    "\<forall>d \<in> set d1. \<exists>c \<in> set (ps_initContainers ?s). nested_mount name c d"
    using visit_list_nested [of "ps_initContainers ?s" name InitContainers "[]"] assms by (auto simp: all_containers_def)
  moreover obtain d2 where d2: "visit_list ?v Containers (ps_containers ?s) (Inr d1) = (True, Inr d2)"
    "\<forall>d \<in> set d2. d \<in> set d1 \<or> (\<exists>c \<in> set (ps_containers ?s). nested_mount name c d)"
    using visit_list_nested [of "ps_containers ?s" name Containers d1] assms by (auto simp: all_containers_def)
  moreover obtain d3 where "visit_list ?v EphemeralContainers (ps_ephemeralContainers ?s) (Inr d2) = (True, Inr d3)"
    "\<forall>d \<in> set d3. d \<in> set d2 \<or> (\<exists>c \<in> set (ps_ephemeralContainers ?s). nested_mount name c d)"
    using visit_list_nested [of "ps_ephemeralContainers ?s" name EphemeralContainers d2] assms by (auto simp: all_containers_def)
  ultimately show ?thesis
    by (simp add: VisitContainers_def visit_masked_all all_containers_def) (metis Un_iff)
qed

text \<open>
  C37. When all mount paths of a pod are absolute, the mount points nested below a volume are found
  without an error, and each directory to be made lies below the directory of the volume: its path has
  only plain names.\<close>

theorem nested_mountpoints_inside:
  assumes "\<forall>c \<in> set (all_containers (p_spec pod)). absolute_mounts c" and "list_all name_ok base"
  shows "\<exists>dirs. getNestedMountpoints name pod = Inr dirs \<and>
    (\<forall>d \<in> set dirs. \<exists>ns. ns \<noteq> [] \<and> list_all name_ok ns \<and> filepath_Join [abs_path base, d] = abs_path (base @ ns))"
proof -
  obtain dirs where g: "getNestedMountpoints name pod = Inr dirs"
    "\<forall>d \<in> set dirs. \<exists>c \<in> set (all_containers (p_spec pod)). nested_mount name c d"
    using getNestedMountpoints_elem [OF assms(1)] by blast
  have "\<exists>ns. ns \<noteq> [] \<and> list_all name_ok ns \<and> filepath_Join [abs_path base, d] = abs_path (base @ ns)" if d: "d \<in> set dirs" for d
  proof -
    obtain c my m where c: "c \<in> set (all_containers (p_spec pod))" "my \<in> set (c_volumeMounts c)" "m \<in> set (c_volumeMounts c)"
      "filepath_Clean (vm_mountPath m) = filepath_Clean (vm_mountPath my) @ slash # d"
      using bspec [OF g(2) d] unfolding nested_mount_def by blast
    then have "filepath_IsAbs (vm_mountPath my)" "filepath_IsAbs (vm_mountPath m)"
      using assms(1) by (auto simp: absolute_mounts_def list_all_iff)
    then have ok: "list_all name_ok (path_elems d)" "path_elems d \<noteq> []" using clean_below c(4) by blast+
    then have "''..'' \<notin> set (path_elems d)" by (auto simp: list_all_iff name_ok_def)
    from Join_abs_path [OF assms(2) this] ok show ?thesis by blast
  qed
  then show ?thesis using g(1) by blast
qed

definition mount_at :: "string \<Rightarrow> string \<Rightarrow> volume_mount" where
  "mount_at name path = \<lparr>vm_name = name, vm_mountPath = path, vm_subPath = [], vm_subPathExpr = [], vm_readOnly = False\<rparr>"

definition pod_with_mounts :: "volume_mount list \<Rightarrow> pod" where
  "pod_with_mounts ms = demo_pod\<lparr>p_spec := (p_spec demo_pod)\<lparr>ps_containers := [(demo_container ''main'')\<lparr>c_volumeMounts := ms\<rparr>]\<rparr>\<rparr>"

theorem nested_mountpoints_inside_witness:
  "\<exists>dirs. getNestedMountpoints ''v'' (pod_with_mounts [mount_at ''v'' ''/dir'', mount_at ''u'' ''/dir/nested'']) = Inr dirs \<and>
    (\<forall>d \<in> set dirs. \<exists>ns. ns \<noteq> [] \<and> list_all name_ok ns \<and> filepath_Join [abs_path [''vols''], d] = abs_path ([''vols''] @ ns))"
  by (rule nested_mountpoints_inside)
    (auto simp: all_containers_def pod_with_mounts_def demo_pod_def demo_container_def absolute_mounts_def mount_at_def
      filepath_IsAbs_def name_ok_def)

text \<open>
  With relative mount paths the check is not enough: a volume mounted at \<open>..\<close> and a second mount
  at \<open>../../x\<close> pass it, and the directory to be made is \<open>../x\<close>, beside the volume's directory.\<close>

theorem nested_mountpoint_escapes:
  "getNestedMountpoints ''v'' (pod_with_mounts [mount_at ''v'' ''..'', mount_at ''u'' ''../../x'']) = Inr [''../x''] \<and>
   filepath_Join [''/vols/v'', ''../x''] = ''/vols/x''"
  by code_simp

subsection \<open>A mounted ConfigMap\<close>

lemma write_volume_plain:
  assumes "volume_ok w t" "getNestedMountpoints name pod = Inr []" "write_volume name (abs_path t) pod payload w = (None, w')"
  shows "AtomicWriter_Write (abs_path t) payload w = (None, w')"
  using assms
  by (auto simp: write_volume_def MakeNestedMountpoints_def NewAtomicWriter_def split: sum.splits if_splits prod.splits option.splits)

text \<open>A payload of clean paths passes the validation as it is.\<close>

definition plain_path :: "string \<Rightarrow> bool" where
  "plain_path p \<longleftrightarrow> filepath_Clean p = p \<and> p \<noteq> ''.''"

lemma update_new: "k \<notin> fst ` set xs \<Longrightarrow> AList.update k v xs = xs @ [(k, v)]"
  by (induction xs) auto

lemma validate_all_plain:
  "validate_all payload acc = Inr clean \<Longrightarrow> distinct (map fst (acc @ payload)) \<Longrightarrow>
   \<forall>p \<in> fst ` set payload. plain_path p \<Longrightarrow>
   clean = acc @ payload \<and> (\<forall>p \<in> fst ` set payload. validatePath p = None)"
proof (induction payload acc rule: validate_all.induct)
  case (2 k content rest acc)
  then have v: "validatePath k = None" "validate_all rest (acc @ [(k, content)]) = Inr clean"
    by (auto simp: plain_path_def update_new split: option.splits)
  then have "AList.update (filepath_Clean k) content acc = acc @ [(k, content)]"
    using 2(3,4) by (simp add: plain_path_def update_new)
  then show ?case using 2(1) [OF v(1)] v 2(3,4) by simp
qed simp

lemma plain_path_head:
  assumes "validatePath p = None" "plain_path p"
  shows "\<not> prefix ''..'' (hd (path_elems p))"
proof -
  note e = validatePath_elems [OF assms(1)]
  have p: "p = rel_path (path_elems p)" "path_elems p \<noteq> []"
    using e(2) assms(2) by (auto simp: plain_path_def rel_path_def split: if_splits)
  then have "p = strings_Join (path_elems p) [slash]" by (simp add: rel_path_def)
  then have "split_char slash p = path_elems p"
    using split_char_Join [of "path_elems p" slash] e(1) p(2) by (simp add: list_all_iff name_ok_def)
  then have "\<not> (prefix ''..'' (hd (path_elems p)) \<and> length (hd (path_elems p)) > 2)"
    using assms(1) by (auto simp: validatePath_def Let_def strings_HasPrefix_def split: if_splits option.splits)
  moreover have "hd (path_elems p) \<noteq> ''..''" using e(1) p(2) by (cases "path_elems p") (auto simp: name_ok_def)
  ultimately show ?thesis by (auto simp: prefix_def)
qed

lemma validatePayload_plain:
  assumes "validatePayload payload = Inr clean" "distinct (map fst payload)" "\<forall>p \<in> fst ` set payload. plain_path p"
  shows "clean = payload \<and> plain_heads clean"
proof -
  have "clean = payload" "\<forall>p \<in> fst ` set payload. validatePath p = None"
    using validate_all_plain [of payload "[]" clean] assms by (simp_all add: validatePayload_def)
  then show ?thesis using plain_path_head assms(3) by (fastforce simp: plain_heads_def list_all_iff)
qed

text \<open>
  The files a ConfigMap volume is to hold. Without items each key is a file, binary data winning over
  text; with items a path holds the key of the last item for it whose key exists, text winning.
\<close>

definition configmap_file :: "object_source \<Rightarrow> config_map \<Rightarrow> string \<Rightarrow> string \<Rightarrow> bool" where
  "configmap_file source cm p d =
     (if os_items source = [] then
        map_of (cm_binaryData cm) p = Some d \<or> map_of (cm_binaryData cm) p = None \<and> map_of (cm_data cm) p = Some d
      else \<exists>before item after. os_items source = before @ item # after \<and> ktp_path item = p \<and>
        (map_of (cm_data cm) (ktp_key item) = Some d \<or>
         map_of (cm_data cm) (ktp_key item) = None \<and> map_of (cm_binaryData cm) (ktp_key item) = Some d) \<and>
        (\<forall>other \<in> set after. ktp_path other = p \<longrightarrow>
           map_of (cm_data cm) (ktp_key other) = None \<and> map_of (cm_binaryData cm) (ktp_key other) = None))"

text \<open>Keys of a map are distinct; the names of the files are clean relative paths.\<close>

definition configmap_ok :: "config_map \<Rightarrow> bool" where
  "configmap_ok cm \<longleftrightarrow> distinct (map fst (cm_data cm)) \<and> distinct (map fst (cm_binaryData cm)) \<and>
     (\<forall>k \<in> fst ` set (cm_data cm) \<union> fst ` set (cm_binaryData cm). plain_path k)"

lemma put_all_distinct: "distinct (map fst pl) \<Longrightarrow> distinct (map fst (put_all m mode pl))"
  unfolding put_all_def by (induction m arbitrary: pl) (auto simp: distinct_update)

lemma put_all_keys: "fst ` set (put_all m mode pl) \<subseteq> fst ` set pl \<union> fst ` set m"
  unfolding put_all_def
proof (induction m arbitrary: pl)
  case (Cons a m)
  obtain k d where "a = (k, d)" by fastforce
  then show ?case using Cons [of "AList.update k (mk_projection d mode) pl"] by (simp add: dom_update)
qed simp

lemma map_items_keys:
  "map_items fk what opt mode ms acc = Inr pl \<Longrightarrow> distinct (map fst acc) \<Longrightarrow>
   distinct (map fst pl) \<and> fst ` set pl \<subseteq> fst ` set acc \<union> ktp_path ` set ms"
proof (induction ms arbitrary: acc)
  case (Cons ktp ms)
  show ?case
  proof (cases "fk (ktp_key ktp)")
    case None
    then show ?thesis using Cons by (auto split: if_splits)
  next
    case (Some d)
    let ?acc = "AList.update (ktp_path ktp) (mk_projection d (case ktp_mode ktp of Some m \<Rightarrow> m | None \<Rightarrow> mode)) acc"
    have "map_items fk what opt mode ms ?acc = Inr pl" using Cons.prems(1) Some by simp
    from Cons.IH [OF this distinct_update [OF Cons.prems(2)]] show ?thesis by (simp add: dom_update)
  qed
qed simp

lemma MakePayload_plain:
  assumes "configmap_MakePayload (os_items source) cm dm opt = Inr pl" "configmap_ok cm"
    and "\<forall>item \<in> set (os_items source). plain_path (ktp_path item)"
  shows "distinct (map fst pl) \<and> (\<forall>p \<in> fst ` set pl. plain_path p)"
proof (cases "os_items source = []")
  case True
  then obtain mode where "pl = put_all (cm_binaryData cm) mode (put_all (cm_data cm) mode [])"
    using assms(1) by (auto simp: configmap_MakePayload_def split: option.splits)
  moreover from this have "fst ` set pl \<subseteq> fst ` set (cm_data cm) \<union> fst ` set (cm_binaryData cm)"
    using put_all_keys [of "cm_binaryData cm" mode "put_all (cm_data cm) mode []"] put_all_keys [of "cm_data cm" mode "[]"] by auto
  ultimately show ?thesis using assms(2) by (auto simp: put_all_distinct configmap_ok_def)
next
  case False
  then obtain mode where "map_items (configMap_key cm) ''configmap references non-existent config key: '' opt mode (os_items source) [] = Inr pl"
    using assms(1) by (auto simp: configmap_MakePayload_def split: option.splits)
  from map_items_keys [OF this] show ?thesis using assms(3) by auto
qed

lemma configmap_file_payload:
  assumes "configmap_MakePayload (os_items source) cm dm opt = Inr pl" "configmap_ok cm" "configmap_file source cm p d"
  shows "\<exists>fp. (p, fp) \<in> set pl \<and> fp_data fp = d"
proof -
  obtain mode where dm: "dm = Some mode" using assms(1) by (auto simp: configmap_MakePayload_def split: option.splits)
  have di: "distinct (map fst (cm_data cm))" "distinct (map fst (cm_binaryData cm))" using assms(2) by (simp_all add: configmap_ok_def)
  note E = configmap_MakePayload_exact [OF di, of mode opt "os_items source"]
  have "\<exists>fp. map_of pl p = Some fp \<and> fp_data fp = d"
  proof (cases "os_items source = []")
    case True
    then have "map_of pl p = map_option (\<lambda>d. mk_projection d mode)
        (case map_of (cm_binaryData cm) p of Some d \<Rightarrow> Some d | None \<Rightarrow> map_of (cm_data cm) p)"
      using E assms(1) dm by auto
    then show ?thesis using assms(3) True by (auto simp: configmap_file_def mk_projection_def)
  next
    case False
    then obtain before item after where i: "os_items source = before @ item # after" "ktp_path item = p"
      "configMap_key cm (ktp_key item) = Some d" "\<forall>other \<in> set after. ktp_path other = p \<longrightarrow> configMap_key cm (ktp_key other) = None"
      using assms(3) by (fastforce simp: configmap_file_def configMap_key_def split: option.splits)
    let ?P = "\<lambda>ktp. ktp_path ktp = p \<and> configMap_key cm (ktp_key ktp) \<noteq> None"
    have "find ?P (rev after) = None" using i(4) by (auto simp: find_None_iff)
    then have "find ?P (rev (os_items source)) = Some item" using i(1-3) by (simp add: find_append)
    then show ?thesis using E assms(1) dm False i(3) by (auto simp: mk_projection_def)
  qed
  then show ?thesis by (auto dest: map_of_SomeD)
qed

text \<open>
  C6. A ConfigMap volume was mounted without an error on a volume whose links are complete, by a pod
  that mounts nothing below it. The ConfigMap used is the first answer of the API server other than
  \<open>NotFound\<close>, or the empty one when there is only that answer and the source is optional; and every
  file the ConfigMap is to give, by key or by the items of the source, reads back with its content at
  its path in the volume. \<open>retry.OnError\<close> is a parameter, assumed to return the error of its last call
  and to call again only after a retriable error.\<close>

theorem configmap_mounted:
  assumes "volume_ok w t" "synced w t" and "\<forall>s. faults w SysRead s = None \<and> faults w SysReadlink s = None"
    and "getNestedMountpoints name pod = Inr []" and "retry_law (cl_OnError api)"
    and "\<forall>i cm. get_configMap api i (pod_key pod (os_name source)) = Inr cm \<longrightarrow> configmap_ok cm"
    and "\<forall>item \<in> set (os_items source). plain_path (ktp_path item)"
    and "configmap_SetUpAt api name source pod (abs_path t) n w = (None, n', w')"
  shows "\<exists>i cm. n \<le> i \<and>
    (\<forall>j. n \<le> j \<longrightarrow> j < i \<longrightarrow> (\<exists>e. get_configMap api j (pod_key pod (os_name source)) = Inl e \<and> IsNotFound e)) \<and>
    (get_configMap api i (pod_key pod (os_name source)) = Inr cm \<or>
     (\<exists>e. get_configMap api i (pod_key pod (os_name source)) = Inl e \<and> IsNotFound e) \<and>
     os_optional source = Some True \<and> cm = \<lparr>cm_data = [], cm_binaryData = []\<rparr>) \<and>
    (\<forall>p d. configmap_file source cm p d \<longrightarrow> os_ReadFile w' (filepath_Join [abs_path t, p]) = Inr d)"
proof -
  obtain cm payload where c: "fetch api (get_configMap api) \<lparr>cm_data = [], cm_binaryData = []\<rparr> source pod n = (Inr cm, n')"
    "configmap_MakePayload (os_items source) cm (os_defaultMode source) (is_optional source) = Inr payload"
    "write_volume name (abs_path t) pod payload w = (None, w')"
    using assms(8) by (auto simp: configmap_SetUpAt_def split: prod.splits sum.splits)
  obtain i where i: "n \<le> i"
    "\<forall>j. n \<le> j \<longrightarrow> j < i \<longrightarrow> (\<exists>e. get_configMap api j (pod_key pod (os_name source)) = Inl e \<and> IsNotFound e)"
    "get_configMap api i (pod_key pod (os_name source)) = Inr cm \<or>
     (\<exists>e. get_configMap api i (pod_key pod (os_name source)) = Inl e \<and> IsNotFound e) \<and>
     is_optional source \<and> cm = \<lparr>cm_data = [], cm_binaryData = []\<rparr>"
    using fetch_Inr [OF assms(5) c(1)] by blast
  have "configmap_ok \<lparr>cm_data = [], cm_binaryData = []\<rparr>" by (simp add: configmap_ok_def)
  then have ok: "configmap_ok cm" using assms(6) i(3) by blast
  obtain clean where clean: "validatePayload payload = Inr clean"
    "plain_heads clean \<longrightarrow> (\<forall>(p, fp) \<in> set clean. os_ReadFile w' (filepath_Join [abs_path t, p]) = Inr (fp_data fp))"
    using Write_reads_back [OF assms(1) write_volume_plain [OF assms(1,4) c(3)]] assms(2,3) by blast
  have "clean = payload" "plain_heads clean"
    using validatePayload_plain [OF clean(1)] MakePayload_plain [OF c(2) ok assms(7)] by blast+
  then have "os_ReadFile w' (filepath_Join [abs_path t, p]) = Inr d" if "configmap_file source cm p d" for p d
    using clean(2) configmap_file_payload [OF c(2) ok that] by fastforce
  then show ?thesis using i unfolding is_optional_def by blast
qed

fun demo_OnError :: "nat \<Rightarrow> (go_error \<Rightarrow> bool) \<Rightarrow> (nat \<Rightarrow> go_error option) \<Rightarrow> nat \<times> go_error option" where
  "demo_OnError 0 retriable errs = (0, None)"
| "demo_OnError (Suc steps) retriable errs =
     (case errs 0 of
        None \<Rightarrow> (1, None)
      | Some e \<Rightarrow>
          if retriable e \<and> steps > 0
          then (case demo_OnError steps retriable (\<lambda>i. errs (Suc i)) of (k, err) \<Rightarrow> (Suc k, err))
          else (1, Some e))"

lemma demo_OnError_calls:
  "0 < steps \<Longrightarrow> demo_OnError steps r errs = (k, err) \<Longrightarrow>
   0 < k \<and> err = errs (k - 1) \<and> (\<forall>i < k - 1. \<exists>e. errs i = Some e \<and> r e)"
proof (induction steps r errs arbitrary: k err rule: demo_OnError.induct)
  case (2 steps r errs)
  show ?case
  proof (cases "\<exists>e. errs 0 = Some e \<and> r e \<and> steps > 0")
    case True
    then obtain e k' where e: "errs 0 = Some e" "r e" "steps > 0" "demo_OnError steps r (\<lambda>i. errs (Suc i)) = (k', err)" "k = Suc k'"
      using 2(3) by (auto split: prod.splits)
    then have IH: "0 < k'" "err = errs (Suc (k' - 1))" "\<forall>i < k' - 1. \<exists>e. errs (Suc i) = Some e \<and> r e" using 2(1) by blast+
    have "\<exists>e. errs i = Some e \<and> r e" if "i < k - 1" for i
      using IH(3) e that by (cases i) auto
    then show ?thesis using IH(1,2) e(5) by simp
  qed (use 2(3) in \<open>auto split: option.splits if_splits\<close>)
qed simp

lemma demo_OnError_law: "retry_law demo_OnError"
  using demo_OnError_calls unfolding retry_law_def by blast

definition demo_api :: k8s_client where
  "demo_api =
     \<lparr>get_configMap = (\<lambda>n k. if n = 0 then Inl (Sentinel ErrNotFound) else Inr \<lparr>cm_data = [(''a'', ''x'')], cm_binaryData = []\<rparr>),
      get_secret = (\<lambda>n k. Inl (Sentinel ErrNotFound)), get_pvc = (\<lambda>n k. Inl (Sentinel ErrNotFound)),
      get_pv = (\<lambda>n k. Inl (Sentinel ErrNotFound)), create_token = (\<lambda>n p tp. Inl (Message ''no tokens'')),
      cl_OnError = demo_OnError\<rparr>"

definition demo_source :: object_source where
  "demo_source = \<lparr>os_name = ''cfg'', os_items = [], os_defaultMode = Some 420, os_optional = None\<rparr>"

theorem configmap_mounted_witness:
  "\<exists>w'. configmap_SetUpAt demo_api ''v'' demo_source demo_pod (abs_path [''v'']) 0 demo_volume = (None, 2, w') \<and>
    os_ReadFile w' ''/v/a'' = Inr ''x''"
proof -
  let ?run = "configmap_SetUpAt demo_api ''v'' demo_source demo_pod (abs_path [''v'']) 0 demo_volume"
  have "fst ?run = None \<and> fst (snd ?run) = 2" by code_simp
  then obtain w' where w': "?run = (None, 2, w')" by (metis prod.collapse)
  have nested: "getNestedMountpoints ''v'' demo_pod = Inr []" by code_simp
  have faults: "\<forall>s. faults demo_volume SysRead s = None \<and> faults demo_volume SysReadlink s = None" by (simp add: demo_volume_def)
  have law: "retry_law (cl_OnError demo_api)" using demo_OnError_law by (simp add: demo_api_def)
  have plain: "plain_path ''a''" unfolding plain_path_def by code_simp
  have ok: "\<forall>i cm. get_configMap demo_api i (pod_key demo_pod (os_name demo_source)) = Inr cm \<longrightarrow> configmap_ok cm"
    using plain by (auto simp: demo_api_def configmap_ok_def split: if_splits)
  have items: "\<forall>item \<in> set (os_items demo_source). plain_path (ktp_path item)" by (simp add: demo_source_def)
  obtain cm where cm: "\<exists>i. get_configMap demo_api i (pod_key demo_pod (os_name demo_source)) = Inr cm \<or> os_optional demo_source = Some True"
    "\<forall>p d. configmap_file demo_source cm p d \<longrightarrow> os_ReadFile w' (filepath_Join [abs_path [''v''], p]) = Inr d"
    using configmap_mounted [OF demo_volume_ok demo_volume_synced faults nested law ok items w'] by blast
  then have "configmap_file demo_source cm ''a'' ''x''"
    by (auto simp: demo_api_def demo_source_def configmap_file_def split: if_splits)
  then have "os_ReadFile w' (filepath_Join [abs_path [''v''], ''a'']) = Inr ''x''" using cm(2) by blast
  moreover have "filepath_Join [abs_path [''v''], ''a''] = ''/v/a''" by code_simp
  ultimately show ?thesis using w' by simp
qed

end
