(* ===== verification/HPK_Expansion.thy ===== *)
theory HPK_Expansion
  imports HPK_K8s
begin

text \<open>
  Packages \<open>pkg/expansion\<close> (\<open>expand.go\<close>) and \<open>pkg/container\<close> (\<open>helpers.go\<close>): expansion of
  \<open>$(NAME)\<close> in commands, arguments and sub-paths. \<open>Expand\<close> is the loop of the source over the cursor
  and the checkpoint, its mapping passed a state (the set of missing keys that the closure in
  \<open>helpers.go\<close> fills). \<open>expand_spec\<close> is a definition over the rest of the input; the loop computes it.
  The datatype \<open>piece\<close> is the syntax of the texts, apart from the code: the lemmas show that every text
  has exactly one reading as pieces and that the loop ends and computes its value, that escaping with \<open>$$\<close> is
  undone by expansion, and that unresolved references are left as written.
\<close>

subsection \<open>The functions (expand.go)\<close>

abbreviation operator :: char where "operator \<equiv> CHR ''$''"
abbreviation referenceOpener :: char where "referenceOpener \<equiv> CHR ''(''"
abbreviation referenceCloser :: char where "referenceCloser \<equiv> CHR '')''"

definition syntaxWrap :: "string \<Rightarrow> string" where
  "syntaxWrap input = [operator, referenceOpener] @ input @ [referenceCloser]"

fun MappingFuncFor :: "strmap list \<Rightarrow> string \<Rightarrow> string" where
  "MappingFuncFor [] input = syntaxWrap input"
| "MappingFuncFor (vars # context) input =
     (case map_of vars input of Some val \<Rightarrow> val | None \<Rightarrow> MappingFuncFor context input)"

text \<open>Go's conversion of a byte to a string encodes it as a rune in UTF-8.\<close>

definition string_of_byte :: "char \<Rightarrow> string" where
  "string_of_byte c =
     (let n = of_char c :: nat
      in if n < 128 then [c] else [char_of (192 + n div 64), char_of (128 + n mod 64)])"

fun index_of :: "char \<Rightarrow> string \<Rightarrow> nat option" where
  "index_of c [] = None"
| "index_of c (x # xs) = (if x = c then Some 0 else map_option Suc (index_of c xs))"

text \<open>
  \<open>tryReadVariableName\<close> is called with at least one byte; \<open>input[0]\<close> of an empty string panics, here
  the last equation is never used by \<open>Expand\<close>.
\<close>

fun tryReadVariableName :: "string \<Rightarrow> string \<times> bool \<times> nat" where
  "tryReadVariableName (c # rest) =
     (if c = operator then ([operator], False, 1)
      else if c = referenceOpener then
        (case index_of referenceCloser rest of
           Some i \<Rightarrow> (take i rest, True, i + 2)
         | None \<Rightarrow> ([operator, referenceOpener], False, 1))
      else (operator # string_of_byte c, False, 1))"
| "tryReadVariableName [] = ([], False, 0)"

function expand_loop :: "string \<Rightarrow> (string \<Rightarrow> 's \<Rightarrow> string \<times> 's) \<Rightarrow> nat \<Rightarrow> nat \<Rightarrow> string \<Rightarrow> 's \<Rightarrow> string \<times> 's" where
  "expand_loop input mapping cursor checkpoint buf st =
     (if cursor < length input then
        (if input ! cursor = operator \<and> cursor + 1 < length input then
           (case tryReadVariableName (drop (cursor + 1) input) of
              (read, isVar, advance) \<Rightarrow>
                (let buf1 = buf @ take (cursor - checkpoint) (drop checkpoint input);
                     (text, st') = (if isVar then mapping read st else (read, st));
                     cursor' = cursor + advance
                 in expand_loop input mapping (cursor' + 1) (cursor' + 1) (buf1 @ text) st'))
         else expand_loop input mapping (cursor + 1) checkpoint buf st)
      else (buf @ drop checkpoint input, st))"
  by pat_completeness auto
termination
  by (relation "measure (\<lambda>(input, mapping, cursor, checkpoint, buf, st). length input - cursor)") auto

declare expand_loop.simps [simp del]

definition ExpandS :: "string \<Rightarrow> (string \<Rightarrow> 's \<Rightarrow> string \<times> 's) \<Rightarrow> 's \<Rightarrow> string \<times> 's" where
  "ExpandS input mapping st = expand_loop input mapping 0 0 [] st"

definition Expand :: "string \<Rightarrow> (string \<Rightarrow> string) \<Rightarrow> string" where
  "Expand input mapping = fst (ExpandS input (\<lambda>k u. (mapping k, u)) ())"

subsection \<open>Container helpers (helpers.go)\<close>

definition envVarsToMap :: "envvar list \<Rightarrow> strmap" where
  "envVarsToMap envs = fold (\<lambda>env m. AList.update (ev_name env) (ev_value env) m) envs []"

definition v1EnvVarsToMap :: "envvar list \<Rightarrow> strmap" where
  "v1EnvVarsToMap envs = fold (\<lambda>env m. AList.update (ev_name env) (ev_value env) m) envs []"

definition ExpandContainerCommandOnlyStatic :: "string list option \<Rightarrow> envvar list \<Rightarrow> string list" where
  "ExpandContainerCommandOnlyStatic containerCommand envs =
     (let mapping = MappingFuncFor [v1EnvVarsToMap envs]
      in case containerCommand of None \<Rightarrow> [] | Some cs \<Rightarrow> map (\<lambda>cmd. Expand cmd mapping) cs)"

definition mount_mapping :: "strmap \<Rightarrow> string \<Rightarrow> string list \<Rightarrow> string \<times> string list" where
  "mount_mapping envmap key missing =
     (case map_of envmap key of
        None \<Rightarrow> ([], List.insert key missing)
      | Some value \<Rightarrow> (value, if value = [] then List.insert key missing else missing))"

definition ExpandContainerVolumeMounts :: "volume_mount \<Rightarrow> envvar list \<Rightarrow> go_error + string" where
  "ExpandContainerVolumeMounts mount envs =
     (case ExpandS (vm_subPathExpr mount) (mount_mapping (envVarsToMap envs)) [] of
        (expanded, missingKeys) \<Rightarrow>
          if missingKeys \<noteq> [] then Inl (Message (''missing value for '' @ strings_Join (sort missingKeys) '', ''))
          else Inr expanded)"

subsection \<open>The specification\<close>

text \<open>Expansion of the rest of the input.\<close>

function expand_spec :: "(string \<Rightarrow> 's \<Rightarrow> string \<times> 's) \<Rightarrow> string \<Rightarrow> 's \<Rightarrow> string \<times> 's" where
  "expand_spec mapping [] st = ([], st)"
| "expand_spec mapping (c # rest) st =
     (if c = operator \<and> rest \<noteq> [] then
        (case tryReadVariableName rest of
           (read, isVar, advance) \<Rightarrow>
             (let (text, st') = (if isVar then mapping read st else (read, st));
                  (out, st'') = expand_spec mapping (drop advance rest) st'
              in (text @ out, st'')))
      else (let (out, st') = expand_spec mapping rest st in (c # out, st')))"
  by pat_completeness auto
termination
  by (relation "measure (\<lambda>(mapping, rest, st). length rest)") (auto simp: le_imp_less_Suc)

lemma index_of_bound: "index_of c s = Some i \<Longrightarrow> i < length s \<and> s ! i = c \<and> c \<notin> set (take i s)"
  by (induction s arbitrary: i) (auto split: if_splits)

lemma tryRead_advance: "rest \<noteq> [] \<Longrightarrow> tryReadVariableName rest = (read, isVar, advance) \<Longrightarrow> advance \<le> length rest"
  by (cases rest) (auto split: if_splits option.splits dest: index_of_bound)

lemma expand_loop_spec:
  "checkpoint \<le> cursor \<Longrightarrow> cursor \<le> length input \<Longrightarrow>
   expand_loop input mapping cursor checkpoint buf st =
   (case expand_spec mapping (drop cursor input) st of
      (out, st') \<Rightarrow> (buf @ take (cursor - checkpoint) (drop checkpoint input) @ out, st'))"
proof (induction input mapping cursor checkpoint buf st rule: expand_loop.induct)
  case (1 input mapping cursor checkpoint buf st)
  show ?case
  proof (cases "cursor < length input")
    case False
    with 1 show ?thesis by (simp add: expand_loop.simps [of input])
  next
    case less: True
    then have dc: "drop cursor input = input ! cursor # drop (Suc cursor) input"
      by (simp add: Cons_nth_drop_Suc)
    show ?thesis
    proof (cases "input ! cursor = operator \<and> cursor + 1 < length input")
      case True
      obtain read isVar advance where tr: "tryReadVariableName (drop (cursor + 1) input) = (read, isVar, advance)"
        by (metis prod_cases3)
      obtain out1 st1 where ts: "(if isVar then mapping read st else (read, st)) = (out1, st1)"
        by (cases "if isVar then mapping read st else (read, st)")
      have "advance \<le> length input - Suc cursor"
        using tryRead_advance [OF _ tr] True by simp
      with True have le: "cursor + advance + 1 \<le> length input" by arith
      have ne: "drop (Suc cursor) input \<noteq> []" using True by simp
      have loop: "expand_loop input mapping cursor checkpoint buf st =
          expand_loop input mapping (cursor + advance + 1) (cursor + advance + 1)
            ((buf @ take (cursor - checkpoint) (drop checkpoint input)) @ out1) st1"
        using True less tr ts by (subst expand_loop.simps) (simp add: Let_def)
      have spec: "expand_spec mapping (drop cursor input) st =
          (let (out, st'') = expand_spec mapping (drop (cursor + advance + 1) input) st1 in (out1 @ out, st''))"
        using True tr ts ne by (simp add: dc add.commute)
      show ?thesis
        using "1.IH"(1) [OF less True tr [symmetric] refl refl refl ts [symmetric] refl] le
        unfolding loop spec by (simp split: prod.splits)
    next
      case False
      have take: "take (Suc cursor - checkpoint) (drop checkpoint input) =
          take (cursor - checkpoint) (drop checkpoint input) @ [input ! cursor]"
        using "1.prems" less by (simp add: Suc_diff_le take_Suc_conv_app_nth)
      have "expand_spec mapping (drop cursor input) st =
          (let (out, st') = expand_spec mapping (drop (Suc cursor) input) st in (input ! cursor # out, st'))"
        using False less by (auto simp: dc)
      then show ?thesis
        using "1.IH"(2) [OF less False] "1.prems" less False take
        by (subst expand_loop.simps) (auto split: prod.splits)
    qed
  qed
qed

subsection \<open>The syntax of references\<close>

text \<open>
  The expansion syntax without the functions of the code: a text is a sequence of pieces. \<open>Stray\<close> is
  an operator before a character that begins nothing, \<open>Open\<close> an opener that is never closed,
  \<open>Final\<close> an operator at the end of the text.
\<close>

datatype piece = Plain char | Escape | Ref string | Stray char | Open | Final

fun piece_text :: "piece \<Rightarrow> string" where
  "piece_text (Plain c) = [c]"
| "piece_text Escape = ''$$''"
| "piece_text (Ref name) = ''$('' @ name @ '')''"
| "piece_text (Stray c) = [CHR ''$'', c]"
| "piece_text Open = ''$(''"
| "piece_text Final = ''$''"

definition pieces_text :: "piece list \<Rightarrow> string" where
  "pieces_text ps = concat (map piece_text ps)"

fun pieces_ok :: "piece list \<Rightarrow> bool" where
  "pieces_ok [] = True"
| "pieces_ok (Plain c # ps) = (c \<noteq> CHR ''$'' \<and> pieces_ok ps)"
| "pieces_ok (Escape # ps) = pieces_ok ps"
| "pieces_ok (Ref name # ps) = (CHR '')'' \<notin> set name \<and> pieces_ok ps)"
| "pieces_ok (Stray c # ps) = (c \<noteq> CHR ''$'' \<and> c \<noteq> CHR ''('' \<and> pieces_ok ps)"
| "pieces_ok (Open # ps) = (CHR '')'' \<notin> set (pieces_text ps) \<and> pieces_ok ps)"
| "pieces_ok (Final # ps) = (ps = [])"

text \<open>
  What a piece stands for; \<open>$$\<close> is an operator, a reference is its value, and everything else stays as
  it is written, except that the byte after a stray operator is read as a code point.
\<close>

fun pieces_value :: "(string \<Rightarrow> 's \<Rightarrow> string \<times> 's) \<Rightarrow> piece list \<Rightarrow> 's \<Rightarrow> string \<times> 's" where
  "pieces_value mapping [] st = ([], st)"
| "pieces_value mapping (p # ps) st =
     (let (text, st') = (case p of
            Ref name \<Rightarrow> mapping name st
          | Escape \<Rightarrow> (''$'', st)
          | Stray c \<Rightarrow> (''$'' @ string_of_byte c, st)
          | _ \<Rightarrow> (piece_text p, st));
          (out, st'') = pieces_value mapping ps st'
      in (text @ out, st''))"

lemma pieces_text_simps [simp]: "pieces_text [] = []" "pieces_text (p # ps) = piece_text p @ pieces_text ps"
  by (simp_all add: pieces_text_def)

lemma piece_text_ne [simp]: "piece_text p \<noteq> []"
  by (cases p) simp_all

lemma index_of_None: "index_of c s = None \<longleftrightarrow> c \<notin> set s"
  by (induction s) auto

lemma index_of_append: "c \<notin> set a \<Longrightarrow> index_of c (a @ c # b) = Some (length a)"
  by (induction a) auto

lemma expand_spec_pieces:
  "pieces_ok ps \<Longrightarrow> expand_spec mapping (pieces_text ps) st = pieces_value mapping ps st"
proof (induction ps arbitrary: st rule: pieces_ok.induct)
  case (6 ps)
  then have "index_of referenceCloser (pieces_text ps) = None" by (simp add: index_of_None)
  with 6 show ?case by simp
qed (auto simp: index_of_append split: prod.splits)

text \<open>Every text has exactly one reading.\<close>

lemma pieces_exist: "\<exists>ps. pieces_ok ps \<and> pieces_text ps = s"
proof (induction s rule: length_induct)
  case (1 s)
  have rest: "\<exists>ps. pieces_ok ps \<and> pieces_text ps = t" if "length t < length s" for t using 1 that by blast
  have cons: ?case if "s = piece_text p @ t" "\<And>ps. pieces_text ps = t \<Longrightarrow> pieces_ok ps \<Longrightarrow> pieces_ok (p # ps)" for p t
  proof -
    have "length t < length s" using that(1) by simp
    then obtain ps where "pieces_ok ps" "pieces_text ps = t" using rest by blast
    then show ?thesis using that by (auto intro!: exI [of _ "p # ps"])
  qed
  show ?case
  proof (cases s)
    case (Cons c t)
    show ?thesis
    proof (cases "c = CHR ''$''")
      case False
      then show ?thesis using Cons by (intro cons [of "Plain c" t]) auto
    next
      case op: True
      show ?thesis
      proof (cases t)
        case Nil
        then show ?thesis using Cons op by (intro exI [of _ "[Final]"]) simp
      next
        case (Cons d u)
        consider "d = CHR ''$''" | "d = CHR ''(''" "CHR '')'' \<notin> set u" | "d = CHR ''(''" "CHR '')'' \<in> set u"
          | "d \<noteq> CHR ''$''" "d \<noteq> CHR ''(''" by blast
        then show ?thesis
        proof cases
          case 1
          then show ?thesis using op Cons \<open>s = c # t\<close> by (intro cons [of Escape u]) auto
        next
          case 2
          then show ?thesis using op Cons \<open>s = c # t\<close> by (intro cons [of Open u]) auto
        next
          case 3
          then obtain a b where "u = a @ CHR '')'' # b" "CHR '')'' \<notin> set a" by (metis split_list_first)
          then show ?thesis using 3 op Cons \<open>s = c # t\<close> by (intro cons [of "Ref a" b]) auto
        next
          case 4
          then show ?thesis using op Cons \<open>s = c # t\<close> by (intro cons [of "Stray d" u]) auto
        qed
      qed
    qed
  qed (auto intro!: exI [of _ "[]"])
qed

lemma closer_unique:
  assumes "a @ CHR '')'' # b = a' @ CHR '')'' # b'" "CHR '')'' \<notin> set a" "CHR '')'' \<notin> set a'"
  shows "a = a' \<and> b = b'"
proof -
  have "index_of CHR '')'' (a @ CHR '')'' # b) = Some (length a)" "index_of CHR '')'' (a' @ CHR '')'' # b') = Some (length a')"
    using assms(2,3) by (simp_all add: index_of_append)
  then have "length a = length a'" using assms(1) by simp
  then show ?thesis using assms(1) by simp
qed

lemma closer_in: "a @ CHR '')'' # b = s \<Longrightarrow> CHR '')'' \<in> set s"
  by auto

lemma pieces_unique:
  "pieces_ok ps \<Longrightarrow> pieces_ok qs \<Longrightarrow> pieces_text ps = pieces_text qs \<Longrightarrow> ps = qs"
proof (induction ps arbitrary: qs)
  case (Cons p ps)
  then obtain q qs' where q: "qs = q # qs'" by (cases qs) auto
  have "p = q \<and> pieces_text ps = pieces_text qs'"
    using Cons.prems q by (cases p; cases q) (auto dest: closer_unique closer_in)
  then show ?case using Cons q by (cases p) auto
qed (metis append_is_Nil_conv list.exhaust piece_text_ne pieces_text_simps)

text \<open>
  C35. The expansion of variables, stated by the syntax alone. Every text has exactly one reading as a
  sequence of plain characters, escaped operators \<open>$$\<close>, references \<open>$(NAME)\<close> up to the first closing
  bracket, stray operators and unclosed openers; the loop of \<open>Expand\<close> returns the text in which the
  escapes are single operators and the references their values, everything else as written, and it asks
  the mapping for exactly the names of the references, in their order. (A byte that is not ASCII behind
  a stray operator comes out as the UTF-8 encoding of that byte, \<open>Expand_mangles_rune\<close>.)
\<close>

theorem ExpandS_spec:
  "(\<exists>!ps. pieces_ok ps \<and> pieces_text ps = input) \<and>
   (\<exists>ps. pieces_ok ps \<and> pieces_text ps = input \<and> ExpandS input mapping st = pieces_value mapping ps st)"
proof -
  obtain ps where ps: "pieces_ok ps" "pieces_text ps = input" using pieces_exist by blast
  then have "ExpandS input mapping st = pieces_value mapping ps st"
    using expand_spec_pieces [OF ps(1), of mapping st] by (simp add: ExpandS_def expand_loop_spec split: prod.splits)
  with ps pieces_unique show ?thesis by blast
qed

text \<open>The two bytes of an e with acute accent behind an operator: the first of them is encoded again.\<close>

lemma Expand_mangles_rune:
  "Expand [CHR ''$'', CHR 0xC3, CHR 0xA9] mapping = [CHR ''$'', CHR 0xC3, CHR 0x83, CHR 0xA9]"
  by code_simp

lemmas expand_spec_unit = expand_loop_spec [of 0 0 _ _ "[]", simplified, folded ExpandS_def]

lemma Expand_eq: "Expand input mapping = fst (expand_spec (\<lambda>k u. (mapping k, u)) input ())"
  by (simp add: Expand_def expand_spec_unit split: prod.splits)

text \<open>
  A command line after its expansion, argument by argument: a reference stands for the value of the last
  variable of that name, and stays as it is written when there is none.
\<close>

definition env_value :: "envvar list \<Rightarrow> string \<Rightarrow> unit \<Rightarrow> string \<times> unit" where
  "env_value envs name u =
     (case map_of (rev (map (\<lambda>e. (ev_name e, ev_value e)) envs)) name of
        Some v \<Rightarrow> (v, u)
      | None \<Rightarrow> (''$('' @ name @ '')'', u))"

definition expanded :: "envvar list \<Rightarrow> string list option \<Rightarrow> string list \<Rightarrow> bool" where
  "expanded envs cmd out =
     list_all2 (\<lambda>t v. \<exists>ps. pieces_ok ps \<and> pieces_text ps = t \<and> v = fst (pieces_value (env_value envs) ps ()))
       (case cmd of None \<Rightarrow> [] | Some cs \<Rightarrow> cs) out"

lemma map_of_fold_env:
  "map_of (fold (\<lambda>e. AList.update (ev_name e) (ev_value e)) envs m) k =
     (case map_of (rev (map (\<lambda>e. (ev_name e, ev_value e)) envs)) k of Some v \<Rightarrow> Some v | None \<Rightarrow> map_of m k)"
  by (induction envs arbitrary: m) (auto simp: AList.update_conv' map_add_def split: option.splits)

lemma Expand_pieces: "\<exists>ps. pieces_ok ps \<and> pieces_text ps = t \<and> Expand t (MappingFuncFor [v1EnvVarsToMap envs]) = fst (pieces_value (env_value envs) ps ())"
proof -
  obtain ps where ps: "pieces_ok ps" "pieces_text ps = t" using pieces_exist by blast
  have "(\<lambda>k u. (MappingFuncFor [v1EnvVarsToMap envs] k, u)) = env_value envs"
    by (intro ext) (simp add: v1EnvVarsToMap_def map_of_fold_env env_value_def syntaxWrap_def split: option.split)
  then have "Expand t (MappingFuncFor [v1EnvVarsToMap envs]) = fst (pieces_value (env_value envs) ps ())"
    using expand_spec_pieces [OF ps(1), of "env_value envs" "()"] ps(2) by (simp add: Expand_eq)
  then show ?thesis using ps by blast
qed

lemma ExpandContainerCommand_expanded: "expanded envs cmd (ExpandContainerCommandOnlyStatic cmd envs)"
  using Expand_pieces
  by (auto simp: expanded_def ExpandContainerCommandOnlyStatic_def Let_def list_all2_map2 list.rel_refl split: option.split)

text \<open>Doubling every operator is the escape of the expansion syntax.\<close>

definition escape_text :: "string \<Rightarrow> string" where
  "escape_text s = concat (map (\<lambda>c. if c = operator then [operator, operator] else [c]) s)"

lemma expand_spec_escape: "expand_spec mapping (escape_text s) st = (s, st)"
proof (induction s)
  case (Cons c s)
  show ?case
  proof (cases "c = operator")
    case True
    with Cons show ?thesis by (simp add: escape_text_def)
  next
    case False
    with Cons show ?thesis by (simp add: escape_text_def)
  qed
qed (simp add: escape_text_def)

text \<open>
  Escaping is undone by expansion, for every text and every mapping.
\<close>

theorem Expand_escape: "Expand (escape_text s) mapping = s"
  by (simp add: Expand_eq expand_spec_escape)

lemma string_of_byte_ascii: "of_char c < (128 :: nat) \<Longrightarrow> string_of_byte c = [c]"
  by (simp add: string_of_byte_def)

lemma take_index_closer:
  "index_of c s = Some i \<Longrightarrow> take i s @ c # drop (Suc i) s = s"
  by (induction s arbitrary: i) (auto split: if_splits)

definition ascii_no_escape :: "string \<Rightarrow> bool" where
  "ascii_no_escape s \<longleftrightarrow> list_all (\<lambda>c. of_char c < (128 :: nat)) s \<and> \<not> strings_Contains s [operator, operator]"

lemma ascii_no_escape_suffix: "ascii_no_escape (a @ b) \<Longrightarrow> ascii_no_escape b"
  unfolding ascii_no_escape_def strings_Contains_iff by (metis append.assoc list_all_append)

lemma ascii_no_escape_drop: "ascii_no_escape s \<Longrightarrow> ascii_no_escape (drop n s)"
  by (metis append_take_drop_id ascii_no_escape_suffix)

lemma expand_unresolved:
  "ascii_no_escape s \<Longrightarrow> expand_spec (\<lambda>k u. (syntaxWrap k, u)) s st = (s, st)"
proof (induction "\<lambda>k u. (syntaxWrap k, u :: 'a)" s st rule: expand_spec.induct)
  case (2 c rest st)
  have rest: "ascii_no_escape rest" using "2.prems" ascii_no_escape_drop [of "c # rest" 1] by simp
  show ?case
  proof (cases "c = operator \<and> rest \<noteq> []")
    case False
    with "2.hyps"(2) rest show ?thesis by simp
  next
    case True
    then obtain d ds where r: "rest = d # ds" by (cases rest) auto
    have "d \<noteq> operator"
    proof
      assume "d = operator"
      with True r have "c # rest = [] @ [operator, operator] @ ds" by simp
      with "2.prems" show False unfolding ascii_no_escape_def strings_Contains_iff by metis
    qed
    moreover have "of_char d < (128 :: nat)" using rest r by (simp add: ascii_no_escape_def)
    moreover obtain read isVar advance where tr: "tryReadVariableName rest = (read, isVar, advance)"
      by (metis prod_cases3)
    moreover have "(if isVar then (syntaxWrap read, st) else (read, st)) = (if isVar then syntaxWrap read else read, st)"
      by simp
    moreover note "2.hyps"(1) [OF True tr [symmetric] refl refl this [symmetric] ascii_no_escape_drop [OF rest]]
    ultimately show ?thesis using True r take_index_closer [of referenceCloser ds]
      by (auto simp: string_of_byte_ascii syntaxWrap_def split: if_splits option.splits)
  qed
qed simp

text \<open>
  With no variable defined, a text of ASCII characters without \<open>$$\<close> is returned unchanged:
  references that cannot be resolved and incomplete references stay as they are written.
\<close>

theorem Expand_unresolved:
  assumes "ascii_no_escape s"
  shows "Expand s (MappingFuncFor []) = s"
proof -
  have "(\<lambda>k (u :: unit). (MappingFuncFor [] k, u)) = (\<lambda>k u. (syntaxWrap k, u))" by simp
  with expand_unresolved [OF assms, of "()"] show ?thesis by (simp add: Expand_eq)
qed

theorem Expand_unresolved_witness:
  "Expand ''--x=$(Y) $( $z$'' (MappingFuncFor []) = ''--x=$(Y) $( $z$''"
  by (rule Expand_unresolved) code_simp

end
