(* ===== verification/HPK_Security.thy ===== *)
theory HPK_Security
  imports HPK_K8s
begin

text \<open>
  \<open>compute/podhandler/securitycontext.go\<close>: the security context that a container runs with, from the
  pod's and the container's contexts, and the user and group that follow from it. A pointer field
  that the source copies is an option here, so the copies share nothing. The lemmas show that the
  container's fields take precedence and when a container runs as root.
\<close>

definition RootUID :: int where "RootUID = 0"
definition RootGID :: int where "RootGID = 0"
definition NobodyUID :: int where "NobodyUID = 65534"
definition NobodyGID :: int where "NobodyGID = 65534"

definition empty_security_context :: security_context where
  "empty_security_context = \<lparr>sc_capabilities = None, sc_privileged = None, sc_seLinuxOptions = None,
     sc_windowsOptions = None, sc_runAsUser = None, sc_runAsGroup = None, sc_runAsNonRoot = None,
     sc_readOnlyRootFilesystem = None, sc_allowPrivilegeEscalation = None, sc_procMount = None\<rparr>"

definition empty_windows_options :: windows_options where
  "empty_windows_options = \<lparr>wo_gmsaCredentialSpecName = None, wo_gmsaCredentialSpec = None,
     wo_runAsUserName = None, wo_hostProcess = None\<rparr>"

text \<open>\<open>if src != nil { dst = copy of src }\<close>.\<close>

definition override :: "'a option \<Rightarrow> 'a option \<Rightarrow> 'a option" where
  "override src dst = (case src of None \<Rightarrow> dst | Some x \<Rightarrow> Some x)"

definition securityContextFromPodSecurityContext :: "pod \<Rightarrow> security_context option" where
  "securityContextFromPodSecurityContext pod =
     (case ps_securityContext (p_spec pod) of
        None \<Rightarrow> None
      | Some sc \<Rightarrow> Some (empty_security_context
          \<lparr>sc_seLinuxOptions := override (psc_seLinuxOptions sc) None,
           sc_windowsOptions := override (psc_windowsOptions sc) None,
           sc_runAsUser := override (psc_runAsUser sc) None,
           sc_runAsGroup := override (psc_runAsGroup sc) None,
           sc_runAsNonRoot := override (psc_runAsNonRoot sc) None\<rparr>))"

definition merge_windows :: "windows_options option \<Rightarrow> windows_options option \<Rightarrow> windows_options option" where
  "merge_windows containerOpts effective =
     (case containerOpts of
        None \<Rightarrow> effective
      | Some c \<Rightarrow>
          let e0 = (case effective of None \<Rightarrow> empty_windows_options | Some e \<Rightarrow> e);
              e1 = (if wo_gmsaCredentialSpecName c \<noteq> None \<or> wo_gmsaCredentialSpec c \<noteq> None
                    then e0\<lparr>wo_gmsaCredentialSpecName := wo_gmsaCredentialSpecName c,
                            wo_gmsaCredentialSpec := wo_gmsaCredentialSpec c\<rparr> else e0);
              e2 = (if wo_runAsUserName c \<noteq> None then e1\<lparr>wo_runAsUserName := wo_runAsUserName c\<rparr> else e1);
              e3 = (if wo_hostProcess c \<noteq> None then e2\<lparr>wo_hostProcess := wo_hostProcess c\<rparr> else e2)
          in Some e3)"

definition DetermineEffectiveSecurityContext :: "pod \<Rightarrow> container \<Rightarrow> security_context" where
  "DetermineEffectiveSecurityContext pod container =
     (case (securityContextFromPodSecurityContext pod, c_securityContext container) of
        (None, None) \<Rightarrow> empty_security_context
      | (Some effectiveSc, None) \<Rightarrow> effectiveSc
      | (None, Some containerSc) \<Rightarrow> containerSc
      | (Some effectiveSc, Some containerSc) \<Rightarrow>
          effectiveSc
            \<lparr>sc_seLinuxOptions := override (sc_seLinuxOptions containerSc) (sc_seLinuxOptions effectiveSc),
             sc_windowsOptions := merge_windows (sc_windowsOptions containerSc) (sc_windowsOptions effectiveSc),
             sc_capabilities := override (sc_capabilities containerSc) (sc_capabilities effectiveSc),
             sc_privileged := override (sc_privileged containerSc) (sc_privileged effectiveSc),
             sc_runAsNonRoot := override (sc_runAsNonRoot containerSc) (sc_runAsNonRoot effectiveSc),
             sc_runAsUser := override (sc_runAsUser containerSc) (sc_runAsUser effectiveSc),
             sc_runAsGroup := override (sc_runAsGroup containerSc) (sc_runAsGroup effectiveSc),
             sc_readOnlyRootFilesystem :=
               override (sc_readOnlyRootFilesystem containerSc) (sc_readOnlyRootFilesystem effectiveSc),
             sc_allowPrivilegeEscalation :=
               override (sc_allowPrivilegeEscalation containerSc) (sc_allowPrivilegeEscalation effectiveSc),
             sc_procMount := override (sc_procMount containerSc) (sc_procMount effectiveSc)\<rparr>)"

definition DetermineEffectiveRunAsUser :: "security_context \<Rightarrow> int \<times> int" where
  "DetermineEffectiveRunAsUser sc =
     (let (uid0, gid0) = (if sc_runAsNonRoot sc = Some True then (NobodyUID, NobodyGID) else (RootUID, RootGID))
      in (case sc_runAsUser sc of Some u \<Rightarrow> u | None \<Rightarrow> uid0,
          case sc_runAsGroup sc of Some g \<Rightarrow> g | None \<Rightarrow> gid0))"

subsection \<open>Properties\<close>

text \<open>What the container and the pod ask for, field by field.\<close>

definition asked :: "(security_context \<Rightarrow> 'a option) \<Rightarrow> (pod_security_context \<Rightarrow> 'a option) \<Rightarrow> pod \<Rightarrow> container \<Rightarrow> 'a option" where
  "asked cf pf pod container =
     (case Option.bind (c_securityContext container) cf of
        Some x \<Rightarrow> Some x
      | None \<Rightarrow> Option.bind (ps_securityContext (p_spec pod)) pf)"

lemma effective_fields:
  "sc_runAsUser (DetermineEffectiveSecurityContext pod container) = asked sc_runAsUser psc_runAsUser pod container"
  "sc_runAsGroup (DetermineEffectiveSecurityContext pod container) = asked sc_runAsGroup psc_runAsGroup pod container"
  "sc_runAsNonRoot (DetermineEffectiveSecurityContext pod container) = asked sc_runAsNonRoot psc_runAsNonRoot pod container"
  "sc_seLinuxOptions (DetermineEffectiveSecurityContext pod container) = asked sc_seLinuxOptions psc_seLinuxOptions pod container"
  "sc_privileged (DetermineEffectiveSecurityContext pod container) = asked sc_privileged (\<lambda>_. None) pod container"
  "sc_capabilities (DetermineEffectiveSecurityContext pod container) = asked sc_capabilities (\<lambda>_. None) pod container"
  "sc_readOnlyRootFilesystem (DetermineEffectiveSecurityContext pod container) = asked sc_readOnlyRootFilesystem (\<lambda>_. None) pod container"
  "sc_allowPrivilegeEscalation (DetermineEffectiveSecurityContext pod container) = asked sc_allowPrivilegeEscalation (\<lambda>_. None) pod container"
  by (auto simp: DetermineEffectiveSecurityContext_def securityContextFromPodSecurityContext_def asked_def
      override_def empty_security_context_def split: option.splits)

text \<open>
  The user a container runs as: the one the container asks for, else the one the pod asks for,
  else nobody when either asks for a non-root user, else root. So a container runs as root only when
  root is asked for or nothing is asked for.
\<close>

theorem effective_user:
  "fst (DetermineEffectiveRunAsUser (DetermineEffectiveSecurityContext pod container)) =
     (case asked sc_runAsUser psc_runAsUser pod container of
        Some u \<Rightarrow> u
      | None \<Rightarrow> if asked sc_runAsNonRoot psc_runAsNonRoot pod container = Some True then 65534 else 0)"
  by (simp add: DetermineEffectiveRunAsUser_def effective_fields NobodyUID_def RootUID_def Let_def
      split: option.split)

end
