(* ===== verification/HPK_Image.thy ===== *)
theory HPK_Image
  imports HPK_Slurm
begin

text \<open>
  Package \<open>compute/image\<close> (\<open>constants.go\<close>, \<open>pull.go\<close>, \<open>exec.go\<close>): the file of an image in the image
  directory, and pulling it with Apptainer when it is missing. The lemmas show the file name for
  the usual forms of an image name and that an image that is present is not pulled again.
\<close>

definition Docker :: string where "Docker = ''docker://''"

definition PauseImage :: string where "PauseImage = ''malvag/pause:1.1.9''"

definition Transport_Wrap :: "string \<Rightarrow> string \<Rightarrow> string" where
  "Transport_Wrap t imageName = t @ imageName"

text \<open>
  \<open>ParseImageName\<close>: in the last branch an index panics when the name has no digest.
\<close>

definition ParseImageName :: "string \<Rightarrow> string outcome" where
  "ParseImageName rawImageName =
     (let imageName = last (split_char slash rawImageName);
          mk = (\<lambda>name version. ''/'' @ name @ ''_'' @ version @ ''.sif'')
      in case split_char CHR '':'' imageName of
           [name] \<Rightarrow> Ret (mk name ''latest'')
         | [name, version] \<Rightarrow> Ret (mk name version)
         | _ \<Rightarrow>
             (case split_char CHR ''@'' imageName of
                nv # digest # _ \<Rightarrow>
                  (case split_char CHR '':'' nv of
                     name # version # _ \<Rightarrow> Ret (mk name version)
                   | _ \<Rightarrow> Panic ''index out of range'')
              | _ \<Rightarrow> Panic ''index out of range''))"

text \<open>\<open>Pull\<close> returns the file path of the image.\<close>

definition Pull :: "proc \<Rightarrow> string \<Rightarrow> string \<Rightarrow> string \<Rightarrow> string \<Rightarrow> host \<Rightarrow> (go_error + string) outcome \<times> host" where
  "Pull proc apptainerBin imageDir transport imageName0 h =
     (let imageName = hd (split_char CHR ''@'' imageName0)
      in case ParseImageName imageName of
           Panic m \<Rightarrow> (Panic m, h)
         | Ret nm \<Rightarrow>
             let path = imageDir @ nm
             in (case os_Stat (h_fs h) path of
                   Inr (File c m t) \<Rightarrow> (Ret (Inr path), h)
                 | Inr _ \<Rightarrow> (Ret (Inl (Message (''imagePath '' @ path @ '' is not a regular fie''))), h)
                 | Inl _ \<Rightarrow>
                     (case Execute proc apptainerBin [''pull'', ''--dir'', imageDir, Transport_Wrap transport imageName] h of
                        (out, Some e, h') \<Rightarrow> (Ret (Inl (Wrapped e ''downloading has failed'')), h')
                      | (out, None, h') \<Rightarrow> (Ret (Inr path), h'))))"

definition FakerootExec :: "proc \<Rightarrow> string \<Rightarrow> string \<Rightarrow> string list \<Rightarrow> string list \<Rightarrow> host \<Rightarrow> string \<times> go_error option \<times> host" where
  "FakerootExec proc apptainerBin imagePath singularityArgs cmd h =
     Execute proc apptainerBin ([''exec'', ''--fakeroot''] @ singularityArgs @ [imagePath] @ cmd) h"

subsection \<open>Properties\<close>

lemma split_last:
  "c \<notin> set b \<Longrightarrow> last (split_char c (a @ c # b)) = b"
  by (simp add: split_char_append split_char_none)

text \<open>
  An image name \<open>repository/name:tag\<close> names the file \<open>/name_tag.sif\<close>, whatever the repository is
  (a registry port included), and without a tag the file \<open>/name_latest.sif\<close>.
\<close>

theorem ParseImageName_forms:
  assumes "slash \<notin> set name" "CHR '':'' \<notin> set name" "slash \<notin> set tag" "CHR '':'' \<notin> set tag"
    and "prefx = [] \<or> (\<exists>repo. prefx = repo @ [slash])"
  shows "ParseImageName (prefx @ name @ CHR '':'' # tag) = Ret (''/'' @ name @ ''_'' @ tag @ ''.sif'') \<and>
    ParseImageName (prefx @ name) = Ret (''/'' @ name @ ''_latest.sif'')"
proof -
  have "slash \<notin> set (name @ CHR '':'' # tag)" using assms by simp
  then have "last (split_char slash (prefx @ name @ CHR '':'' # tag)) = name @ CHR '':'' # tag"
    "last (split_char slash (prefx @ name)) = name"
    using assms(1,5) split_last [of slash] by (auto simp: split_char_none)
  then show ?thesis using assms
    by (simp add: ParseImageName_def Let_def split_char_append split_char_none)
qed

theorem ParseImageName_forms_witness:
  "ParseImageName (''reg:5000/ns/'' @ ''alpine'' @ CHR '':'' # ''3.1'') = Ret (''/'' @ ''alpine'' @ ''_'' @ ''3.1'' @ ''.sif'') \<and>
   ParseImageName (''reg:5000/ns/'' @ ''alpine'') = Ret (''/'' @ ''alpine'' @ ''_latest.sif'')"
  by (rule ParseImageName_forms) auto

text \<open>
  The file of an image by the form of its name: the part after the last slash is a name, a name and a
  tag, or a name and a tag followed by more (a digest).
\<close>

definition image_file :: "string \<Rightarrow> string \<Rightarrow> bool" where
  "image_file raw file \<longleftrightarrow>
     (\<exists>repo name tag rest. (repo = [] \<or> last repo = slash) \<and> slash \<notin> set (name @ tag @ rest) \<and>
        CHR '':'' \<notin> set name \<and> CHR '':'' \<notin> set tag \<and>
        (raw = repo @ name \<and> file = ''/'' @ name @ ''_latest.sif'' \<or>
         raw = repo @ name @ '':'' @ tag \<and> file = ''/'' @ name @ ''_'' @ tag @ ''.sif'' \<or>
         raw = repo @ name @ '':'' @ tag @ rest \<and> file = ''/'' @ name @ ''_'' @ tag @ ''.sif'' \<and>
           CHR ''@'' \<notin> set name \<and> CHR ''@'' \<notin> set tag \<and> rest \<noteq> [] \<and> hd rest \<in> {CHR '':'', CHR ''@''} \<and>
           {CHR '':'', CHR ''@''} \<subseteq> set rest))"

lemma last_split:
  "\<exists>front. (front = [] \<or> last front = c) \<and> s = front @ last (split_char c s) \<and> c \<notin> set (last (split_char c s))"
proof (cases "c \<in> set s")
  case True
  then obtain a b where "s = a @ c # b" "c \<notin> set b" using split_list_last by metis
  then show ?thesis using split_last [of c b a] by (intro exI [of _ "a @ [c]"]) simp
qed (simp add: split_char_none)

lemma split_first:
  assumes "split_char c s = x # xs"
  shows "s = x @ (if xs = [] then [] else c # strings_Join xs [c]) \<and> c \<notin> set x"
  using Join_split_char [of c s] split_char_elem [of x c s] assms by (auto simp: strings_Join_Cons)

lemma ParseImageName_image:
  assumes "ParseImageName raw = Ret file"
  shows "image_file raw file"
proof -
  define im where "im = last (split_char slash raw)"
  obtain repo where repo: "repo = [] \<or> last repo = slash" "raw = repo @ im" "slash \<notin> set im"
    using last_split [of slash raw] im_def by blast
  consider (name) name where "split_char CHR '':'' im = [name]"
    | (tag) name tag where "split_char CHR '':'' im = [name, tag]"
    | (more) "\<nexists>name. split_char CHR '':'' im = [name]" "\<nexists>name tag. split_char CHR '':'' im = [name, tag]" by blast
  then show ?thesis
  proof cases
    case name
    then have "im = name" "CHR '':'' \<notin> set name" using split_first by fastforce+
    then have fl: "file = ''/'' @ name @ ''_latest.sif''" and im: "im = name" "CHR '':'' \<notin> set name"
      using name assms by (simp_all add: ParseImageName_def im_def [symmetric])
    have "slash \<notin> set (name @ [] @ [])" "CHR '':'' \<notin> set []" using im(1) repo(3) by simp_all
    then show ?thesis unfolding image_file_def
      using fl im repo(1,2) by (intro exI [of _ repo] exI [of _ name] exI [of _ "[]"]) simp
  next
    case tag
    then have t: "im = name @ '':'' @ tag" "CHR '':'' \<notin> set name" "CHR '':'' \<notin> set tag"
      using split_first [OF tag] split_char_elem [of tag "CHR '':''" im] by simp_all
    then have fl: "file = ''/'' @ name @ ''_'' @ tag @ ''.sif''"
      using tag assms by (simp add: ParseImageName_def im_def [symmetric])
    have "slash \<notin> set (name @ tag @ [])" using t(1) repo(3) by simp
    then show ?thesis unfolding image_file_def
      using fl t repo(1,2) by (intro exI [of _ repo] exI [of _ name] exI [of _ tag] exI [of _ "[]"]) simp
  next
    case more
    obtain x y z zs where xs: "split_char CHR '':'' im = x # y # z # zs"
      using more split_char_not_Nil [of "CHR '':''" im] by (metis list.exhaust)
    obtain nv digest ds name tag vs where nv: "split_char CHR ''@'' im = nv # digest # ds" "split_char CHR '':'' nv = name # tag # vs"
      "file = ''/'' @ name @ ''_'' @ tag @ ''.sif''"
      using assms xs by (auto simp: ParseImageName_def im_def [symmetric] split: list.splits)
    define rest where "rest = (if vs = [] then [] else CHR '':'' # strings_Join vs '':'') @ ''@'' @ strings_Join (digest # ds) ''@''"
    have n1: "im = nv @ ''@'' @ strings_Join (digest # ds) ''@''" "CHR ''@'' \<notin> set nv"
      using split_first [OF nv(1)] by simp_all
    have n2: "nv = name @ '':'' @ tag @ (if vs = [] then [] else CHR '':'' # strings_Join vs '':'')" "CHR '':'' \<notin> set name" "CHR '':'' \<notin> set tag"
      using split_first [OF nv(2)] split_char_elem [of tag "CHR '':''" nv] nv(2) by (simp_all add: strings_Join_Cons)
    have im: "im = name @ '':'' @ tag @ rest" using n1 n2 by (simp add: rest_def)
    have "CHR '':'' \<in> set rest"
    proof (rule ccontr)
      assume "CHR '':'' \<notin> set rest"
      then have "split_char CHR '':'' im = [name, tag @ rest]" using im n2 by (simp add: split_char_append split_char_none)
      then show False using more by blast
    qed
    moreover have "CHR ''@'' \<in> set rest" "rest \<noteq> []" "hd rest \<in> {CHR '':'', CHR ''@''}" by (simp_all add: rest_def)
    moreover have "CHR ''@'' \<notin> set name" "CHR ''@'' \<notin> set tag" using n1(2) n2(1) by simp_all
    moreover have "slash \<notin> set (name @ tag @ rest)" using repo(3) im by simp
    ultimately show ?thesis using repo(1,2) im n2(2,3) nv(3) unfolding image_file_def by auto
  qed
qed

text \<open>
  Pulling an image whose file is present runs no command and changes nothing; otherwise Apptainer
  is run exactly once, and an error is returned exactly when it fails.
\<close>

theorem Pull_once:
  assumes "ParseImageName (hd (split_char CHR ''@'' img)) = Ret nm"
  shows "(\<forall>c m t. os_Stat (h_fs h) (dir @ nm) = Inr (File c m t) \<longrightarrow>
      Pull proc bin dir tr img h = (Ret (Inr (dir @ nm)), h)) \<and>
    (\<forall>err. os_Stat (h_fs h) (dir @ nm) = Inl err \<longrightarrow>
      (\<exists>r h'. Pull proc bin dir tr img h = (Ret r, h') \<and>
        h_cmds h' = h_cmds h @ [(bin, [''pull'', ''--dir'', dir, tr @ hd (split_char CHR ''@'' img)])] \<and>
        (isl r \<longleftrightarrow>
          (\<nexists>out. fst (proc bin [''pull'', ''--dir'', dir, tr @ hd (split_char CHR ''@'' img)] h) = ProcOk out))))"
  using assms
  by (auto simp: Pull_def Let_def Execute_defs Transport_Wrap_def split: prod.splits proc_result.splits)

theorem Pull_once_witness:
  "\<exists>r h'. Pull (\<lambda>c a h. (ProcOk [], h_fs h)) ''apptainer'' ''/h/.images'' Docker ''alpine''
      \<lparr>h_fs = demo_fs\<lparr>faults := (\<lambda>op s. Some EIO)\<rparr>, h_cmds = []\<rparr> = (Ret r, h') \<and>
    h_cmds h' = [(''apptainer'', [''pull'', ''--dir'', ''/h/.images'', Docker @ ''alpine''])] \<and> \<not> isl r"
proof -
  let ?h = "\<lparr>h_fs = demo_fs\<lparr>faults := (\<lambda>op s. Some EIO)\<rparr>, h_cmds = []\<rparr>"
  have "os_Stat (h_fs ?h) (''/h/.images'' @ ''/alpine_latest.sif'') = Inl (OsError EIO (''/h/.images'' @ ''/alpine_latest.sif''))"
    by (simp add: os_Stat_def syscall_def)
  moreover have "ParseImageName (hd (split_char CHR ''@'' ''alpine'')) = Ret ''/alpine_latest.sif''"
    by (simp add: ParseImageName_def)
  moreover have "hd (split_char CHR ''@'' ''alpine'') = ''alpine''" by simp
  ultimately show ?thesis
    using Pull_once [where img = "''alpine''" and dir = "''/h/.images''" and h = ?h and
        proc = "\<lambda>c a h. (ProcOk [], h_fs h)" and bin = "''apptainer''" and tr = Docker]
    by (metis append_Nil fst_conv host.select_convs(2))
qed

end
