(* ===== verification/HPK_Poller.thy ===== *)
theory HPK_Poller
  imports HPK_Endpoint
begin

text \<open>
  Package \<open>pkg/filenotify\<close>: the interface \<open>FileWatcher\<close> and the polling watcher (\<open>poller.go\<close>). The
  state \<open>poller\<close> holds the set of watches, the flag \<open>closed\<close> and the items of the running
  \<open>watch\<close> goroutines with their two snapshots; \<open>tick\<close> is one turn of such a goroutine. The interface
  is the locale \<open>file_watcher\<close>, interpreted on the poller. The lemmas show, over any number of
  polls, exactly which appearances of files are reported (so all of them, once each, in a directory
  in which files only appear), when an event is lost, and what becomes of watches that are removed or closed.
\<close>

subsection \<open>Events and file information\<close>

datatype fs_op = OpCreate | OpWrite | OpRemove | OpRename | OpChmod

record fs_event =
  ev_path :: string
  ev_ops :: "fs_op list"

definition Op_Has :: "fs_event \<Rightarrow> fs_op \<Rightarrow> bool" where
  "Op_Has e op = (op \<in> set (ev_ops e))"

datatype node_kind = KFile | KDir | KSymlink | KSpecial special

text \<open>\<open>os.FileInfo\<close>; the mode is the kind and the permission bits.\<close>

record finfo =
  fi_kind :: node_kind
  fi_perm :: int
  fi_mtime :: int
  fi_size :: int

definition info_of :: "fnode \<Rightarrow> finfo" where
  "info_of n =
     (case n of
        File c m t \<Rightarrow> \<lparr>fi_kind = KFile, fi_perm = m, fi_mtime = t, fi_size = int (length c)\<rparr>
      | Dir m \<Rightarrow> \<lparr>fi_kind = KDir, fi_perm = m, fi_mtime = 0, fi_size = 0\<rparr>
      | Symlink l \<Rightarrow> \<lparr>fi_kind = KSymlink, fi_perm = 511, fi_mtime = 0, fi_size = int (length l)\<rparr>
      | Special k \<Rightarrow> \<lparr>fi_kind = KSpecial k, fi_perm = 420, fi_mtime = 0, fi_size = 0\<rparr>)"

definition fi_IsDir :: "finfo \<Rightarrow> bool" where
  "fi_IsDir fi = (fi_kind fi = KDir)"

subsection \<open>Recordings (poller.go)\<close>

record recording =
  rec_info :: "finfo option"
  rec_entries :: "(string \<times> finfo) list"

definition empty_recording :: recording where
  "empty_recording = \<lparr>rec_info = None, rec_entries = []\<rparr>"

definition dir_infos :: "fsys \<Rightarrow> fpath \<Rightarrow> (string \<times> finfo) list" where
  "dir_infos w p =
     map (\<lambda>n. (n, case fs_lookup w (p @ [n]) of Some nd \<Rightarrow> info_of nd | None \<Rightarrow> info_of (Dir 0)))
       (remdups (fs_children w p))"

text \<open>
  \<open>record\<close>: the recording after the call (it is cleared first) and the error. \<open>Readdir\<close> reads the
  entries of the directory that \<open>Open\<close> resolved.
\<close>

definition record_file :: "fsys \<Rightarrow> string \<Rightarrow> go_error option \<times> recording" where
  "record_file w filename =
     (case os_Stat w filename of
        Inl err \<Rightarrow> if os_IsNotExist err then (None, empty_recording) else (Some err, empty_recording)
      | Inr nd \<Rightarrow>
          let fi = info_of nd; r = empty_recording\<lparr>rec_info := Some fi\<rparr>
          in if fi_IsDir fi then
               (case os_Open w filename of
                  Inl err \<Rightarrow> if os_IsNotExist err then (None, r) else (Some err, r)
                | Inr _ \<Rightarrow>
                    (case os_ReadDirNames w filename of
                       Inl err \<Rightarrow> if os_IsNotExist err then (None, r) else (Some err, r)
                     | Inr _ \<Rightarrow>
                         (case fs_resolve True w filename of
                            Inl _ \<Rightarrow> (None, r)
                          | Inr p \<Rightarrow> (None, r\<lparr>rec_entries := dir_infos w p\<rparr>))))
             else (None, r))"

definition checkChange :: "finfo option \<Rightarrow> finfo option \<Rightarrow> fs_op option" where
  "checkChange fi1 fi2 =
     (case (fi1, fi2) of
        (None, Some _) \<Rightarrow> Some OpCreate
      | (Some _, None) \<Rightarrow> Some OpRemove
      | (None, None) \<Rightarrow> None
      | (Some a, Some b) \<Rightarrow>
          if fi_IsDir a \<or> fi_IsDir b then None
          else if fi_kind a \<noteq> fi_kind b \<or> fi_perm a \<noteq> fi_perm b then Some OpChmod
          else if fi_mtime a \<noteq> fi_mtime b \<or> fi_size a \<noteq> fi_size b then Some OpWrite
          else None)"

record watch_item =
  wi_filename :: string
  wi_left :: recording
  wi_right :: recording  \<comment> \<open>allocated on the first check; empty before\<close>

definition newItemToWatch :: "fsys \<Rightarrow> string \<Rightarrow> go_error + watch_item" where
  "newItemToWatch w filename =
     (case record_file w filename of
        (Some err, _) \<Rightarrow> Inl err
      | (None, r) \<Rightarrow> Inr \<lparr>wi_filename = filename, wi_left = r, wi_right = empty_recording\<rparr>)"

text \<open>
  The comparison of the entries: the loop runs over the larger of the two maps, and \<open>leftIsIn\<close> says
  that the two were exchanged.
\<close>

definition entry_events :: "string \<Rightarrow> (string \<times> finfo) list \<Rightarrow> (string \<times> finfo) list \<Rightarrow> fs_event list" where
  "entry_events filename old new =
     (let leftIsIn = length new > length old;
          (big, small) = (if leftIsIn then (new, old) else (old, new))
      in concat (map (\<lambda>(name, fi1).
           (let fi2 = map_of small name;
                (fil, fir) = (if leftIsIn then (fi2, Some fi1) else (Some fi1, fi2))
            in case checkChange fil fir of
                 None \<Rightarrow> []
               | Some op \<Rightarrow> [\<lparr>ev_path = filepath_Join [filename, name], ev_ops = [op]\<rparr>])) big))"

definition compare_recordings :: "string \<Rightarrow> recording \<Rightarrow> recording \<Rightarrow> fs_event list" where
  "compare_recordings filename left right =
     (case checkChange (rec_info left) (rec_info right) of
        Some dirOp \<Rightarrow> [\<lparr>ev_path = filename, ev_ops = [dirOp]\<rparr>]
      | None \<Rightarrow>
          (case rec_info left of
             None \<Rightarrow> []
           | Some fi \<Rightarrow>
               if \<not> fi_IsDir fi then []
               else entry_events filename (rec_entries left) (rec_entries right)))"

definition checkForChanges :: "fsys \<Rightarrow> watch_item \<Rightarrow> (go_error + fs_event list) \<times> watch_item" where
  "checkForChanges w item =
     (case record_file w (wi_filename item) of
        (err, r) \<Rightarrow>
          let item' = item\<lparr>wi_right := r\<rparr>;
              evs = Inr (compare_recordings (wi_filename item) (wi_left item) r)
          in (case err of
                Some e \<Rightarrow> if \<not> os_IsNotExist e then (Inl e, item') else (evs, item')
              | None \<Rightarrow> (evs, item')))"

text \<open>One turn of the loop of \<open>watch\<close>: check, then exchange the two recordings.\<close>

definition watch_turn :: "fsys \<Rightarrow> watch_item \<Rightarrow> (go_error + fs_event list) \<times> watch_item" where
  "watch_turn w item =
     (case checkForChanges w item of
        (r, item1) \<Rightarrow> (r, item1\<lparr>wi_left := wi_right item1, wi_right := wi_left item1\<rparr>))"

subsection \<open>The poller\<close>

definition errPollerClosed :: go_error where "errPollerClosed = Sentinel ''poller is closed''"
definition ErrWatchExists :: go_error where "ErrWatchExists = Sentinel ''watch exists''"

record poller =
  po_interval :: int
  po_watches :: "string list"
  po_closed :: bool
  po_items :: "watch_item list"  \<comment> \<open>of the running goroutines, in the order they were started\<close>
  po_errors :: "go_error list"   \<comment> \<open>what the goroutines sent on the two channels\<close>
  po_events :: "fs_event list"

definition NewPollingWatcher :: "int \<Rightarrow> poller" where
  "NewPollingWatcher interval =
     \<lparr>po_interval = interval, po_watches = [], po_closed = False, po_items = [], po_errors = [], po_events = []\<rparr>"

definition poller_Add :: "fsys \<Rightarrow> string \<Rightarrow> poller \<Rightarrow> go_error option \<times> poller" where
  "poller_Add w name po =
     (if po_closed po then (Some errPollerClosed, po)
      else case newItemToWatch w name of
        Inl err \<Rightarrow> (Some err, po)
      | Inr item \<Rightarrow>
          if rec_info (wi_left item) = None then (Some (OsError ENOENT name), po)
          else if name \<in> set (po_watches po) then (Some ErrWatchExists, po)
          else (None, po\<lparr>po_watches := po_watches po @ [name], po_items := po_items po @ [item]\<rparr>))"

definition poller_remove :: "string \<Rightarrow> poller \<Rightarrow> go_error option \<times> poller" where
  "poller_remove name po =
     (if po_closed po then (Some errPollerClosed, po)
      else (None, po\<lparr>po_watches := filter (\<lambda>n. n \<noteq> name) (po_watches po)\<rparr>))"

definition poller_Remove :: "string \<Rightarrow> poller \<Rightarrow> go_error option \<times> poller" where
  "poller_Remove name po = poller_remove name po"

text \<open>
  \<open>Close\<close> closes \<open>done\<close>, which ends the goroutines, and calls \<open>remove\<close> on every watch with
  \<open>closed\<close> already set.
\<close>

definition poller_Close :: "poller \<Rightarrow> go_error option \<times> poller" where
  "poller_Close po =
     (if po_closed po then (None, po)
      else let po1 = po\<lparr>po_closed := True, po_items := []\<rparr>
           in (None, fold (\<lambda>name p. snd (poller_remove name p)) (po_watches po1) po1))"

text \<open>
  The ticker of the goroutine of item \<open>i\<close> fires: the error or the events are sent on the channels.
\<close>

definition tick :: "fsys \<Rightarrow> nat \<Rightarrow> poller \<Rightarrow> poller" where
  "tick w i po =
     (if i < length (po_items po) then
        (case watch_turn w (po_items po ! i) of
           (Inl e, item) \<Rightarrow> po\<lparr>po_items := (po_items po)[i := item], po_errors := po_errors po @ [e]\<rparr>
         | (Inr evs, item) \<Rightarrow> po\<lparr>po_items := (po_items po)[i := item], po_events := po_events po @ evs\<rparr>)
      else po)"

subsection \<open>The interface FileWatcher\<close>

text \<open>What a client may rely on: which names are watched after \<open>Add\<close> and \<open>Remove\<close>.\<close>

datatype watch_op = WatchAdd fsys string | WatchRemove string

fun run_watch_ops :: "(fsys \<Rightarrow> string \<Rightarrow> 'w \<Rightarrow> go_error option \<times> 'w) \<Rightarrow>
    (string \<Rightarrow> 'w \<Rightarrow> go_error option \<times> 'w) \<Rightarrow> watch_op list \<Rightarrow> 'w \<Rightarrow> 'w" where
  "run_watch_ops add remove [] s = s"
| "run_watch_ops add remove (WatchAdd w n # ops) s = run_watch_ops add remove ops (snd (add w n s))"
| "run_watch_ops add remove (WatchRemove n # ops) s = run_watch_ops add remove ops (snd (remove n s))"

locale file_watcher =
  fixes add :: "fsys \<Rightarrow> string \<Rightarrow> 'w \<Rightarrow> go_error option \<times> 'w"
    and remove :: "string \<Rightarrow> 'w \<Rightarrow> go_error option \<times> 'w"
    and watching :: "'w \<Rightarrow> string set"
  assumes add_ok: "add w n s = (None, s') \<Longrightarrow> n \<notin> watching s \<and> watching s' = insert n (watching s)"
    and add_err: "add w n s = (Some e, s') \<Longrightarrow> watching s' = watching s"
    and remove_ok: "remove n s = (None, s') \<Longrightarrow> watching s' = watching s - {n}"
    and remove_err: "remove n s = (Some e, s') \<Longrightarrow> watching s' = watching s"
begin

lemma add_keeps: "n \<in> watching s \<Longrightarrow> n \<in> watching (snd (add w m s))"
  using add_ok [of w m s] add_err [of w m s] by (cases "add w m s"; cases "fst (add w m s)") auto

lemma remove_other_keeps: "n \<in> watching s \<Longrightarrow> n \<noteq> m \<Longrightarrow> n \<in> watching (snd (remove m s))"
  using remove_ok [of m s] remove_err [of m s] by (cases "remove m s"; cases "fst (remove m s)") auto

lemma watch_survives:
  "n \<in> watching s \<Longrightarrow> WatchRemove n \<notin> set ops \<Longrightarrow> n \<in> watching (run_watch_ops add remove ops s)"
proof (induction ops arbitrary: s)
  case (Cons op ops)
  then show ?case by (cases op) (auto simp: add_keeps remove_other_keeps)
qed simp

lemma add_twice_refused: "add w n s = (None, s') \<Longrightarrow> add w' n s' \<noteq> (None, s'')"
  using add_ok by blast

end

interpretation po_watcher: file_watcher poller_Add poller_Remove "\<lambda>po. set (po_watches po)"
  by unfold_locales
    (auto simp: poller_Add_def poller_Remove_def poller_remove_def split: if_splits sum.splits)

subsection \<open>A recording of a directory\<close>

definition watchable :: "fsys \<Rightarrow> fpath \<Rightarrow> bool" where
  "watchable w p \<longleftrightarrow> list_all name_ok p \<and> real_dir w p \<and>
     list_all (\<lambda>op. faults w op (abs_path p) = None) [SysStat, SysOpen, SysReaddir]"

definition names_in :: "fsys \<Rightarrow> fpath \<Rightarrow> string list" where
  "names_in w p = remdups (fs_children w p)"

lemma dir_infos_names [simp]: "map fst (dir_infos w p) = names_in w p"
  by (simp add: dir_infos_def names_in_def comp_def)

lemma record_watchable:
  assumes "watchable w p"
  shows "\<exists>fi. fi_IsDir fi \<and> record_file w (abs_path p) = (None, \<lparr>rec_info = Some fi, rec_entries = dir_infos w p\<rparr>)"
proof -
  have res: "fs_resolve True w (abs_path p) = Inr p" and real: "is_dir (fs_lookup w p)"
    using assms by (auto simp: watchable_def fs_resolve_dir intro: real_dir_lookup)
  then obtain m where "fs_lookup w p = Some (Dir m)" by (auto elim: is_dirE)
  with assms res show ?thesis
    by (simp add: watchable_def record_file_def os_Stat_def os_Open_def os_ReadDirNames_def syscall_def
        node_at_def Let_def empty_recording_def info_of_def fi_IsDir_def)
qed

subsection \<open>Which creations are reported\<close>

definition created :: "fs_event list \<Rightarrow> string list" where
  "created evs = map ev_path (filter (\<lambda>e. ev_ops e = [OpCreate]) evs)"

lemma created_append [simp]: "created (a @ b) = created a @ created b"
  by (simp add: created_def)

lemma checkChange_Create: "checkChange a b = Some OpCreate \<longleftrightarrow> a = None \<and> b \<noteq> None"
  by (auto simp: checkChange_def split: option.splits if_splits)

lemma checkChange_new: "checkChange None (Some fi) = Some OpCreate"
  by (simp add: checkChange_def)

lemma created_entry_events:
  "created (entry_events fname old new) =
   (if length old < length new
    then map (\<lambda>n. filepath_Join [fname, n]) (filter (\<lambda>n. map_of old n = None) (map fst new)) else [])"
proof -
  have big: "created (concat (map (\<lambda>(name, fi1). case checkChange (map_of small name) (Some fi1) of
        None \<Rightarrow> [] | Some op \<Rightarrow> [\<lparr>ev_path = filepath_Join [fname, name], ev_ops = [op]\<rparr>]) xs)) =
      map (\<lambda>n. filepath_Join [fname, n]) (filter (\<lambda>n. map_of small n = None) (map fst xs))" for xs small
    by (induction xs) (auto simp: created_def checkChange_Create checkChange_new split: option.splits)
  have none: "created (concat (map (\<lambda>(name, fi1). case checkChange (Some fi1) (map_of small name) of
        None \<Rightarrow> [] | Some op \<Rightarrow> [\<lparr>ev_path = filepath_Join [fname, name], ev_ops = [op]\<rparr>]) xs)) = []" for xs small
    by (induction xs) (auto simp: created_def checkChange_Create split: option.splits)
  show ?thesis using big none by (auto simp: entry_events_def Let_def)
qed

lemma map_of_dir_infos_None: "map_of (dir_infos w p) n = None \<longleftrightarrow> n \<notin> set (names_in w p)"
  by (metis dir_infos_names map_of_eq_None_iff set_map)

lemma length_dir_infos [simp]: "length (dir_infos w p) = length (names_in w p)"
  by (metis dir_infos_names length_map)

text \<open>An item whose left recording is the directory as \<open>w\<close> had it.\<close>

definition item_at :: "fsys \<Rightarrow> fpath \<Rightarrow> watch_item \<Rightarrow> bool" where
  "item_at w p item \<longleftrightarrow> wi_filename item = abs_path p \<and> rec_entries (wi_left item) = dir_infos w p \<and>
     (\<exists>fi. rec_info (wi_left item) = Some fi \<and> fi_IsDir fi)"

lemma checkChange_dirs: "fi_IsDir a \<Longrightarrow> checkChange (Some a) (Some b) = None"
  by (simp add: checkChange_def)

lemma watch_turn_dir:
  assumes "item_at w p item" "watchable w' p"
  shows "\<exists>item'. watch_turn w' item = (Inr (entry_events (abs_path p) (dir_infos w p) (dir_infos w' p)), item') \<and>
    item_at w' p item'"
proof -
  obtain fi where "fi_IsDir fi" "record_file w' (abs_path p) = (None, \<lparr>rec_info = Some fi, rec_entries = dir_infos w' p\<rparr>)"
    using record_watchable [OF assms(2)] by auto
  with assms(1) show ?thesis
    by (auto simp: watch_turn_def checkForChanges_def item_at_def Let_def compare_recordings_def checkChange_dirs)
qed

text \<open>The turns of one goroutine on a sequence of states of the file system.\<close>

fun poll_all :: "fsys list \<Rightarrow> watch_item \<Rightarrow> fs_event list \<times> watch_item" where
  "poll_all [] item = ([], item)"
| "poll_all (w # ws) item =
     (case watch_turn w item of
        (r, item') \<Rightarrow>
          (case poll_all ws item' of
             (evs, item'') \<Rightarrow> ((case r of Inl e \<Rightarrow> [] | Inr evs0 \<Rightarrow> evs0) @ evs, item'')))"

text \<open>Files only appear.\<close>

fun only_added :: "fpath \<Rightarrow> fsys \<Rightarrow> fsys list \<Rightarrow> bool" where
  "only_added p w [] = True"
| "only_added p w (w' # ws) = (set (names_in w p) \<subseteq> set (names_in w' p) \<and> only_added p w' ws)"

lemma names_in_distinct [simp]: "distinct (names_in w p)"
  by (simp add: names_in_def)

lemma only_added_last: "only_added p w ws \<Longrightarrow> set (names_in w p) \<subseteq> set (names_in (last (w # ws)) p)"
  by (induction p w ws rule: only_added.induct) (auto split: if_splits)

text \<open>
  What the polls of a directory show: when a poll finds more entries than the one before, the names that
  are new; when it does not, nothing, whatever has appeared.
\<close>

fun appearances :: "fpath \<Rightarrow> fsys \<Rightarrow> fsys list \<Rightarrow> string list" where
  "appearances p w [] = []"
| "appearances p w (w' # ws) =
     (if length (names_in w p) < length (names_in w' p)
      then filter (\<lambda>n. n \<notin> set (names_in w p)) (names_in w' p) else []) @ appearances p w' ws"

lemma poll_all_appearances:
  assumes "item_at w p item" "\<forall>w'\<in>set ws. watchable w' p"
  shows "created (fst (poll_all ws item)) = map (\<lambda>n. filepath_Join [abs_path p, n]) (appearances p w ws)"
  using assms
proof (induction ws arbitrary: w item)
  case (Cons w' ws)
  then obtain item' where turn: "watch_turn w' item = (Inr (entry_events (abs_path p) (dir_infos w p) (dir_infos w' p)), item')"
      "item_at w' p item'" using watch_turn_dir by force
  moreover have "created (fst (poll_all ws item')) = map (\<lambda>n. filepath_Join [abs_path p, n]) (appearances p w' ws)"
    using Cons.IH [OF turn(2)] Cons.prems(2) by simp
  ultimately show ?case
    by (auto simp: created_entry_events map_of_dir_infos_None split: prod.splits)
qed (simp add: created_def)

lemma appearances_only_added:
  assumes "only_added p w ws"
  shows "distinct (appearances p w ws) \<and> set (appearances p w ws) = set (names_in (last (w # ws)) p) - set (names_in w p)"
  using assms
proof (induction ws arbitrary: w)
  case (Cons w' ws)
  have sub: "set (names_in w p) \<subseteq> set (names_in w' p)" and rest: "only_added p w' ws" using Cons.prems by simp_all
  note IH = Cons.IH [OF rest] and mono = only_added_last [OF rest]
  have new: "(if length (names_in w p) < length (names_in w' p)
      then filter (\<lambda>n. n \<notin> set (names_in w p)) (names_in w' p) else []) = filter (\<lambda>n. n \<notin> set (names_in w p)) (names_in w' p)"
  proof (cases "length (names_in w p) < length (names_in w' p)")
    case False
    then have "card (set (names_in w' p)) \<le> card (set (names_in w p))" by (simp add: distinct_card)
    with sub have "set (names_in w p) = set (names_in w' p)" by (meson List.finite_set card_seteq)
    then show ?thesis by (simp add: filter_empty_conv)
  qed simp
  show ?case unfolding appearances.simps new using IH sub mono by auto
qed simp

text \<open>
  C32. What the polling watcher reports, for any states of the directory at its polls. A poll that finds
  more entries than the poll before reports a creation for exactly the names that are new; a poll that
  does not reports none, so a file that appears while as many disappear is never reported. Hence in a
  directory in which files only appear, every file that appeared after the watch was added and before
  the last poll is reported exactly once, and no other file.
\<close>

theorem poller_reports_creations:
  assumes "item_at w p item" "\<forall>w'\<in>set ws. watchable w' p"
    and "list_all name_ok p" "\<forall>w'\<in>set ws. \<forall>n\<in>set (names_in w' p). name_ok n"
  shows "created (fst (poll_all ws item)) = map (\<lambda>n. abs_path (p @ [n])) (appearances p w ws) \<and>
    (only_added p w ws \<longrightarrow> distinct (created (fst (poll_all ws item))) \<and>
       set (created (fst (poll_all ws item))) =
         (\<lambda>n. abs_path (p @ [n])) ` (set (names_in (last (w # ws)) p) - set (names_in w p)))"
proof -
  have ok: "\<forall>n\<in>set (appearances p w ws). name_ok n"
    using assms(4) by (induction ws arbitrary: w) auto
  then have eq: "created (fst (poll_all ws item)) = map (\<lambda>n. abs_path (p @ [n])) (appearances p w ws)"
    using poll_all_appearances [OF assms(1,2)] assms(3) by simp
  have inj: "inj_on (\<lambda>n. abs_path (p @ [n])) (set (appearances p w ws))"
    using ok assms(3) by (auto simp: inj_on_def abs_path_inject)
  have "distinct (created (fst (poll_all ws item))) \<and> set (created (fst (poll_all ws item))) =
      (\<lambda>n. abs_path (p @ [n])) ` (set (names_in (last (w # ws)) p) - set (names_in w p))" if "only_added p w ws"
    using appearances_only_added [OF that] inj unfolding eq distinct_map set_map by simp
  with eq show ?thesis by blast
qed

definition demo_ctl_fs :: "string list \<Rightarrow> fsys" where
  "demo_ctl_fs files = demo_fs\<lparr>entries := entries demo_fs @
     ([''h'', ''default'', ''web'', ''controlfiles''], Dir 493) #
     map (\<lambda>f. ([''h'', ''default'', ''web'', ''controlfiles'', f], File ''1'' 420 0)) files\<rparr>"

definition demo_ctl :: fpath where
  "demo_ctl = [''h'', ''default'', ''web'', ''controlfiles'']"

definition demo_item :: "string list \<Rightarrow> watch_item" where
  "demo_item files = \<lparr>wi_filename = abs_path demo_ctl,
     wi_left = \<lparr>rec_info = Some (info_of (Dir 493)), rec_entries = dir_infos (demo_ctl_fs files) demo_ctl\<rparr>,
     wi_right = empty_recording\<rparr>"

lemma demo_item_at: "item_at (demo_ctl_fs files) demo_ctl (demo_item files)"
  by (simp add: item_at_def demo_item_def info_of_def fi_IsDir_def)

lemma demo_watchable: "watchable (demo_ctl_fs files) demo_ctl"
  by (simp add: watchable_def demo_ctl_def demo_ctl_fs_def demo_fs_def name_ok_def fs_lookup_def)

lemma fs_children_append:
  "fs_children (w\<lparr>entries := a @ b\<rparr>) p = fs_children (w\<lparr>entries := a\<rparr>) p @ fs_children (w\<lparr>entries := b\<rparr>) p"
  by (simp add: fs_children_def)

lemma demo_names: "names_in (demo_ctl_fs files) demo_ctl = remdups files"
proof -
  let ?f = "\<lambda>f. ([''h'', ''default'', ''web'', ''controlfiles'', f], File ''1'' 420 0)"
  have old: "fs_children (demo_fs\<lparr>entries := entries demo_fs @ [([''h'', ''default'', ''web'', ''controlfiles''], Dir 493)]\<rparr>) demo_ctl = []"
    by (simp add: fs_children_def demo_fs_def demo_ctl_def)
  have new: "fs_children (demo_fs\<lparr>entries := map ?f files\<rparr>) demo_ctl = files"
    by (induction files) (auto simp: fs_children_def demo_ctl_def)
  have "demo_ctl_fs files = demo_fs\<lparr>entries :=
      (entries demo_fs @ [([''h'', ''default'', ''web'', ''controlfiles''], Dir 493)]) @ map ?f files\<rparr>"
    by (simp add: demo_ctl_fs_def)
  then have "fs_children (demo_ctl_fs files) demo_ctl = files"
    using old new fs_children_append [where w = demo_fs and b = "map ?f files"] by (metis append_Nil)
  then show ?thesis by (simp add: names_in_def)
qed

definition demo_polls :: "fsys list" where
  "demo_polls = [demo_ctl_fs [''.ip''], demo_ctl_fs [''.ip'', ''main.jobid'']]"

lemma demo_ctl_names: "list_all name_ok demo_ctl" "name_ok ''.ip''" "name_ok ''main.jobid''" "name_ok ''main.exitCode''"
  by (simp_all add: demo_ctl_def name_ok_def)

text \<open>Two files appear one after the other; then one of them is replaced by a third.\<close>

theorem poller_reports_creations_witness:
  "created (fst (poll_all (demo_polls @ [demo_ctl_fs [''.ip'', ''main.exitCode'']]) (demo_item []))) =
     [abs_path (demo_ctl @ [''.ip'']), abs_path (demo_ctl @ [''main.jobid''])] \<and>
   set (created (fst (poll_all demo_polls (demo_item [])))) =
     {abs_path (demo_ctl @ [''.ip'']), abs_path (demo_ctl @ [''main.jobid''])}"
proof -
  let ?ws = "demo_polls @ [demo_ctl_fs [''.ip'', ''main.exitCode'']]"
  have w: "\<forall>w'\<in>set ?ws. watchable w' demo_ctl" by (simp add: demo_polls_def demo_watchable)
  have n: "\<forall>w'\<in>set ?ws. \<forall>n\<in>set (names_in w' demo_ctl). name_ok n"
    by (simp add: demo_polls_def demo_names demo_ctl_names)
  have app: "appearances demo_ctl (demo_ctl_fs []) ?ws = [''.ip'', ''main.jobid'']" by (simp add: demo_polls_def demo_names)
  have "only_added demo_ctl (demo_ctl_fs []) demo_polls" by (simp add: demo_polls_def demo_names)
  then have "set (created (fst (poll_all demo_polls (demo_item [])))) =
      (\<lambda>n. abs_path (demo_ctl @ [n])) ` (set (names_in (last (demo_ctl_fs [] # demo_polls)) demo_ctl) - set (names_in (demo_ctl_fs []) demo_ctl))"
    using poller_reports_creations [OF demo_item_at _ demo_ctl_names(1), of demo_polls "[]"] w n by fastforce
  moreover have "last (demo_ctl_fs [] # demo_polls) = demo_ctl_fs [''.ip'', ''main.jobid'']" by (simp add: demo_polls_def)
  ultimately show ?thesis
    using poller_reports_creations [OF demo_item_at w demo_ctl_names(1) n] app by (simp add: demo_names)
qed

text \<open>
  Where the comparison loses events: when at most as many files appear as disappear between two
  polls, no creation is reported at all, although new files are there.
\<close>

theorem poller_loses_creations:
  assumes "item_at w p item" "watchable w' p" "length (names_in w' p) \<le> length (names_in w p)"
  shows "\<exists>evs item'. watch_turn w' item = (Inr evs, item') \<and> item_at w' p item' \<and> created evs = []"
  using watch_turn_dir [OF assms(1,2)] assms(3) by (auto simp: created_entry_events)

theorem poller_loses_creations_witness:
  "\<exists>evs item'. watch_turn (demo_ctl_fs [''new.exitCode'']) (demo_item [''old.tmp'']) = (Inr evs, item') \<and>
    item_at (demo_ctl_fs [''new.exitCode'']) demo_ctl item' \<and> created evs = []"
  by (rule poller_loses_creations [OF demo_item_at demo_watchable]) (simp add: demo_names)

subsection \<open>Watches and goroutines\<close>

text \<open>
  A watch stays until it is removed under the name it was added with: no sequence of other
  additions and removals takes it away.
\<close>

theorem poller_watch_survives:
  assumes "n \<in> set (po_watches po)" "WatchRemove n \<notin> set ops"
  shows "n \<in> set (po_watches (run_watch_ops poller_Add poller_Remove ops po))"
  using assms by (rule po_watcher.watch_survives)

theorem poller_watch_survives_witness:
  "''/h/ns/pod/controlfiles'' \<in> set (po_watches (run_watch_ops poller_Add poller_Remove
     [WatchRemove ''/h/ns/pod''] ((NewPollingWatcher 1)\<lparr>po_watches := [''/h/ns/pod/controlfiles'']\<rparr>)))"
  by (rule poller_watch_survives) simp_all

definition goroutines :: "string \<Rightarrow> poller \<Rightarrow> nat" where
  "goroutines n po = length (filter (\<lambda>i. wi_filename i = n) (po_items po))"

lemma newItem_filename: "newItemToWatch w n = Inr item \<Longrightarrow> wi_filename item = n"
  by (auto simp: newItemToWatch_def split: prod.splits option.splits)

text \<open>
  Removing a watch does not stop its goroutine: when the same name is added again, two
  goroutines poll it, and each of them reports every event.
\<close>

theorem poller_readd_doubles:
  assumes "poller_Add w n po = (None, po1)" "poller_Remove n po1 = (None, po2)"
    "poller_Add w' n po2 = (None, po3)"
  shows "goroutines n po3 = goroutines n po + 2 \<and> length (filter (\<lambda>m. m = n) (po_watches po3)) = 1"
  using assms
  by (auto simp: poller_Add_def poller_Remove_def poller_remove_def goroutines_def newItem_filename filter_empty_conv
      split: if_splits sum.splits)

lemma demo_add:
  "demo_ctl = p @ [c] \<Longrightarrow> \<not> po_closed po \<Longrightarrow> abs_path demo_ctl \<notin> set (po_watches po) \<Longrightarrow>
   \<exists>po'. poller_Add (demo_ctl_fs []) (abs_path demo_ctl) po = (None, po') \<and> \<not> po_closed po' \<and>
     po_watches po' = po_watches po @ [abs_path demo_ctl]"
  using record_watchable [OF demo_watchable [of "[]"]] by (auto simp: poller_Add_def newItemToWatch_def)

theorem poller_readd_doubles_witness:
  "\<exists>po1 po2 po3. poller_Add (demo_ctl_fs []) (abs_path demo_ctl) (NewPollingWatcher 1) = (None, po1) \<and>
    poller_Remove (abs_path demo_ctl) po1 = (None, po2) \<and>
    poller_Add (demo_ctl_fs []) (abs_path demo_ctl) po2 = (None, po3) \<and>
    goroutines (abs_path demo_ctl) po3 = goroutines (abs_path demo_ctl) (NewPollingWatcher 1) + 2"
proof -
  obtain po1 where one: "poller_Add (demo_ctl_fs []) (abs_path demo_ctl) (NewPollingWatcher 1) = (None, po1)"
      "\<not> po_closed po1" "po_watches po1 = [abs_path demo_ctl]"
    using demo_add [of "butlast demo_ctl" "last demo_ctl" "NewPollingWatcher 1"]
    by (auto simp: NewPollingWatcher_def demo_ctl_def)
  obtain po2 where two: "poller_Remove (abs_path demo_ctl) po1 = (None, po2)" "\<not> po_closed po2" "po_watches po2 = []"
    using one by (simp add: poller_Remove_def poller_remove_def)
  obtain po3 where three: "poller_Add (demo_ctl_fs []) (abs_path demo_ctl) po2 = (None, po3)"
    using demo_add [of "butlast demo_ctl" "last demo_ctl" po2] two by (auto simp: demo_ctl_def)
  from poller_readd_doubles [OF one(1) two(1) three] one two three show ?thesis by blast
qed

lemma fold_remove_closed: "po_closed po \<Longrightarrow> fold (\<lambda>name p. snd (poller_remove name p)) ns po = po"
  by (induction ns) (simp_all add: poller_remove_def)

text \<open>
  \<open>Close\<close> ends every goroutine and no watch can be added afterwards, but the watches are not
  removed from the table.
\<close>

theorem poller_Close_effect:
  assumes "\<not> po_closed po"
  shows "po_items (snd (poller_Close po)) = [] \<and> po_watches (snd (poller_Close po)) = po_watches po \<and>
    fst (poller_Add w n (snd (poller_Close po))) = Some errPollerClosed \<and>
    snd (poller_Add w n (snd (poller_Close po))) = snd (poller_Close po)"
  using assms by (simp add: poller_Close_def Let_def fold_remove_closed poller_Add_def)

theorem poller_Close_effect_witness:
  "let po = (NewPollingWatcher 1)\<lparr>po_watches := [''/a'']\<rparr> in
    po_items (snd (poller_Close po)) = [] \<and> po_watches (snd (poller_Close po)) = po_watches po \<and>
    fst (poller_Add demo_fs ''/a'' (snd (poller_Close po))) = Some errPollerClosed \<and>
    snd (poller_Add demo_fs ''/a'' (snd (poller_Close po))) = snd (poller_Close po)"
  unfolding Let_def by (rule poller_Close_effect) (simp add: NewPollingWatcher_def)

end
