(* ===== verification/HPK_PodHandler.thy ===== *)
theory HPK_PodHandler
  imports HPK_Templates HPK_SubPath HPK_PodFile HPK_Volumes HPK_Expansion HPK_Security HPK_Image HPK_Poller
begin

text \<open>
  Package \<open>compute/podhandler\<close> (\<open>envvars.go\<close>, \<open>container.go\<close>, \<open>podhandler.go\<close>) and
  \<open>compute/runtime/init.go\<close>: making a pod's directory, mounting its volumes, preparing its containers,
  submitting its job, and deleting it. The state \<open>sys\<close> is the host (files and commands run), the file
  watcher and the number of requests sent to the API server. What HPK does not implement (Slurm and
  Apptainer, the API server, JSON, quantities, the template functions) is in the record \<open>config\<close>.
  A panic ends the process, so its outcome carries no state. The lemmas show which step of
  a creation fails and with which reason, what a created pod looks like on disk, and what deleting a
  pod removes and leaves.
\<close>

subsection \<open>Configuration and state\<close>

text \<open>\<open>TargetPort.String()\<close> is the text of the target port.\<close>

record service_port =
  sp_name :: string
  sp_port :: int
  sp_targetPort :: string
  sp_protocol :: string

record service =
  svc_namespace :: string
  svc_name :: string
  svc_ports :: "service_port list"

record config =
  cf_hpk :: string
  cf_env :: host_env
  cf_proc :: proc
  cf_api :: k8s_client
  cf_services :: "nat \<Rightarrow> go_error + service list"
  cf_qualified :: "string \<Rightarrow> string list"
  cf_quantity :: quantity_ops
  cf_codec :: codec
  cf_within :: "string \<Rightarrow> string \<Rightarrow> bool"
  cf_funcs :: tmpl_funcs
  cf_pauseImage :: string  \<comment> \<open>\<open>runtime.DefaultPauseImage\<close>\<close>

record sys =
  y_host :: host
  y_watcher :: poller
  y_tick :: nat

abbreviation y_fs :: "sys \<Rightarrow> fsys" where "y_fs s \<equiv> h_fs (y_host s)"

definition put_fs :: "fsys \<Rightarrow> sys \<Rightarrow> sys" where
  "put_fs w s = s\<lparr>y_host := (y_host s)\<lparr>h_fs := w\<rparr>\<rparr>"

text \<open>\<open>err.Error()\<close>; the operation and the text of a system error are abbreviated to its path.\<close>

fun error_text :: "go_error \<Rightarrow> string" where
  "error_text (OsError c path) = path"
| "error_text (Sentinel m) = m"
| "error_text (Message m) = m"
| "error_text (ExitError m) = m"
| "error_text (Wrapped e m) = m @ '': '' @ error_text e"

text \<open>\<open>os.Create\<close>: the file is created or truncated.\<close>

definition os_Create :: "string \<Rightarrow> fsys \<Rightarrow> go_error + fsys" where
  "os_Create s w =
     syscall SysOpen True w s (\<lambda>p.
       case fs_lookup w p of
         None \<Rightarrow> Inr (fs_put p (File [] (masked w 438) (clock w)) w)
       | Some (File c m t) \<Rightarrow> Inr (fs_put p (File [] m (clock w)) w)
       | Some (Dir m) \<Rightarrow> Inl EISDIR
       | Some _ \<Rightarrow> Inl EIO)"

subsection \<open>The runtime (init.go)\<close>

text \<open>\<open>Initialize\<close>: the HPK path and the pause image, or an error.\<close>

fun make_all :: "string list \<Rightarrow> fsys \<Rightarrow> go_error option \<times> fsys" where
  "make_all [] w = (None, w)"
| "make_all (d # ds) w =
     (case os_MkdirAll d PodGlobalDirectoryPermissions w of
        (Some err, w') \<Rightarrow> (Some (Wrapped err ''Failed to create directory''), w')
      | (None, w') \<Rightarrow> make_all ds w')"

definition Initialize :: "proc \<Rightarrow> host_env \<Rightarrow> host \<Rightarrow> ((go_error + string \<times> string) \<times> host) outcome" where
  "Initialize proc env h =
     (let hpk = HPK (he_WorkingDirectory env)
      in case make_all [hpk, ImageDir hpk, CorruptedDir hpk] (h_fs h) of
           (Some err, w) \<Rightarrow> Ret (Inl err, h\<lparr>h_fs := w\<rparr>)
         | (None, w) \<Rightarrow>
             (case Pull proc (he_ApptainerBin env) (ImageDir hpk) Docker PauseImage (h\<lparr>h_fs := w\<rparr>) of
                (Panic m, h') \<Rightarrow> Panic m
              | (Ret (Inl err), h') \<Rightarrow> Ret (Inl (Wrapped err ''failed to get pause container image''), h')
              | (Ret (Inr img), h') \<Rightarrow> Ret (Inr (hpk, img), h')))"

subsection \<open>Environment variables of services (envvars.go)\<close>

definition NamespaceDefault :: string where "NamespaceDefault = ''default''"

definition makeLinkVariables :: "service \<Rightarrow> string \<Rightarrow> envvar list" where
  "makeLinkVariables svc clusterIP =
     concat (map (\<lambda>(i, sp). link_variables (makeEnvVariableName (svc_name svc)) clusterIP i (sp_port sp)
         (sp_targetPort sp) (sp_protocol sp))
       (enumerate 0 (svc_ports svc)))"

definition service_variables :: "host_env \<Rightarrow> service \<Rightarrow> envvar list" where
  "service_variables env svc =
     (case svc_ports svc of
        [] \<Rightarrow> []
      | p0 # _ \<Rightarrow>
          let clusterIP = (if svc_namespace svc = NamespaceDefault \<and> svc_name svc = ''kubernetes''
                           then he_KubeMasterHost env else svc_name svc);
              nm = makeEnvVariableName (svc_name svc) @ ''_SERVICE_PORT'';
              named = concat (map (\<lambda>sp. if sp_name sp \<noteq> []
                   then [env_of (nm @ ''_'' @ makeEnvVariableName (sp_name sp)) (sp_targetPort sp)] else [])
                 (svc_ports svc))
          in [env_of (makeEnvVariableName (svc_name svc) @ ''_SERVICE_HOST'') clusterIP,
              env_of nm (sp_targetPort p0)] @ named @ makeLinkVariables svc clusterIP)"

definition FromServices :: "host_env \<Rightarrow> (go_error + service list) \<Rightarrow> string \<Rightarrow> envvar list outcome" where
  "FromServices env listed namespace =
     (case listed of
        Inl err \<Rightarrow> SystemPanic err ''failed to list services when setting up env vars''
      | Inr items \<Rightarrow>
          Ret (concat (map (service_variables env)
            (filter (\<lambda>svc. svc_namespace svc = namespace \<or> svc_namespace svc = NamespaceDefault) items))))"

subsection \<open>Containers (container.go)\<close>

text \<open>
  One mount point: its bind argument, or the error for an absolute subpath. \<open>mount.PathExists\<close> of the
  Kubernetes library differs from \<open>PathExists\<close> only in results that come with an error.
\<close>

definition build_bind :: "config \<Rightarrow> envvar list \<Rightarrow> string \<Rightarrow> volume_mount \<Rightarrow> fsys \<Rightarrow> ((go_error + string) \<times> fsys) outcome" where
  "build_bind cf podEnv podDir mount w =
     (let hostPath = filepath_Join [VolumeDir podDir, vm_name mount];
          expanded = (if vm_subPathExpr mount \<noteq> [] then ExpandContainerVolumeMounts mount podEnv else Inr (vm_subPath mount));
          bind = (\<lambda>p. p @ '':'' @ vm_mountPath mount @ '':'' @ (if vm_readOnly mount then ''ro'' else ''rw''))
      in case expanded of
           Inl err \<Rightarrow> SystemPanic err ''cannot expand env variables for container''
         | Inr subPath \<Rightarrow>
             if subPath = [] then Ret (Inr (bind hostPath), w)
             else if filepath_IsAbs subPath then Ret (Inl (Message (''error SubPath must not be an absolute path: '' @ subPath)), w)
             else let subPathFile = filepath_Join [hostPath, subPath]
                  in (case PathExists w subPathFile of
                        (_, Some err) \<Rightarrow> SystemPanic err ''Could not determine if subPath exists''
                      | (True, None) \<Rightarrow> Ret (Inr (bind subPathFile), w)
                      | (False, None) \<Rightarrow>
                          (case (if vm_subPath mount = ''0''
                                 then SafeMakeDir (cf_within cf) subPath hostPath PodGlobalDirectoryPermissions w
                                 else os_WriteFile subPathFile [] PodGlobalDirectoryPermissions w) of
                             (Some err, w') \<Rightarrow> SystemPanic err ''failed to create placeholder''
                           | (None, w') \<Rightarrow> Ret (Inr (bind subPathFile), w'))))"

fun build_binds :: "config \<Rightarrow> envvar list \<Rightarrow> string \<Rightarrow> volume_mount list \<Rightarrow> fsys \<Rightarrow> ((go_error + string list) \<times> fsys) outcome" where
  "build_binds cf podEnv podDir [] w = Ret (Inr [], w)"
| "build_binds cf podEnv podDir (mount # mounts) w =
     bind_outcome (build_bind cf podEnv podDir mount w) (\<lambda>(r, w1). case r of
       Inl err \<Rightarrow> Ret (Inl err, w1)
     | Inr b \<Rightarrow> bind_outcome (build_binds cf podEnv podDir mounts w1) (\<lambda>(rs, w2).
         Ret (map_sum id (\<lambda>bs. b # bs) rs, w2)))"

definition buildContainer :: "config \<Rightarrow> envvar list \<Rightarrow> pod \<Rightarrow> container \<Rightarrow> container_status \<Rightarrow> host \<Rightarrow>
    ((go_error + job_container \<times> container_status) \<times> host) outcome" where
  "buildContainer cf podEnv pod container containerStatus h =
     (let podDir = pod_dir (cf_hpk cf) (ObjectKeyFromObject pod);
          (uid, gid) = DetermineEffectiveRunAsUser (DetermineEffectiveSecurityContext pod container);
          containerID = om_namespace (p_meta pod) @ ''_'' @ om_name (p_meta pod) @ ''_'' @ c_name container
      in case os_WriteFile (EnvFilePath podDir (c_name container)) (GenerateEnvTemplate (c_env container @ podEnv))
                PodGlobalDirectoryPermissions (h_fs h) of
           (Some err, w) \<Rightarrow> SystemPanic err ''cannot write env file for container''
         | (None, w) \<Rightarrow>
             bind_outcome (build_binds cf podEnv podDir (c_volumeMounts container) w) (\<lambda>(r, w1). case r of
               Inl err \<Rightarrow> Ret (Inl err, h\<lparr>h_fs := w1\<rparr>)
             | Inr binds \<Rightarrow>
                 (case Pull (cf_proc cf) (he_ApptainerBin (cf_env cf)) (ImageDir (cf_hpk cf)) Docker (c_image container)
                         (h\<lparr>h_fs := w1\<rparr>) of
                    (Panic m, h') \<Rightarrow> Panic m
                  | (Ret (Inl err), h') \<Rightarrow> SystemPanic err ''ImagePull error''
                  | (Ret (Inr img), h') \<Rightarrow>
                      Ret (Inr (\<lparr>jc_InstanceName = containerID, jc_RunAsUser = uid, jc_RunAsGroup = gid,
                           jc_ImageFilePath = img, jc_EnvFilePath = EnvFilePath podDir (c_name container),
                           jc_Binds = binds,
                           jc_Command = ExpandContainerCommandOnlyStatic (c_command container) (c_env container),
                           jc_Args = ExpandContainerCommandOnlyStatic (c_args container) (c_env container),
                           jc_ExecutionMode = (if c_command container = None then ''run'' else ''exec''),
                           jc_LogsPath = LogsPath podDir (c_name container),
                           jc_JobIDPath = IDPath podDir (c_name container),
                           jc_ExitCodePath = ExitCodePath podDir (c_name container)\<rparr>,
                         containerStatus\<lparr>cs_name := c_name container, cs_containerID := containerID,
                           cs_image := c_image container, cs_imageID := img\<rparr>), h'))))"

text \<open>
  The loop over the containers. The statuses start as zero values; \<open>Inl i\<close> is the index of the
  container that could not be prepared.
\<close>

fun build_all :: "config \<Rightarrow> envvar list \<Rightarrow> pod \<Rightarrow> nat \<Rightarrow> container list \<Rightarrow> host \<Rightarrow>
    ((nat + job_container list) \<times> container_status list \<times> host) outcome" where
  "build_all cf podEnv pod i [] h = Ret (Inr [], [], h)"
| "build_all cf podEnv pod i (c # cs) h =
     bind_outcome (buildContainer cf podEnv pod c zero_status h) (\<lambda>(r, h1). case r of
       Inl err \<Rightarrow> Ret (Inl i, replicate (Suc (length cs)) zero_status, h1)
     | Inr (jc, st) \<Rightarrow> bind_outcome (build_all cf podEnv pod (Suc i) cs h1) (\<lambda>(rs, sts, h2).
         Ret (map_sum id (\<lambda>jcs. jc # jcs) rs, st # sts, h2)))"

subsection \<open>Creating a pod (podhandler.go)\<close>

definition CustomSlurmFlags :: string where "CustomSlurmFlags = ''slurm.hpk.io/flags''"

definition watch_pod :: "string \<Rightarrow> sys \<Rightarrow> sys outcome" where
  "watch_pod dir s =
     (case poller_Add (y_fs s) dir (y_watcher s) of
        (None, po) \<Rightarrow> Ret (s\<lparr>y_watcher := po\<rparr>)
      | (Some err, po) \<Rightarrow>
          if errors_Is_sentinel err ''watch exists'' then Ret (s\<lparr>y_watcher := po\<rparr>)
          else SystemPanic err ''register watcher for path has failed'')"

text \<open>The first part: the variables of the services, the directories, the watch.\<close>

definition prepare_pod :: "config \<Rightarrow> pod \<Rightarrow> sys \<Rightarrow> (envvar list \<times> sys) outcome" where
  "prepare_pod cf pod s =
     (let podDir = pod_dir (cf_hpk cf) (ObjectKeyFromObject pod)
      in bind_outcome (FromServices (cf_env cf) (cf_services cf (y_tick s)) (om_namespace (p_meta pod))) (\<lambda>podEnv.
           case make_all [JobDir podDir, LogDir podDir, VolumeDir podDir, ControlFileDir podDir] (y_fs s) of
             (Some err, w) \<Rightarrow> SystemPanic err ''Cant create pod directory''
           | (None, w) \<Rightarrow>
               bind_outcome (watch_pod (ControlFileDir podDir) (put_fs w (s\<lparr>y_tick := Suc (y_tick s)\<rparr>)))
                 (\<lambda>s'. Ret (podEnv, s'))))"

fun mount_all :: "config \<Rightarrow> string \<Rightarrow> volume list \<Rightarrow> pod \<Rightarrow> nat \<Rightarrow> fsys \<Rightarrow> mount_result outcome" where
  "mount_all cf podDir [] pod n w = Ret (None, pod, n, w)"
| "mount_all cf podDir (vol # vols) pod n w =
     bind_outcome (mountVolumeSource (cf_api cf) (cf_qualified cf) podDir vol pod n w) (\<lambda>(err, pod', n', w').
       case err of
         Some e \<Rightarrow> Ret (Some e, pod', n', w')
       | None \<Rightarrow> mount_all cf podDir vols pod' n' w')"

definition pod_annotations :: "host_env \<Rightarrow> string \<Rightarrow> (string \<times> string) list" where
  "pod_annotations env podDir =
     [(''kubeMasterHost'', he_KubeMasterHost env), (''containerRegistry'', he_ContainerRegistry env),
      (''apptainerBin'', he_ApptainerBin env),
      (''enableCgroupV2'', if he_EnableCgroupV2 env then ''true'' else ''false''),
      (''workingDirectory'', he_WorkingDirectory env), (''kubeDNS'', he_KubeDNS env),
      (''cgroupFilePath'', CgroupFilePath podDir), (''constructorFilePath'', ConstructorFilePath podDir),
      (''ipAddressPath'', IPAddressPath podDir), (''stdoutPath'', StdoutPath podDir),
      (''stderrPath'', StderrPath podDir), (''sysErrorFilePath'', SysErrorFilePath podDir),
      (''PauseImage'', PauseImage)]"

definition set_annotations :: "(string \<times> string) list \<Rightarrow> pod \<Rightarrow> pod" where
  "set_annotations kvs = upd_annotations (\<lambda>m. fold (\<lambda>(k, v). AList.update k v) kvs m)"

definition custom_flags :: "pod \<Rightarrow> string list" where
  "custom_flags pod =
     (case map_of (om_annotations (p_meta pod)) CustomSlurmFlags of
        None \<Rightarrow> [] | Some flags \<Rightarrow> split_char CHR '' '' flags)"

definition pod_requests :: "quantity_ops \<Rightarrow> pod \<Rightarrow> resource_list" where
  "pod_requests q pod =
     foldl (\<lambda>total c. Sum q total [c_requests c]) (NewResourceList q)
       (ps_initContainers (p_spec pod) @ ps_containers (p_spec pod))"

definition job_fields_of :: "config \<Rightarrow> pod \<Rightarrow> string \<Rightarrow> job_container list \<Rightarrow> job_container list \<Rightarrow> job_fields" where
  "job_fields_of cf pod pauseImage inits mains =
     (let podDir = pod_dir (cf_hpk cf) (ObjectKeyFromObject pod)
      in \<lparr>jf_Pod = ObjectKeyFromObject pod, jf_PauseImageFilePath = pauseImage,
          jf_VirtualEnv = \<lparr>ve_PodDirectory = podDir, ve_CgroupFilePath = CgroupFilePath podDir,
             ve_ConstructorFilePath = ConstructorFilePath podDir, ve_IPAddressPath = IPAddressPath podDir,
             ve_StdoutPath = StdoutPath podDir, ve_StderrPath = StderrPath podDir,
             ve_SysErrorFilePath = SysErrorFilePath podDir\<rparr>,
          jf_HostEnv = cf_env cf, jf_InitContainers = inits, jf_Containers = mains,
          jf_ResourceRequest = ResourceListToStruct (cf_quantity cf) (pod_requests (cf_quantity cf) pod),
          jf_CustomFlags = custom_flags pod\<rparr>)"

text \<open>
  The last part: cgroup file, pause image, job script, submission, and the description on disk.
\<close>

definition submit_pod :: "config \<Rightarrow> pod \<Rightarrow> job_container list \<Rightarrow> job_container list \<Rightarrow> host \<Rightarrow> (pod \<times> host) outcome" where
  "submit_pod cf pod inits mains h0 =
     (let podDir = pod_dir (cf_hpk cf) (ObjectKeyFromObject pod)
      in bind_outcome
           (if he_EnableCgroupV2 (cf_env cf) then
              (case os_Create (CgroupFilePath podDir) (h_fs h0) of
                 Inl err \<Rightarrow> SystemPanic err ''Cant create cgroup configuration file''
               | Inr w \<Rightarrow> Ret (h0\<lparr>h_fs := w\<rparr>))
            else Ret h0) (\<lambda>h1.
         case Pull (cf_proc cf) (he_ApptainerBin (cf_env cf)) (ImageDir (cf_hpk cf)) Docker PauseImage h1 of
           (Panic m, h2) \<Rightarrow> Panic m
         | (Ret (Inl err), h2) \<Rightarrow> SystemPanic err ''ImagePull error''
         | (Ret (Inr pauseImage), h2) \<Rightarrow>
             let fields = job_fields_of cf pod pauseImage inits mains;
                 pod1 = set_annotations (pod_annotations (cf_env cf) podDir) pod
             in (case os_WriteFile (SubmitJobPath podDir) (HostScriptTemplate (cf_funcs cf) fields)
                       ContainerJobPermissions (h_fs h2) of
                   (Some err, w) \<Rightarrow> SystemPanic err ''unable to write sbatch script''
                 | (None, w) \<Rightarrow>
                     (case SubmitJob (cf_proc cf) (SubmitJobPath podDir) (h2\<lparr>h_fs := w\<rparr>) of
                        (Panic m, h3) \<Rightarrow> Panic m
                      | (Ret jobID, h3) \<Rightarrow>
                          let pod2 = SetPodID pod1 JobIDTypeSlurm jobID
                          in bind_outcome (SavePodToFile (cf_codec cf) (cf_hpk cf) (Some pod2) (h_fs h3)) (\<lambda>(err, w').
                               case err of
                                 Some e \<Rightarrow> SystemPanic e ''failed to persistent pod''
                               | None \<Rightarrow> Ret (pod2, h3\<lparr>h_fs := w'\<rparr>))))))"

text \<open>The containers and the job; a container that cannot be prepared fails the pod.\<close>

definition build_pod :: "config \<Rightarrow> envvar list \<Rightarrow> pod \<Rightarrow> host \<Rightarrow> (pod \<times> host) outcome" where
  "build_pod cf podEnv pod1 h =
     bind_outcome (build_all cf podEnv pod1 0 (ps_initContainers (p_spec pod1)) h) (\<lambda>(ri, stsi, h1).
       let pod2 = upd_status (\<lambda>st. st\<lparr>s_initContainerStatuses := stsi\<rparr>) pod1
       in case ri of
            Inl i \<Rightarrow> Ret (PodError (h_fs h1) pod2 ''InitContainerError''
                (''failed to materialize pod.Spec.InitContainers['' @ strconv_Itoa (int i) @ '']''), h1)
          | Inr inits \<Rightarrow>
              bind_outcome (build_all cf podEnv pod2 0 (ps_containers (p_spec pod2)) h1) (\<lambda>(rm, stsm, h2).
                let pod3 = upd_status (\<lambda>st. st\<lparr>s_containerStatuses := stsm\<rparr>) pod2
                in case rm of
                     Inl i \<Rightarrow> Ret (PodError (h_fs h2) pod3 ''MainContainerError''
                         (''failed to materialize pod.Spec.Containers['' @ strconv_Itoa (int i) @ '']''), h2)
                   | Inr mains \<Rightarrow> submit_pod cf pod3 inits mains h2))"

text \<open>
  \<open>CreatePod\<close>: a volume or container that cannot be prepared fails the pod, and the function returns
  without a description on disk; the directory and the watch stay.
\<close>

definition CreatePod :: "config \<Rightarrow> pod \<Rightarrow> sys \<Rightarrow> (pod \<times> sys) outcome" where
  "CreatePod cf pod s =
     (let podDir = pod_dir (cf_hpk cf) (ObjectKeyFromObject pod)
      in bind_outcome (prepare_pod cf pod s) (\<lambda>(podEnv, s1).
         bind_outcome (mount_all cf podDir (ps_volumes (p_spec pod)) pod (y_tick s1) (y_fs s1)) (\<lambda>(err, pod1, n, w).
           let s2 = put_fs w (s1\<lparr>y_tick := n\<rparr>)
           in case err of
                Some e \<Rightarrow> Ret (PodError w pod1 ''VolumeError'' (error_text e), s2)
              | None \<Rightarrow> bind_outcome (build_pod cf podEnv pod1 (y_host s2)) (\<lambda>(pod2, h). Ret (pod2, s2\<lparr>y_host := h\<rparr>)))))"

subsection \<open>Deleting a pod (podhandler.go)\<close>

text \<open>The directory of the pod, with a container as root when the host is refused.\<close>

definition remove_pod_dir :: "config \<Rightarrow> string \<Rightarrow> host \<Rightarrow> host outcome" where
  "remove_pod_dir cf podDir h =
     (case os_RemoveAll podDir (h_fs h) of
        (None, w) \<Rightarrow> Ret (h\<lparr>h_fs := w\<rparr>)
      | (Some err, w) \<Rightarrow>
          if errors_Is_errno err EACCES then
            (case FakerootExec (cf_proc cf) (he_ApptainerBin (cf_env cf)) (cf_pauseImage cf)
                    [''--mount'', ''type=bind,src='' @ podDir @ '',dst=/pod''] [''rm'', ''-rf'', ''/pod/*''] (h\<lparr>h_fs := w\<rparr>) of
               (out, Some e, h') \<Rightarrow> SystemPanic e ''failed to forcible remove pod directory''
             | (out, None, h') \<Rightarrow> Ret h')
          else SystemPanic err ''failed to remove pod directory'')"

definition collect_namespace :: "string \<Rightarrow> fsys \<Rightarrow> fsys" where
  "collect_namespace podDir w =
     (let namespaceDir = filepath_Dir podDir
      in case IsEmpty w namespaceDir of
           Inr True \<Rightarrow> snd (os_RemoveAll namespaceDir w)
         | _ \<Rightarrow> w)"

text \<open>The label \<open>remove_pod\<close> of \<open>DeletePod\<close>.\<close>

definition remove_pod :: "config \<Rightarrow> objkey \<Rightarrow> sys \<Rightarrow> (bool \<times> sys) outcome" where
  "remove_pod cf podKey s =
     (let podDir = pod_dir (cf_hpk cf) podKey
      in case poller_Remove podDir (y_watcher s) of
           (Some err, po) \<Rightarrow> SystemPanic err ''deregister watcher has failed''
         | (None, po) \<Rightarrow>
             bind_outcome (remove_pod_dir cf podDir (y_host s)) (\<lambda>h.
               Ret (True, s\<lparr>y_watcher := po, y_host := h\<lparr>h_fs := collect_namespace podDir (h_fs h)\<rparr>\<rparr>)))"

definition DeletePod :: "config \<Rightarrow> objkey \<Rightarrow> sys \<Rightarrow> (bool \<times> sys) outcome" where
  "DeletePod cf podKey s =
     bind_outcome (LoadPodFromKey (cf_codec cf) (cf_hpk cf) (y_fs s) podKey) (\<lambda>loaded. case loaded of
       Inl err \<Rightarrow> if errors_Is_errno err ENOENT then Ret (True, s) else SystemPanic err ''failed to load pod''
     | Inr localPod \<Rightarrow>
         if HasJobID localPod then
           bind_outcome (GetJobID localPod) (\<lambda>jobID.
             case CancelJob (cf_proc cf) jobID (y_host s) of
               (out, None, h) \<Rightarrow> remove_pod cf podKey (s\<lparr>y_host := h\<rparr>)
             | (out, Some err, h) \<Rightarrow>
                 if errors_Is_sentinel err ''invalid job id'' then remove_pod cf podKey (s\<lparr>y_host := h\<rparr>)
                 else if errors_Is_sentinel err ''retry later'' then Ret (False, s\<lparr>y_host := h\<rparr>)
                 else SystemPanic err ''failed to cancel job'')
         else remove_pod cf podKey s)"

subsection \<open>What is prepared for a container\<close>

lemma buildContainer_Inr:
  assumes "buildContainer cf podEnv pod c st h = Ret (Inr (jc, st'), h')"
  shows "jc_EnvFilePath jc = EnvFilePath (dir_of (cf_hpk cf) pod) (c_name c) \<and>
    jc_LogsPath jc = LogsPath (dir_of (cf_hpk cf) pod) (c_name c) \<and>
    jc_JobIDPath jc = IDPath (dir_of (cf_hpk cf) pod) (c_name c) \<and>
    jc_ExitCodePath jc = ExitCodePath (dir_of (cf_hpk cf) pod) (c_name c) \<and>
    length (jc_Binds jc) = length (c_volumeMounts c) \<and>
    cs_name st' = c_name c \<and> cs_state st' = cs_state st"
proof -
  have len: "length bs = length ms"
    if "build_binds cf podEnv d ms w = Ret (Inr bs, w')" for d ms w bs w'
    using that
  proof (induction ms arbitrary: w bs)
    case (Cons m ms)
    then obtain r w1 where "build_bind cf podEnv d m w = Ret (r, w1)" by auto
    with Cons.prems obtain b rs where "build_binds cf podEnv d ms w1 = Ret (rs, w')" "map_sum id ((#) b) rs = Inr bs"
      by (cases r) auto
    with Cons.IH show ?case by (cases rs) auto
  qed simp
  show ?thesis
    using assms len
    by (auto simp: buildContainer_def dir_of_def SystemPanic_def Let_def simp del: bind_outcome_Ret_iff
        elim!: bind_RetE split: prod.splits option.splits sum.splits outcome.splits)
qed

subsection \<open>What creating a pod leaves\<close>

lemma mount_written_keeps:
  "mount_written pod what r = Ret (e, pod', n, w) \<Longrightarrow> pod' = pod"
  by (auto simp: mount_written_def split: prod.splits)

lemma mount_hostPath_keeps:
  "mount_hostPath d hp pod n w = Ret (e, pod', n', w') \<Longrightarrow> pod' = pod"
  by (auto simp: mount_hostPath_def SystemPanic_def simp del: bind_outcome_Ret_iff elim!: bind_RetE
      split: if_splits prod.splits option.splits bool.splits sum.splits)

lemma downward_files_keeps:
  "downward_files iq d proj items pod w = Ret (pod', w') \<Longrightarrow> p_meta pod' = p_meta pod \<and> p_spec pod' = p_spec pod"
proof (induction items arbitrary: w)
  case (Cons item items)
  then show ?case
    by (auto simp: SystemPanic_def split: option.splits sum.splits prod.splits)
qed simp

lemma link_pv_keeps: "link_pv d name v pod n w = Ret (pod', n', w') \<Longrightarrow> pod' = pod"
  by (auto simp: link_pv_def SystemPanic_def split: if_splits option.splits sum.splits)

lemma PVC_keeps:
  "PersistentVolumeClaimSource api d name claim pod n w = Ret (pod', n', w') \<Longrightarrow>
   p_meta pod' = p_meta pod \<and> p_spec pod' = p_spec pod"
  by (auto simp: PersistentVolumeClaimSource_def dest!: link_pv_keeps split: prod.splits sum.splits)

lemma with_volume_dir_Ret:
  assumes "with_volume_dir dir w k = Ret r"
  obtains w' where "k w' = Ret r"
  using assms by (auto simp: with_volume_dir_def SystemPanic_def split: prod.splits option.splits)

lemma mountVolumeSource_keeps:
  assumes "mountVolumeSource api iq d vol pod n w = Ret (e, pod', n', w')"
  shows "p_meta pod' = p_meta pod \<and> p_spec pod' = p_spec pod"
  using assms
  by (auto simp: mountVolumeSource_def SystemPanic_def Let_def simp del: bind_outcome_Ret_iff
      elim!: bind_RetE with_volume_dir_Ret
      dest!: mount_written_keeps mount_hostPath_keeps downward_files_keeps PVC_keeps
      split: if_splits option.splits prod.splits)

lemma mount_all_keeps:
  "mount_all cf d vols pod n w = Ret (e, pod', n', w') \<Longrightarrow> p_meta pod' = p_meta pod \<and> p_spec pod' = p_spec pod"
proof (induction vols arbitrary: pod n w)
  case (Cons vol vols)
  then show ?case
    by (auto simp del: bind_outcome_Ret_iff elim!: bind_RetE dest!: mountVolumeSource_keeps split: option.splits)
qed simp

lemma build_all_statuses:
  assumes "build_all cf podEnv pod i cs h = Ret (Inr jcs, sts, h')"
  shows "map cs_name sts = map c_name cs \<and> list_all status_ok sts \<and> length jcs = length cs"
  using assms
proof (induction cs arbitrary: i h jcs sts)
  case (Cons c cs)
  then obtain r h1 where r: "buildContainer cf podEnv pod c zero_status h = Ret (r, h1)" by auto
  with Cons.prems obtain jc st rs sts' where r': "r = Inr (jc, st)"
    and rest: "build_all cf podEnv pod (Suc i) cs h1 = Ret (rs, sts', h')" "map_sum id ((#) jc) rs = Inr jcs" "sts = st # sts'"
    by (cases r) auto
  obtain jcs' where "rs = Inr jcs'" "jcs = jc # jcs'" using rest(2) by (cases rs) auto
  moreover have "cs_name st = c_name c" "status_ok st"
    using buildContainer_Inr r r' by (auto simp: status_ok_def zero_status_def)
  ultimately show ?case using Cons.IH rest by auto
qed simp

lemma set_annotations_keeps [simp]:
  "p_spec (set_annotations kvs pod) = p_spec pod" "p_status (set_annotations kvs pod) = p_status pod"
  "ObjectKeyFromObject (set_annotations kvs pod) = ObjectKeyFromObject pod"
  by (simp_all add: set_annotations_def)

lemma SetPodID_keeps [simp]:
  "p_spec (SetPodID pod ty v) = p_spec pod" "p_status (SetPodID pod ty v) = p_status pod"
  "ObjectKeyFromObject (SetPodID pod ty v) = ObjectKeyFromObject pod"
  by (simp_all add: SetPodID_def)

lemma submit_pod_Ret:
  assumes "submit_pod cf pod inits mains h = Ret (pod', h')"
  shows "p_spec pod' = p_spec pod \<and> p_status pod' = p_status pod \<and> ObjectKeyFromObject pod' = ObjectKeyFromObject pod \<and>
    HasJobID pod' \<and> (\<exists>jid. GetJobID pod' = Ret jid) \<and>
    (\<exists>w. SavePodToFile (cf_codec cf) (cf_hpk cf) (Some pod') w = Ret (None, h_fs h'))"
proof -
  let ?pod1 = "set_annotations (pod_annotations (cf_env cf) (pod_dir (cf_hpk cf) (ObjectKeyFromObject pod))) pod"
  from assms obtain script h2 jid h3 where "SubmitJob (cf_proc cf) script h2 = (Ret jid, h3)"
    and pod': "pod' = SetPodID ?pod1 JobIDTypeSlurm jid"
    and save: "SavePodToFile (cf_codec cf) (cf_hpk cf) (Some pod') (h_fs h3) = Ret (None, h_fs h')"
    by (auto simp: submit_pod_def SystemPanic_def Let_def simp del: bind_outcome_Ret_iff
        elim!: bind_RetE split: if_splits prod.splits outcome.splits sum.splits option.splits)
  from SubmitJob_id [OF this(1), of ?pod1] pod' save show ?thesis by auto
qed

text \<open>If the pod's directory is real after the description was saved, it was real before.\<close>

lemma pod_home_saved:
  assumes "SavePodToFile c hpk (Some pod) w = Ret (None, w')" and "pod_home root w' k"
  shows "pod_home root w k"
proof -
  from assms(1) obtain p d m where w': "w' = fs_put p (File d m (clock w)) w" and p: "\<not> is_link (fs_lookup w p)"
    by (auto simp: SavePodToFile_def SystemPanic_def os_WriteFile_def syscall_def
        split: sum.splits prod.splits option.splits fnode.splits)
  have "is_dir (fs_lookup w q)" if "is_dir (fs_lookup w' q)" for q
    using that w' by (auto split: if_splits)
  then have "real_dir w (job_elems root k)"
    using assms(2) dir_chain_cong [of "job_elems root k" w' "[]" w] by (auto simp: pod_home_def)
  moreover have "\<not> is_link (fs_lookup w (crd_elems root k))"
    using assms(2) w' p by (auto simp: pod_home_def split: if_splits)
  ultimately show ?thesis by (simp add: pod_home_def)
qed

lemma saved_pod_loads:
  assumes "codec_ok c" "list_all name_ok root" "key_ok (ObjectKeyFromObject pod)"
    and "pod_home root w' (ObjectKeyFromObject pod)"
    and "faults w' SysRead (abs_path (crd_elems root (ObjectKeyFromObject pod))) = None"
    and "SavePodToFile c (abs_path root) (Some pod) w = Ret (None, w')"
  shows "LoadPodFromKey c (abs_path root) w' (ObjectKeyFromObject pod) = Ret (Inr pod)"
proof -
  have "pod_home root w (ObjectKeyFromObject pod)" by (rule pod_home_saved [OF assms(6,4)])
  from SavePodToFile_home [OF assms(2,3) this assms(6)] obtain d m
    where d: "json_Marshal c pod = Inr d"
      and w': "w' = fs_put (crd_elems root (ObjectKeyFromObject pod)) (File d m (clock w)) w" .
  have "d \<noteq> []" "json_Unmarshal c d = Inr pod" using assms(1) d by (auto simp: codec_ok_def)
  moreover have "fs_lookup w' (crd_elems root (ObjectKeyFromObject pod)) = Some (File d m (clock w))"
    by (simp add: w' crd_elems_def)
  ultimately show ?thesis using assms(2-5) by (intro LoadPodFromKey_home(1)) auto
qed

subsection \<open>How the creation of a pod goes\<close>

text \<open>
  A container can be prepared unless one of its mounts has an absolute subpath (after expansion);
  the first such container is the one reported.
\<close>

definition absolute_sub :: "envvar list \<Rightarrow> volume_mount \<Rightarrow> bool" where
  "absolute_sub podEnv m =
     (if vm_subPathExpr m = [] then filepath_IsAbs (vm_subPath m)
      else \<exists>p. ExpandContainerVolumeMounts m podEnv = Inr p \<and> filepath_IsAbs p)"

definition unprepared :: "envvar list \<Rightarrow> container \<Rightarrow> bool" where
  "unprepared podEnv c = (\<exists>m \<in> set (c_volumeMounts c). absolute_sub podEnv m)"

definition first_unprepared :: "envvar list \<Rightarrow> container list \<Rightarrow> nat \<Rightarrow> bool" where
  "first_unprepared podEnv cs i =
     (i < length cs \<and> unprepared podEnv (cs ! i) \<and> (\<forall>j < i. \<not> unprepared podEnv (cs ! j)))"

text \<open>Volumes are mounted one after the other, each from the state the one before has left, up to the first error.\<close>

inductive volumes_mounted :: "config \<Rightarrow> string \<Rightarrow> volume list \<Rightarrow> pod \<Rightarrow> nat \<Rightarrow> fsys \<Rightarrow> go_error option \<Rightarrow> bool"
  for cf podDir where
  no_volume: "volumes_mounted cf podDir [] pod n w None"
| volume_fails: "volumes_mounted cf podDir (vol # vols) pod n w (Some e)"
    if "mountVolumeSource (cf_api cf) (cf_qualified cf) podDir vol pod n w = Ret (Some e, pod', n', w')"
| next_volume: "volumes_mounted cf podDir (vol # vols) pod n w r"
    if "mountVolumeSource (cf_api cf) (cf_qualified cf) podDir vol pod n w = Ret (None, pod', n', w')"
    and "volumes_mounted cf podDir vols pod' n' w' r"

text \<open>The step that fails, with the reason and message it gives, or \<open>None\<close> when all steps succeed.\<close>

inductive pod_creation :: "config \<Rightarrow> pod \<Rightarrow> sys \<Rightarrow> (string \<times> string) option \<Rightarrow> bool" for cf pod s where
  volume_error: "pod_creation cf pod s (Some (''VolumeError'', error_text e))"
    if "prepare_pod cf pod s = Ret (podEnv, s1)"
    and "volumes_mounted cf (pod_dir (cf_hpk cf) (ObjectKeyFromObject pod)) (ps_volumes (p_spec pod)) pod (y_tick s1) (y_fs s1) (Some e)"
| init_error: "pod_creation cf pod s (Some (''InitContainerError'', ''failed to materialize pod.Spec.InitContainers['' @ strconv_Itoa (int i) @ '']''))"
    if "prepare_pod cf pod s = Ret (podEnv, s1)"
    and "volumes_mounted cf (pod_dir (cf_hpk cf) (ObjectKeyFromObject pod)) (ps_volumes (p_spec pod)) pod (y_tick s1) (y_fs s1) None"
    and "first_unprepared podEnv (ps_initContainers (p_spec pod)) i"
| main_error: "pod_creation cf pod s (Some (''MainContainerError'', ''failed to materialize pod.Spec.Containers['' @ strconv_Itoa (int i) @ '']''))"
    if "prepare_pod cf pod s = Ret (podEnv, s1)"
    and "volumes_mounted cf (pod_dir (cf_hpk cf) (ObjectKeyFromObject pod)) (ps_volumes (p_spec pod)) pod (y_tick s1) (y_fs s1) None"
    and "\<forall>c \<in> set (ps_initContainers (p_spec pod)). \<not> unprepared podEnv c"
    and "first_unprepared podEnv (ps_containers (p_spec pod)) i"
| created: "pod_creation cf pod s None"
    if "prepare_pod cf pod s = Ret (podEnv, s1)"
    and "volumes_mounted cf (pod_dir (cf_hpk cf) (ObjectKeyFromObject pod)) (ps_volumes (p_spec pod)) pod (y_tick s1) (y_fs s1) None"
    and "\<forall>c \<in> set (ps_initContainers (p_spec pod) @ ps_containers (p_spec pod)). \<not> unprepared podEnv c"

lemma volumes_mounted_unique:
  "volumes_mounted cf d vols pod n w r \<Longrightarrow> volumes_mounted cf d vols pod n w r' \<Longrightarrow> r' = r"
proof (induction rule: volumes_mounted.induct)
  case (no_volume pod n w)
  then show ?case by (cases rule: volumes_mounted.cases) simp_all
next
  case (volume_fails vol pod n w e pod' n' w' vols)
  from volume_fails(2,1) show ?case by (cases rule: volumes_mounted.cases) simp_all
next
  case (next_volume vol pod n w pod' n' w' vols r)
  from next_volume(4,1-3) show ?case by (cases rule: volumes_mounted.cases) simp_all
qed

lemma first_unprepared_unique: "first_unprepared podEnv cs i \<Longrightarrow> first_unprepared podEnv cs j \<Longrightarrow> i = j"
  by (metis first_unprepared_def nat_neq_iff)

lemma first_unprepared_in: "first_unprepared podEnv cs i \<Longrightarrow> \<exists>c \<in> set cs. unprepared podEnv c"
  by (auto simp: first_unprepared_def)

lemma pod_creation_unique: "pod_creation cf pod s f \<Longrightarrow> pod_creation cf pod s g \<Longrightarrow> f = g"
  by (elim pod_creation.cases) (auto dest: volumes_mounted_unique first_unprepared_unique first_unprepared_in)

lemma mount_all_mounted:
  "mount_all cf d vols pod n w = Ret (err, pod', n', w') \<Longrightarrow> volumes_mounted cf d vols pod n w err"
proof (induction vols arbitrary: pod n w)
  case (Cons vol vols)
  then obtain e pod1 n1 w1 where m: "mountVolumeSource (cf_api cf) (cf_qualified cf) d vol pod n w = Ret (e, pod1, n1, w1)"
    and rest: "(case e of Some x \<Rightarrow> Ret (Some x, pod1, n1, w1) | None \<Rightarrow> mount_all cf d vols pod1 n1 w1) = Ret (err, pod', n', w')"
    by auto
  show ?case using m rest Cons.IH by (cases e) (auto intro: volume_fails next_volume)
qed (auto intro: no_volume)

lemma build_bind_Ret:
  "build_bind cf podEnv d m w = Ret (r, w') \<Longrightarrow> isl r \<longleftrightarrow> absolute_sub podEnv m"
  by (auto simp: build_bind_def absolute_sub_def SystemPanic_def Let_def filepath_IsAbs_def
      split: if_splits sum.splits prod.splits option.splits bool.splits)

lemma build_binds_Ret:
  "build_binds cf podEnv d ms w = Ret (r, w') \<Longrightarrow> isl r \<longleftrightarrow> (\<exists>m \<in> set ms. absolute_sub podEnv m)"
proof (induction ms arbitrary: w r)
  case (Cons m ms)
  then obtain b w1 where b: "build_bind cf podEnv d m w = Ret (b, w1)" by auto
  note a = build_bind_Ret [OF b]
  show ?case
  proof (cases b)
    case (Inr x)
    then obtain rs where "build_binds cf podEnv d ms w1 = Ret (rs, w')" "r = map_sum id ((#) x) rs"
      using Cons.prems b by auto
    then show ?thesis using Cons.IH a Inr by (cases rs) force+
  qed (use Cons.prems b a in auto)
qed auto

lemma buildContainer_Ret:
  assumes "buildContainer cf podEnv pod c st h = Ret (r, h')"
  shows "isl r \<longleftrightarrow> unprepared podEnv c"
  using assms
  by (auto simp: buildContainer_def unprepared_def SystemPanic_def Let_def simp del: bind_outcome_Ret_iff
      elim!: bind_RetE dest!: build_binds_Ret split: prod.splits option.splits sum.splits outcome.splits)

lemma build_all_first:
  "build_all cf podEnv pod i cs h = Ret (r, sts, h') \<Longrightarrow>
   (case r of Inl k \<Rightarrow> \<exists>j. k = i + j \<and> first_unprepared podEnv cs j | Inr jcs \<Rightarrow> \<forall>c \<in> set cs. \<not> unprepared podEnv c)"
proof (induction cs arbitrary: i h r sts)
  case (Cons c cs)
  then obtain b h1 where b: "buildContainer cf podEnv pod c zero_status h = Ret (b, h1)" by auto
  note u = buildContainer_Ret [OF b]
  show ?case
  proof (cases b)
    case (Inl e)
    then show ?thesis using Cons.prems b u by (auto simp: first_unprepared_def)
  next
    case (Inr x)
    obtain jc st where x: "x = (jc, st)" by fastforce
    obtain rs sts' where rs: "build_all cf podEnv pod (Suc i) cs h1 = Ret (rs, sts', h')" "r = map_sum id ((#) jc) rs"
      using Cons.prems b Inr x by auto
    have "first_unprepared podEnv (c # cs) (Suc j)" if "first_unprepared podEnv cs j" for j
      using that u Inr by (auto simp: first_unprepared_def less_Suc_eq_0_disj)
    then show ?thesis using Cons.IH [OF rs(1)] rs(2) u Inr by (cases rs) force+
  qed
qed simp

definition pod_built :: "config \<Rightarrow> pod \<Rightarrow> (string \<times> string) option \<Rightarrow> pod \<Rightarrow> fsys \<Rightarrow> bool" where
  "pod_built cf pod f pod' w' =
     (p_spec pod' = p_spec pod \<and> ObjectKeyFromObject pod' = ObjectKeyFromObject pod \<and>
      (case f of
         Some (reason, message) \<Rightarrow>
           s_phase (p_status pod') = Failed \<and> s_reason (p_status pod') = reason \<and> s_message (p_status pod') = message
       | None \<Rightarrow>
           HasJobID pod' \<and> (\<exists>jid. GetJobID pod' = Ret jid) \<and>
           (distinct (map c_name (ps_containers (p_spec pod))) \<longrightarrow> pod_ok pod') \<and>
           (\<exists>w. SavePodToFile (cf_codec cf) (cf_hpk cf) (Some pod') w = Ret (None, w'))))"

lemma PodError_key [simp]: "ObjectKeyFromObject (PodError w pod r m) = ObjectKeyFromObject pod"
  by (simp add: ObjectKeyFromObject_def)

text \<open>The step of \<open>build_pod\<close> that fails.\<close>

definition build_failure :: "envvar list \<Rightarrow> podspec \<Rightarrow> (string \<times> string) option \<Rightarrow> bool" where
  "build_failure podEnv spec f \<longleftrightarrow>
     (\<exists>i. first_unprepared podEnv (ps_initContainers spec) i \<and>
        f = Some (''InitContainerError'', ''failed to materialize pod.Spec.InitContainers['' @ strconv_Itoa (int i) @ '']'')) \<or>
     (\<forall>c \<in> set (ps_initContainers spec). \<not> unprepared podEnv c) \<and>
       ((\<exists>i. first_unprepared podEnv (ps_containers spec) i \<and>
          f = Some (''MainContainerError'', ''failed to materialize pod.Spec.Containers['' @ strconv_Itoa (int i) @ '']'')) \<or>
        (\<forall>c \<in> set (ps_containers spec). \<not> unprepared podEnv c) \<and> f = None)"

lemma build_pod_built:
  assumes "build_pod cf podEnv pod h = Ret (pod', h')"
  shows "\<exists>f. build_failure podEnv (p_spec pod) f \<and> pod_built cf pod f pod' (h_fs h')"
proof -
  from assms obtain ri stsi h1 where inits: "build_all cf podEnv pod 0 (ps_initContainers (p_spec pod)) h = Ret (ri, stsi, h1)"
    by (auto simp: build_pod_def)
  note first = build_all_first [OF inits]
  show ?thesis
  proof (cases ri)
    case (Inl i)
    with assms inits first show ?thesis
      by (auto simp: build_pod_def Let_def pod_built_def build_failure_def dest: ObjectKey_meta)
  next
    case (Inr ijcs)
    let ?pod2 = "upd_status (\<lambda>st. st\<lparr>s_initContainerStatuses := stsi\<rparr>) pod"
    from assms inits Inr obtain rm stsm h2
      where mains: "build_all cf podEnv ?pod2 0 (ps_containers (p_spec pod)) h1 = Ret (rm, stsm, h2)"
      by (auto simp: build_pod_def Let_def)
    note first2 = build_all_first [OF mains]
    show ?thesis
    proof (cases rm)
      case (Inl i)
      with assms inits Inr mains first first2 show ?thesis
        by (auto simp: build_pod_def Let_def pod_built_def build_failure_def dest: ObjectKey_meta)
    next
      case mjcs: (Inr mjcs)
      let ?pod3 = "upd_status (\<lambda>st. st\<lparr>s_containerStatuses := stsm\<rparr>) ?pod2"
      have "submit_pod cf ?pod3 ijcs mjcs h2 = Ret (pod', h')"
        using assms inits Inr mains mjcs by (auto simp: build_pod_def Let_def)
      from submit_pod_Ret [OF this] have "pod_built cf pod None pod' (h_fs h')"
        using build_all_statuses [OF inits [unfolded Inr]] build_all_statuses [OF mains [unfolded mjcs]]
        by (auto simp: pod_built_def pod_ok_def)
      then show ?thesis using first first2 Inr mjcs by (auto simp: build_failure_def)
    qed
  qed
qed

lemma CreatePod_built:
  assumes "CreatePod cf pod s = Ret (pod', s')"
  shows "\<exists>f. pod_creation cf pod s f \<and> pod_built cf pod f pod' (y_fs s')"
proof -
  from assms obtain podEnv s1 err pod1 n w
    where prep: "prepare_pod cf pod s = Ret (podEnv, s1)"
    and mount: "mount_all cf (pod_dir (cf_hpk cf) (ObjectKeyFromObject pod)) (ps_volumes (p_spec pod)) pod (y_tick s1) (y_fs s1)
      = Ret (err, pod1, n, w)"
    by (auto simp: CreatePod_def Let_def)
  note keeps = mount_all_keeps [OF mount] and mounted = mount_all_mounted [OF mount]
  then have key: "ObjectKeyFromObject pod1 = ObjectKeyFromObject pod" by (simp add: ObjectKeyFromObject_def)
  show ?thesis
  proof (cases err)
    case (Some e)
    then have "pod_creation cf pod s (Some (''VolumeError'', error_text e))" using volume_error prep mounted by blast
    moreover have "pod_built cf pod (Some (''VolumeError'', error_text e)) pod' (y_fs s')"
      using assms prep mount keeps Some by (auto simp: CreatePod_def Let_def pod_built_def ObjectKeyFromObject_def)
    ultimately show ?thesis by blast
  next
    case None
    let ?s2 = "put_fs w (s1\<lparr>y_tick := n\<rparr>)"
    from assms prep mount None obtain h where "build_pod cf podEnv pod1 (y_host ?s2) = Ret (pod', h)" "s' = ?s2\<lparr>y_host := h\<rparr>"
      by (auto simp: CreatePod_def Let_def)
    moreover have "pod_built cf pod1 f pod' v = pod_built cf pod f pod' v" for f v using keeps key by (simp add: pod_built_def split: option.split)
    ultimately obtain f where f: "build_failure podEnv (p_spec pod) f" "pod_built cf pod f pod' (y_fs s')"
      using build_pod_built [of cf podEnv pod1 "y_host ?s2" pod' h] keeps by auto
    then have "pod_creation cf pod s f"
      using init_error [OF prep] main_error [OF prep] created [OF prep] mounted None unfolding build_failure_def by auto
    then show ?thesis using f(2) by blast
  qed
qed

text \<open>
  C8. What \<open>CreatePod\<close> leaves behind when it returns. \<open>pod_creation\<close> says which step fails: the first volume
  that cannot be mounted, else the first init container, else the first main container with a mount
  under an absolute subpath, or none. The pod has kept its specification and key, and it is failed with
  exactly the reason and message of that step; or, when none fails, it carries a job id that can be read
  back, every container and init container has its status under its name (the pod is well formed), and
  its description on disk loads to exactly this pod.
\<close>

theorem CreatePod_result:
  assumes "CreatePod cf pod s = Ret (pod', s')"
    and "codec_ok (cf_codec cf)" "cf_hpk cf = abs_path root" "list_all name_ok root" "key_ok (ObjectKeyFromObject pod)"
    and "distinct (map c_name (ps_containers (p_spec pod)))"
    and "pod_home root (y_fs s') (ObjectKeyFromObject pod)"
    and "faults (y_fs s') SysRead (abs_path (crd_elems root (ObjectKeyFromObject pod))) = None"
  shows "p_spec pod' = p_spec pod \<and> ObjectKeyFromObject pod' = ObjectKeyFromObject pod \<and>
    (\<exists>!f. pod_creation cf pod s f) \<and>
    (\<forall>reason message. pod_creation cf pod s (Some (reason, message)) \<longrightarrow>
       s_phase (p_status pod') = Failed \<and> s_reason (p_status pod') = reason \<and> s_message (p_status pod') = message) \<and>
    (pod_creation cf pod s None \<longrightarrow>
       HasJobID pod' \<and> (\<exists>jid. GetJobID pod' = Ret jid) \<and> pod_ok pod' \<and>
       LoadPodFromKey (cf_codec cf) (cf_hpk cf) (y_fs s') (ObjectKeyFromObject pod) = Ret (Inr pod'))"
proof -
  obtain f where f: "pod_creation cf pod s f" "pod_built cf pod f pod' (y_fs s')" using CreatePod_built [OF assms(1)] by blast
  have unique: "g = f" if "pod_creation cf pod s g" for g by (rule pod_creation_unique [OF that f(1)])
  have key: "ObjectKeyFromObject pod' = ObjectKeyFromObject pod" using f(2) by (simp add: pod_built_def)
  have loads: "LoadPodFromKey (cf_codec cf) (cf_hpk cf) (y_fs s') (ObjectKeyFromObject pod) = Ret (Inr pod')"
    if "SavePodToFile (cf_codec cf) (cf_hpk cf) (Some pod') w = Ret (None, y_fs s')" for w
    using saved_pod_loads [of "cf_codec cf" root pod' "y_fs s'" w] assms that key by simp
  have "\<exists>!f. pod_creation cf pod s f" using f(1) unique by blast
  moreover have "s_phase (p_status pod') = Failed \<and> s_reason (p_status pod') = reason \<and> s_message (p_status pod') = message"
    if "pod_creation cf pod s (Some (reason, message))" for reason message
    using f(2) unique [OF that] by (auto simp: pod_built_def)
  moreover have "HasJobID pod' \<and> (\<exists>jid. GetJobID pod' = Ret jid) \<and> pod_ok pod' \<and>
      LoadPodFromKey (cf_codec cf) (cf_hpk cf) (y_fs s') (ObjectKeyFromObject pod) = Ret (Inr pod')"
    if "pod_creation cf pod s None"
    using f(2) unique [OF that] assms(6) loads by (auto simp: pod_built_def)
  ultimately show ?thesis using f(2) by (auto simp: pod_built_def)
qed

subsection \<open>What deleting a pod removes\<close>

lemma os_RemoveAll_dir:
  assumes "list_all name_ok p" "real_dir w p" "\<And>s. faults w SysRemoveAll s = None"
  shows "os_RemoveAll (abs_path p) w = (None, fs_del_tree p w)"
  using assms by (simp add: os_RemoveAll_def fs_resolve_dir Let_def)

lemma fs_children_Nil: "fs_children w p = [] \<Longrightarrow> fs_lookup w (p @ [c]) = None"
proof (rule ccontr)
  assume none: "fs_children w p = []" and "fs_lookup w (p @ [c]) \<noteq> None"
  then obtain n where "(p @ [c], n) \<in> set (entries w)"
    by (auto simp: fs_lookup_def dest: map_of_SomeD split: if_splits)
  then have "c \<in> set (fs_children w p)" by (force simp: fs_children_def)
  with none show False by simp
qed

lemma strict_prefix_next: "strict_prefix p q \<Longrightarrow> prefix (p @ [q ! length p]) q"
  by (elim strict_prefixE') simp

lemma fs_wf_child:
  assumes "fs_wf w" and "fs_lookup w q \<noteq> None" and "strict_prefix p q"
  shows "fs_lookup w (p @ [q ! length p]) \<noteq> None"
proof (cases "p @ [q ! length p] = q")
  case False
  note pre = strict_prefix_next [OF assms(3)]
  from assms(2,3) have "q \<in> set (map fst (entries w))"
    by (cases "q = []") (force simp: fs_lookup_def dest!: map_of_SomeD)+
  from fs_wf_ancestor [OF assms(1) this] pre False show ?thesis
    by (auto simp: strict_prefix_def elim: is_dirE)
qed (use assms in simp)

text \<open>The pod directory and, when it is empty then, the directory of the namespace.\<close>

definition pod_elems :: "fpath \<Rightarrow> objkey \<Rightarrow> fpath" where
  "pod_elems root k = root @ [key_namespace k, key_name k]"

lemma collect_namespace_lookup:
  assumes "list_all name_ok root" "root \<noteq> []" "key_ok k" "real_dir w (root @ [key_namespace k])"
    and "\<And>s. faults w SysRemoveAll s = None"
  shows "collect_namespace (abs_path (pod_elems root k)) w = w \<or>
    collect_namespace (abs_path (pod_elems root k)) w = fs_del_tree (root @ [key_namespace k]) w \<and>
    (\<forall>c. fs_lookup w (root @ [key_namespace k, c]) = None)"
proof -
  let ?ns = "root @ [key_namespace k]"
  have ok: "list_all name_ok ?ns" "name_ok (key_name k)" using assms by (auto simp: key_ok_def)
  have dir: "filepath_Dir (abs_path (pod_elems root k)) = abs_path ?ns"
    using Dir_abs_path [of ?ns "key_name k"] ok by (simp add: pod_elems_def)
  have "\<forall>c. fs_lookup w (?ns @ [c]) = None" if "IsEmpty w (abs_path ?ns) = Inr True"
  proof -
    have "os_ReadDirNames w (abs_path ?ns) = Inr []"
      using that by (auto simp: IsEmpty_def split: sum.splits)
    then have "fs_children w ?ns = []"
      using fs_resolve_dir [OF ok(1) assms(4)]
      by (auto simp: os_ReadDirNames_def syscall_def split: option.splits fnode.splits sum.splits)
    then show ?thesis using fs_children_Nil by blast
  qed
  with dir show ?thesis
    using os_RemoveAll_dir [OF ok(1) assms(4,5)]
    by (auto simp: collect_namespace_def Let_def split: sum.split bool.split)
qed

text \<open>A directory without entries has nothing below it, also after the removal of a tree.\<close>

lemma del_tree_empty:
  assumes "fs_wf w" "\<forall>c. fs_lookup (fs_del_tree p w) (d @ [c]) = None" "strict_prefix d q"
  shows "fs_lookup (fs_del_tree p w) q = None"
proof (rule ccontr)
  assume some: "fs_lookup (fs_del_tree p w) q \<noteq> None"
  then have q: "fs_lookup w q \<noteq> None" "\<not> prefix p q" using assms(3) by (auto split: if_splits)
  with fs_wf_child [OF assms(1) _ assms(3)] have "fs_lookup w (d @ [q ! length d]) \<noteq> None" by blast
  moreover have "\<not> prefix p (d @ [q ! length d])"
    using q(2) strict_prefix_next [OF assms(3)] by (blast intro: prefix_order.trans)
  ultimately have "fs_lookup (fs_del_tree p w) (d @ [q ! length d]) \<noteq> None" by (simp del: prefix_snoc)
  with assms(2) show False by simp
qed

lemma remove_pod_effect:
  assumes "remove_pod cf k s = Ret (r, s')" and "cf_hpk cf = abs_path root"
    and "list_all name_ok root" "root \<noteq> []" "key_ok k"
    and "fs_wf (y_fs s)" "real_dir (y_fs s) (pod_elems root k)" "\<And>p. faults (y_fs s) SysRemoveAll p = None"
  shows "(\<forall>q. prefix (pod_elems root k) q \<longrightarrow> fs_lookup (y_fs s') q = None) \<and>
    (\<forall>q. \<not> prefix (pod_elems root k) q \<and> q \<noteq> root @ [key_namespace k] \<longrightarrow> fs_lookup (y_fs s') q = fs_lookup (y_fs s) q) \<and>
    real_dir (y_fs s') root \<and> faults (y_fs s') = faults (y_fs s) \<and>
    (fs_lookup (y_fs s') (root @ [key_namespace k]) = None \<or> is_dir (fs_lookup (y_fs s') (root @ [key_namespace k])))"
proof -
  let ?p = "pod_elems root k" and ?ns = "root @ [key_namespace k]"
  let ?w1 = "fs_del_tree ?p (y_fs s)"
  have ok: "list_all name_ok ?p" using assms(3,5) by (simp add: pod_elems_def key_ok_def)
  have podDir: "pod_dir (cf_hpk cf) k = abs_path ?p"
    using assms(2-5) by (simp add: pod_dir_abs pod_elems_def)
  have s': "y_fs s' = collect_namespace (abs_path ?p) ?w1"
    using assms(1) podDir os_RemoveAll_dir [OF ok assms(7,8)]
    by (auto simp: remove_pod_def remove_pod_dir_def SystemPanic_def Let_def split: prod.splits option.splits)
  have real: "real_dir (y_fs s) ?ns" "real_dir (y_fs s) root"
    using assms(7) by (auto simp: pod_elems_def dir_chain_append)
  have ns1: "real_dir ?w1 ?ns"
    using dir_chain_del_tree [OF real(1), of ?p] by (simp add: pod_elems_def)
  have cases: "y_fs s' = ?w1 \<or> y_fs s' = fs_del_tree ?ns ?w1 \<and> (\<forall>c. fs_lookup ?w1 (?ns @ [c]) = None)"
    using collect_namespace_lookup [OF assms(3-5) ns1] assms(8) s' by simp
  have "fs_lookup (y_fs s') q = None" if "prefix ?p q" for q
    using cases that by (auto simp: pod_elems_def split: if_splits)
  moreover have "fs_lookup (y_fs s') q = fs_lookup (y_fs s) q" if q: "\<not> prefix ?p q" "q \<noteq> ?ns" for q
  proof -
    have w1: "fs_lookup ?w1 q = fs_lookup (y_fs s) q" using q(1) by simp
    show ?thesis
    proof (cases "y_fs s' = ?w1")
      case False
      with cases have del: "y_fs s' = fs_del_tree ?ns ?w1" "\<forall>c. fs_lookup ?w1 (?ns @ [c]) = None" by auto
      show ?thesis
      proof (cases "prefix ?ns q")
        case True
        with q(2) del_tree_empty [OF assms(6) del(2), of q] have "fs_lookup ?w1 q = None" by (simp add: strict_prefix_def)
        with w1 True show ?thesis unfolding del(1) by (subst fs_lookup_del_tree) auto
      qed (use del(1) w1 in simp)
    qed (use w1 in simp)
  qed
  moreover have "fs_lookup (y_fs s') ?ns = None \<or> is_dir (fs_lookup (y_fs s') ?ns)"
    using cases real_dir_lookup [OF ns1] by auto
  moreover have "real_dir (y_fs s') root"
    using cases real(2) dir_chain_del_tree [of ?w1 "[]" root ?ns] dir_chain_del_tree [OF real(2), of ?p]
    by (auto simp: pod_elems_def)
  ultimately show ?thesis using cases by auto
qed

text \<open>\<open>scancel\<close> does not touch the files.\<close>

definition quiet_cancel :: "proc \<Rightarrow> bool" where
  "quiet_cancel proc = (\<forall>args h. snd (proc CancelCmd args h) = h_fs h)"

lemma CancelJob_fs: "quiet_cancel proc \<Longrightarrow> CancelJob proc jid h = (out, err, h') \<Longrightarrow> h_fs h' = h_fs h"
  by (auto simp: CancelJob_def Execute_defs Let_def quiet_cancel_def split: prod.splits proc_result.splits if_splits) 
    (metis snd_conv)+

lemma DeletePod_remove:
  assumes "DeletePod cf k s = Ret (True, s')" "LoadPodFromKey (cf_codec cf) (cf_hpk cf) (y_fs s) k = Ret (Inr p)"
    and "quiet_cancel (cf_proc cf)"
  shows "\<exists>h. h_fs h = y_fs s \<and> remove_pod cf k (s\<lparr>y_host := h\<rparr>) = Ret (True, s')"
proof (cases "HasJobID p")
  case True
  with assms(1,2) obtain jid where "GetJobID p = Ret jid" by (auto simp: DeletePod_def)
  moreover obtain out err h where "CancelJob (cf_proc cf) jid (y_host s) = (out, err, h)" by (cases "CancelJob (cf_proc cf) jid (y_host s)") auto
  ultimately show ?thesis
    using assms True CancelJob_fs [OF assms(3), of jid "y_host s" out err h]
    by (auto simp: DeletePod_def SystemPanic_def split: option.splits if_splits)
next
  case False
  with assms(1,2) show ?thesis by (auto simp: DeletePod_def intro!: exI [of _ "y_host s"])
qed

lemma load_gone:
  assumes "list_all name_ok root" "real_dir w root" "key_ok k"
    and "fs_lookup w (root @ [key_namespace k]) = None \<or> is_dir (fs_lookup w (root @ [key_namespace k]))"
    and "fs_lookup w (pod_elems root k) = None" "faults w SysRead (abs_path (crd_elems root k)) = None"
  shows "LoadPodFromKey c (abs_path root) w k =
    Ret (Inl (Wrapped (OsError ENOENT (abs_path (crd_elems root k))) ''failed to read file path''))"
proof -
  have dots: "key_namespace k \<noteq> ''..''" "key_name k \<noteq> ''..''" using assms(3) by (auto simp: key_ok_def name_ok_def)
  have "fs_resolve True w (abs_path (crd_elems root k)) =
      resolve True max_symlinks w root [key_namespace k, key_name k, ''job'', ''pod.crd'']"
    using assms(1-3) crd_elems_ok [of root k] resolve_dir_chain [of w "[]" root True max_symlinks]
    by (simp add: fs_resolve_def crd_elems_def job_elems_def)
  also have "\<dots> = Inl ENOENT"
    using assms(4,5) dots by (auto simp: resolve.simps pod_elems_def elim: is_dirE)
  finally show ?thesis
    using assms by (simp add: LoadPodFromKey_def LoadPodFromFile_def EncodedJSONPath_abs os_ReadFile_def syscall_def)
qed



subsection \<open>Witnesses\<close>

text \<open>
  A cluster that accepts every job as number 42, an empty HPK directory, a pod with one container,
  and what \<open>CreatePod\<close> makes of it. The text of the job script is not evaluated.
\<close>

definition demo_proc :: proc where
  "demo_proc cmd args h =
     (if cmd = SubmitCmd then (ProcOk (''Submitted batch job 42'' @ nl), h_fs h) else (ProcOk [], h_fs h))"

definition demo_config :: "codec \<Rightarrow> config" where
  "demo_config c = \<lparr>cf_hpk = abs_path [''h''], cf_env = jf_HostEnv demo_fields, cf_proc = demo_proc, cf_api = demo_api,
     cf_services = (\<lambda>n. Inr []), cf_qualified = (\<lambda>s. []), cf_quantity = tally_ops, cf_codec = c,
     cf_within = elems_within, cf_funcs = \<lparr>tf_join = (\<lambda>sep xs. strings_Join xs sep), tf_Quote = (\<lambda>s. s)\<rparr>,
     cf_pauseImage = ''/h/.images/pause_1.1.9.sif''\<rparr>"

definition demo_sys :: "entries \<Rightarrow> string list \<Rightarrow> sys" where
  "demo_sys es watched = \<lparr>y_host = \<lparr>h_fs = demo_run_fs\<lparr>entries := es\<rparr>, h_cmds = []\<rparr>,
     y_watcher = (NewPollingWatcher 5)\<lparr>po_watches := watched\<rparr>, y_tick = 0\<rparr>"

definition tiny_pod :: pod where
  "tiny_pod = demo_pod
     \<lparr>p_meta := \<lparr>om_namespace = ''n'', om_name = ''p'', om_uid = [], om_labels = [], om_annotations = [], om_resourceVersion = ''1''\<rparr>,
      p_spec := \<lparr>ps_volumes = [], ps_initContainers = [], ps_containers = [demo_container ''m''], ps_ephemeralContainers = [],
        ps_affinity = False, ps_dnsConfig = False, ps_securityContext = None, ps_serviceAccountName = [], ps_nodeName = []\<rparr>\<rparr>"

definition tiny_created :: pod where
  "tiny_created = tiny_pod
     \<lparr>p_meta := (p_meta tiny_pod)\<lparr>om_annotations := [(''kubeMasterHost'', ''10.0.0.1''), (''containerRegistry'', []),
        (''apptainerBin'', ''apptainer''), (''enableCgroupV2'', ''false''), (''workingDirectory'', ''/h''), (''kubeDNS'', ''10.0.0.2''),
        (''cgroupFilePath'', ''/h/n/p/job/cgroup.toml''), (''constructorFilePath'', ''/h/n/p/job/constructor.sh''),
        (''ipAddressPath'', ''/h/n/p/controlfiles/.ip''), (''stdoutPath'', ''/h/n/p/logs/.stdout''),
        (''stderrPath'', ''/h/n/p/logs/.stderr''), (''sysErrorFilePath'', ''/h/n/p/controlfiles/.syserror''),
        (''PauseImage'', ''malvag/pause:1.1.9''), (''pod.hpk/id'', ''slurm://42'')]\<rparr>,
      p_status := (p_status tiny_pod)\<lparr>s_containerStatuses := [zero_status\<lparr>cs_name := ''m'', cs_containerID := ''n_p_m'',
        cs_image := ''alpine'', cs_imageID := ''/h/.images/alpine_latest.sif''\<rparr>]\<rparr>\<rparr>"

definition tiny_key :: objkey where
  "tiny_key = \<lparr>key_namespace = ''n'', key_name = ''p''\<rparr>"

declare HostScriptTemplate_def [code del]

lemma tiny_run:
  "(case CreatePod (demo_config (one_codec tiny_created)) tiny_pod (demo_sys [([''h''], Dir 493)] []) of
     Ret (p, s') \<Rightarrow> p = tiny_created \<and> pod_home [''h''] (y_fs s') tiny_key \<and>
       faults (y_fs s') SysRead (abs_path (crd_elems [''h''] tiny_key)) = None
   | Panic m \<Rightarrow> False)"
  by code_simp

lemma tiny_simps:
  "ObjectKeyFromObject tiny_pod = tiny_key" "key_ok tiny_key" "cf_hpk (demo_config c) = abs_path [''h'']"
  "cf_codec (demo_config c) = c" "list_all name_ok [''h'']" "s_phase (p_status tiny_created) = Pending"
  "distinct (map c_name (ps_containers (p_spec tiny_pod)))"
  by (simp_all add: tiny_pod_def tiny_created_def tiny_key_def ObjectKeyFromObject_def key_ok_def name_ok_def
      demo_config_def demo_pod_def)

text \<open>A second pod, whose init container mounts a volume under an absolute subpath.\<close>

definition bad_pod :: pod where
  "bad_pod = tiny_pod\<lparr>p_spec := (p_spec tiny_pod)\<lparr>ps_initContainers :=
     [(demo_container ''i'')\<lparr>c_volumeMounts := [(mount_at ''v'' ''/data'')\<lparr>vm_subPath := ''/etc''\<rparr>]\<rparr>]\<rparr>\<rparr>"

lemma bad_run:
  "(case CreatePod (demo_config (one_codec tiny_created)) bad_pod (demo_sys [([''h''], Dir 493)] []) of
     Ret (p, s') \<Rightarrow> pod_home [''h''] (y_fs s') tiny_key \<and> faults (y_fs s') SysRead (abs_path (crd_elems [''h''] tiny_key)) = None
   | Panic m \<Rightarrow> False)"
  by code_simp

lemma bad_simps:
  "ObjectKeyFromObject bad_pod = tiny_key" "distinct (map c_name (ps_containers (p_spec bad_pod)))"
  by (simp_all add: bad_pod_def tiny_pod_def tiny_key_def ObjectKeyFromObject_def demo_pod_def)

lemma bad_creation:
  "pod_creation (demo_config (one_codec tiny_created)) bad_pod (demo_sys [([''h''], Dir 493)] [])
     (Some (''InitContainerError'', ''failed to materialize pod.Spec.InitContainers[0]''))"
proof -
  let ?cf = "demo_config (one_codec tiny_created)" and ?s = "demo_sys [([''h''], Dir 493)] []"
  have "(case prepare_pod ?cf bad_pod ?s of Ret r \<Rightarrow> True | Panic m \<Rightarrow> False)" by code_simp
  then obtain podEnv s1 where prep: "prepare_pod ?cf bad_pod ?s = Ret (podEnv, s1)" by (auto split: outcome.splits)
  have "volumes_mounted ?cf d (ps_volumes (p_spec bad_pod)) bad_pod n w None" for d n w
    by (simp add: bad_pod_def tiny_pod_def no_volume)
  moreover have "first_unprepared podEnv (ps_initContainers (p_spec bad_pod)) 0"
    by (simp add: bad_pod_def first_unprepared_def unprepared_def absolute_sub_def mount_at_def filepath_IsAbs_def)
  moreover have "''failed to materialize pod.Spec.InitContainers['' @ strconv_Itoa (int 0) @ '']'' = ''failed to materialize pod.Spec.InitContainers[0]''"
    by code_simp
  ultimately show ?thesis using init_error [OF prep, of 0] by simp
qed

theorem CreatePod_result_witness:
  "(\<exists>s'. CreatePod (demo_config (one_codec tiny_created)) tiny_pod (demo_sys [([''h''], Dir 493)] []) = Ret (tiny_created, s') \<and>
     HasJobID tiny_created \<and> pod_ok tiny_created \<and>
     LoadPodFromKey (one_codec tiny_created) (abs_path [''h'']) (y_fs s') tiny_key = Ret (Inr tiny_created)) \<and>
   (\<exists>p s'. CreatePod (demo_config (one_codec tiny_created)) bad_pod (demo_sys [([''h''], Dir 493)] []) = Ret (p, s') \<and>
     s_phase (p_status p) = Failed \<and> s_reason (p_status p) = ''InitContainerError'' \<and>
     s_message (p_status p) = ''failed to materialize pod.Spec.InitContainers[0]'')"
proof
  obtain s' where s': "CreatePod (demo_config (one_codec tiny_created)) tiny_pod (demo_sys [([''h''], Dir 493)] []) = Ret (tiny_created, s')"
    "pod_home [''h''] (y_fs s') tiny_key" "faults (y_fs s') SysRead (abs_path (crd_elems [''h''] tiny_key)) = None"
    using tiny_run by (auto split: outcome.splits prod.splits)
  note result = CreatePod_result [OF s'(1), of "[''h'']"]
  obtain f where f: "pod_creation (demo_config (one_codec tiny_created)) tiny_pod (demo_sys [([''h''], Dir 493)] []) f"
    using result s' tiny_simps one_codec_ok by auto
  have "f = None" using result s' tiny_simps one_codec_ok f by (cases f) auto
  then show "\<exists>s'. CreatePod (demo_config (one_codec tiny_created)) tiny_pod (demo_sys [([''h''], Dir 493)] []) = Ret (tiny_created, s') \<and>
     HasJobID tiny_created \<and> pod_ok tiny_created \<and>
     LoadPodFromKey (one_codec tiny_created) (abs_path [''h'']) (y_fs s') tiny_key = Ret (Inr tiny_created)"
    using result s' tiny_simps one_codec_ok f by auto
next
  obtain p s' where s': "CreatePod (demo_config (one_codec tiny_created)) bad_pod (demo_sys [([''h''], Dir 493)] []) = Ret (p, s')"
    "pod_home [''h''] (y_fs s') tiny_key" "faults (y_fs s') SysRead (abs_path (crd_elems [''h''] tiny_key)) = None"
    using bad_run by (auto split: outcome.splits prod.splits)
  then show "\<exists>p s'. CreatePod (demo_config (one_codec tiny_created)) bad_pod (demo_sys [([''h''], Dir 493)] []) = Ret (p, s') \<and>
     s_phase (p_status p) = Failed \<and> s_reason (p_status p) = ''InitContainerError'' \<and>
     s_message (p_status p) = ''failed to materialize pod.Spec.InitContainers[0]''"
    using CreatePod_result [OF s'(1), of "[''h'']"] tiny_simps bad_simps bad_creation one_codec_ok by auto
qed

text \<open>The pod of \<open>demo_run_fs\<close> is deleted; its control files were watched.\<close>

definition demo_watched :: sys where
  "demo_watched = demo_sys (entries demo_run_fs) [''/h/default/web/controlfiles'']"

definition demo_deleted :: sys where
  "demo_deleted = (case DeletePod (demo_config (one_codec demo_pod)) (ObjectKeyFromObject demo_pod) demo_watched of
     Ret (b, s') \<Rightarrow> s' | Panic m \<Rightarrow> demo_watched)"

lemma demo_delete:
  "DeletePod (demo_config (one_codec demo_pod)) (ObjectKeyFromObject demo_pod) demo_watched = Ret (True, demo_deleted)"
proof -
  have "(case DeletePod (demo_config (one_codec demo_pod)) (ObjectKeyFromObject demo_pod) demo_watched of
     Ret (b, s') \<Rightarrow> b | Panic m \<Rightarrow> False)" by code_simp
  then show ?thesis unfolding demo_deleted_def by (auto split: outcome.splits prod.splits)
qed

lemma demo_watched_fs: "y_fs demo_watched = demo_run_fs"
  by (simp add: demo_watched_def demo_sys_def)

lemma demo_watched_wf:
  "fs_wf demo_run_fs" "real_dir demo_run_fs (pod_elems [''h''] (ObjectKeyFromObject demo_pod))"
  "quiet_cancel (cf_proc (demo_config c))" "faults demo_run_fs op path = None"
  by (simp_all add: fs_wf_def demo_run_fs_def demo_fs_def fs_lookup_def name_ok_def pod_elems_def demo_key
      quiet_cancel_def demo_config_def demo_proc_def SubmitCmd_def CancelCmd_def)



end
