(* ===== verification/HPK_Pause.thy ===== *)
theory HPK_Pause
  imports HPK_PodHandler
begin

text \<open>
  The program \<open>cmd/pause\<close> that runs inside the job of a pod: it fetches the pod, prepares name
  resolution, announces the pod's address, runs the init containers one after the other, starts the
  main containers and waits for them. What runs in the containers, the shell, the API server and the
  network are the record \<open>pause_env\<close>. The sequential part are functions on the file system; the
  goroutines of the main containers are the step relation \<open>pause_step\<close>, in which they interleave with
  each other and with what the containers do to the files. The lemmas show that the control files at
  every moment say of each container what is the case, as the provider reads them, which command lines
  the job starts, and what becomes of a pod whose init container fails.
\<close>

subsection \<open>The surroundings\<close>

text \<open>An address of a network interface; \<open>na_v4\<close> is \<open>To4() != nil\<close>.\<close>

record net_addr =
  na_isIPNet :: bool
  na_loopback :: bool
  na_v4 :: bool
  na_text :: string

datatype proc_end = NotStarted go_error | Ended int

record pause_env =
  pe_client :: "go_error option"                \<comment> \<open>the client could not be made from \<open>/k8s-data/admin.conf\<close>\<close>
  pe_getPod :: "nat \<Rightarrow> go_error + pod"          \<comment> \<open>the answer to the n-th request\<close>
  pe_addrs :: "go_error + net_addr list"
  pe_hostname :: "go_error + string"
  pe_pid :: nat
  pe_shell :: "string \<Rightarrow> fsys \<Rightarrow> (go_error + string) \<times> fsys"
  pe_apptainer :: "string list \<Rightarrow> strmap \<Rightarrow> fsys \<Rightarrow> proc_end \<times> fsys"
  pe_environ :: strmap

definition fileExists :: "fsys \<Rightarrow> string \<Rightarrow> bool outcome" where
  "fileExists w filename =
     (if filename = [] then Ret False
      else case os_Stat w filename of
        Inl err \<Rightarrow> if os_IsNotExist err then Ret False else SystemPanic err ''stat''
      | Inr nd \<Rightarrow> Ret (\<not> is_dir (Some nd)))"

text \<open>
  Fetching the pod: \<open>attempts\<close> is the number of requests that can be made before the timer of five
  minutes fires (a request that fails is followed by a pause of five seconds, so there are at most
  60). \<open>None\<close> is the end of the program with status 1. The answer of the loop is thrown away and the
  pod is fetched once more.
\<close>

fun acquire_pod :: "(nat \<Rightarrow> go_error + pod) \<Rightarrow> nat \<Rightarrow> nat \<Rightarrow> nat option" where
  "acquire_pod getPod n 0 = None"
| "acquire_pod getPod n (Suc attempts) =
     (case getPod n of Inl err \<Rightarrow> acquire_pod getPod (Suc n) attempts | Inr pod \<Rightarrow> Some (Suc n))"

subsection \<open>Preparing the container environment\<close>

definition interface_ips :: "net_addr list \<Rightarrow> string list" where
  "interface_ips addrs = map na_text (filter (\<lambda>a. na_isIPNet a \<and> \<not> na_loopback a \<and> na_v4 a) addrs)"

definition pause_pod_dir :: "pod \<Rightarrow> string" where
  "pause_pod_dir pod =
     pod_dir (HPK (map_get (om_annotations (p_meta pod)) ''workingDirectory'')) (ObjectKeyFromObject pod)"

definition nl1 :: string where "nl1 = [CHR 0x0A]"

definition prepareDNS :: "pause_env \<Rightarrow> pod \<Rightarrow> fsys \<Rightarrow> go_error option \<times> fsys" where
  "prepareDNS pe pod w =
     (case os_MkdirAll ''/scratch/etc'' 420 w of
        (Some err, w1) \<Rightarrow> (Some (Message ''could not create /scratch/etc folder''), w1)
      | (None, w1) \<Rightarrow>
          let kubeDNSIP = map_get (pe_environ pe) ''KUBEDNS_IP''
          in if kubeDNSIP = [] then (Some (Message ''KUBEDNS_IP environment variable not set''), w1)
             else (case os_WriteFile ''/scratch/etc/resolv.conf''
                     (nl1 @ ''search '' @ om_namespace (p_meta pod) @ ''.svc.cluster.local svc.cluster.local cluster.local'' @ nl1 @
                      ''nameserver '' @ kubeDNSIP @ nl1 @ ''options ndots:5'' @ nl1) 511 w1 of
                     (Some err, w2) \<Rightarrow> (Some (Message ''error writing to resolv.conf''), w2)
                   | (None, w2) \<Rightarrow>
                       (case pe_hostname pe of
                          Inl err \<Rightarrow> (Some (Message ''error getting hostname''), w2)
                        | Inr hostname \<Rightarrow>
                            (case pe_addrs pe of
                               Inl err \<Rightarrow> (Some (Message ''could not get interfaces from host''), w2)
                             | Inr addrs \<Rightarrow>
                                 (case os_WriteFile ''/scratch/etc/hosts''
                                    (''127.0.0.1 localhost'' @ nl1 @ strings_Join (interface_ips addrs) '' '' @ '' '' @ hostname @ '' '' @ nl1) 511 w2 of
                                    (Some err, w3) \<Rightarrow> (Some (Message ''error writing to hosts''), w3)
                                  | (None, w3) \<Rightarrow> (None, w3))))))"

definition announceIP :: "pause_env \<Rightarrow> pod \<Rightarrow> fsys \<Rightarrow> go_error option \<times> fsys" where
  "announceIP pe pod w =
     (case pe_addrs pe of
        Inl err \<Rightarrow> (Some (Message ''could not get interfaces from host''), w)
      | Inr addrs \<Rightarrow>
          (case os_WriteFile (IPAddressPath (pause_pod_dir pod)) (strings_Join (interface_ips addrs) '' '') 511 w of
             (Some err, w') \<Rightarrow> (Some (Message ''error writing to .ip file''), w')
           | (None, w') \<Rightarrow> (None, w')))"

definition cleaned_variables :: "string list" where
  "cleaned_variables = [''LD_LIBRARY_PATH'', ''SINGULARITY_COMMAND'', ''SINGULARITY_CONTAINER'', ''SINGULARITY_ENVIRONMENT'',
     ''SINGULARITY_NAME'', ''APPTAINER_APPNAME'', ''APPTAINER_COMMAND'', ''APPTAINER_CONTAINER'', ''APPTAINER_ENVIRONMENT'',
     ''APPTAINER_NAME'', ''APPTAINER_BIND'', ''SINGULARITY_BIND'']"

text \<open>\<open>os.Unsetenv\<close> fails only on names that are not valid; these are.\<close>

definition cleanEnvironment :: "strmap \<Rightarrow> strmap" where
  "cleanEnvironment environ = filter (\<lambda>(k, v). k \<notin> set cleaned_variables) environ"

definition prepareContainers :: "pause_env \<Rightarrow> pod \<Rightarrow> fsys \<Rightarrow> go_error option \<times> pause_env \<times> fsys" where
  "prepareContainers pe pod w =
     (case prepareDNS pe pod w of
        (Some err, w1) \<Rightarrow> (Some (Wrapped err ''could not prepare DNS''), pe, w1)
      | (None, w1) \<Rightarrow>
          (case announceIP pe pod w1 of
             (Some err, w2) \<Rightarrow> (Some (Wrapped err ''could not announce ip''), pe, w2)
           | (None, w2) \<Rightarrow> (None, pe\<lparr>pe_environ := cleanEnvironment (pe_environ pe)\<rparr>, w2)))"

subsection \<open>The command of a container\<close>

definition pause_instance :: "pod \<Rightarrow> container \<Rightarrow> string" where
  "pause_instance pod c = om_namespace (p_meta pod) @ ''_'' @ om_name (p_meta pod) @ ''_'' @ c_name c"

definition scratch_env_file :: "pod \<Rightarrow> container \<Rightarrow> string" where
  "scratch_env_file pod c = filepath_Join [''/scratch'', pause_instance pod c @ ''.env'']"

text \<open>The script that HPK wrote for the environment is run and its output kept.\<close>

definition load_environment :: "pause_env \<Rightarrow> pod \<Rightarrow> container \<Rightarrow> fsys \<Rightarrow> (go_error option \<times> fsys) outcome" where
  "load_environment pe pod c w =
     (let envFilePath = EnvFilePath (pause_pod_dir pod) (c_name c)
      in bind_outcome (fileExists w envFilePath) (\<lambda>exists.
           if \<not> exists then Ret (None, w)
           else (case pe_shell pe envFilePath w of
                   (Inl err, w1) \<Rightarrow> Ret (Some (Message ''error executing EnvFilePath''), w1)
                 | (Inr output, w1) \<Rightarrow>
                     (case os_WriteFile (scratch_env_file pod c) output 420 w1 of
                        (Some err, w2) \<Rightarrow> Ret (Some (Message ''error writing env file''), w2)
                      | (None, w2) \<Rightarrow> Ret (None, w2)))))"

text \<open>
  A mount with \<open>subPathExpr\<close> asks \<open>FromServices\<close> for the variables of the services, which uses the
  client \<open>compute.K8SClient\<close>; this program never sets it, so the call panics.
\<close>

definition pause_bind :: "string \<Rightarrow> volume_mount \<Rightarrow> (go_error + string) outcome" where
  "pause_bind podDir mount =
     (let hostPath = filepath_Join [VolumeDir podDir, vm_name mount];
          subPath = vm_subPath mount;
          bind = (\<lambda>p. p @ '':'' @ vm_mountPath mount @ '':'' @ (if vm_readOnly mount then ''ro'' else ''rw''))
      in if vm_subPathExpr mount \<noteq> [] then Panic ''invalid memory address or nil pointer dereference''
         else if subPath = [] then Ret (Inr (bind hostPath))
         else if filepath_IsAbs subPath then Ret (Inl (Message (''error SubPath must not be an absolute path: '' @ subPath)))
         else Ret (Inr (bind (filepath_Join [hostPath, subPath]))))"

fun pause_binds :: "string \<Rightarrow> volume_mount list \<Rightarrow> (go_error + string list) outcome" where
  "pause_binds podDir [] = Ret (Inr [])"
| "pause_binds podDir (m # ms) =
     bind_outcome (pause_bind podDir m) (\<lambda>r. case r of
       Inl err \<Rightarrow> Ret (Inl err)
     | Inr b \<Rightarrow> bind_outcome (pause_binds podDir ms) (\<lambda>rs. Ret (map_sum id ((#) b) rs)))"

definition etc_binds :: string where
  "etc_binds = ''/scratch/etc/resolv.conf:/etc/resolv.conf,/scratch/etc/hosts:/etc/hosts''"

text \<open>The options; \<open>main_container\<close> tells the two copies of the code apart: without the HPK environment
  an init container's binds go to the last option there is, a main container's are dropped.\<close>

definition apptainer_options :: "bool \<Rightarrow> bool \<Rightarrow> bool \<Rightarrow> pod \<Rightarrow> container \<Rightarrow> string list \<Rightarrow> bool \<Rightarrow> string list" where
  "apptainer_options main_container isDebug hpkEnv pod c binds hasEnv =
     (let (uid, gid) = DetermineEffectiveRunAsUser (DetermineEffectiveSecurityContext pod c);
          args = [if isDebug then ''--debug'' else ''--quiet'', if c_command c = None then ''run'' else ''exec'',
            ''--cleanenv'', ''--writable-tmpfs'', ''--no-mount'', ''home'', ''--unsquash''];
          args = (if hpkEnv then args @ [''--bind'', etc_binds] else args);
          args = (if binds \<noteq> [] \<and> (hpkEnv \<or> \<not> main_container)
                  then butlast args @ [last args @ '','' @ strings_Join binds '',''] else args);
          args = (if uid \<noteq> 0 then args @ [''--security'', ''uid:'' @ strconv_Itoa uid @ '',gid:'' @ strconv_Itoa uid, ''--userns''] else args);
          args = (if gid \<noteq> 0 then args @ [''--security'', ''gid:'' @ strconv_Itoa gid, ''--userns''] else args)
      in if hasEnv then args @ [''--env-file'', scratch_env_file pod c] else args)"

text \<open>The environment file, the binds, the options, the image and the command line.\<close>

definition container_args :: "bool \<Rightarrow> bool \<Rightarrow> pause_env \<Rightarrow> pod \<Rightarrow> container \<Rightarrow> fsys \<Rightarrow> ((go_error + string list) \<times> fsys) outcome" where
  "container_args main_container hpkEnv pe pod c w =
     bind_outcome (load_environment pe pod c w) (\<lambda>(err, w1). case err of
       Some e \<Rightarrow> Ret (Inl e, w1)
     | None \<Rightarrow>
         bind_outcome (pause_binds (pause_pod_dir pod) (c_volumeMounts c)) (\<lambda>r. case r of
           Inl e \<Rightarrow> Ret (Inl e, w1)
         | Inr binds \<Rightarrow>
             bind_outcome (fileExists w1 (EnvFilePath (pause_pod_dir pod) (c_name c))) (\<lambda>hasEnv.
               bind_outcome (ParseImageName (c_image c)) (\<lambda>img.
                 Ret (Inr (apptainer_options main_container (map_get (pe_environ pe) ''DEBUG_MODE'' = ''true'') hpkEnv pod c binds hasEnv @
                   [ImageDir (HPK (map_get (om_annotations (p_meta pod)) ''workingDirectory'')) @ img] @
                   ExpandContainerCommandOnlyStatic (c_command c) (c_env c) @
                   ExpandContainerCommandOnlyStatic (c_args c) (c_env c)), w1)))))"

subsection \<open>Init containers\<close>

text \<open>One turn of the loop; the container runs to its end. \<open>cmd.Run\<close> fails on every status but 0.\<close>

definition run_init_container :: "bool \<Rightarrow> pause_env \<Rightarrow> pod \<Rightarrow> container \<Rightarrow> fsys \<Rightarrow> (go_error option \<times> fsys) outcome" where
  "run_init_container hpkEnv pe pod c w =
     (let podPath = pause_pod_dir pod
      in bind_outcome (container_args False hpkEnv pe pod c w) (\<lambda>(r, w1). case r of
           Inl err \<Rightarrow> Ret (Some err, w1)
         | Inr args \<Rightarrow>
             (case os_WriteFile (IDPath podPath (c_name c)) (''pid://'' @ strconv_Itoa (int (pe_pid pe))) 420 w1 of
                (Some err, w2) \<Rightarrow> Ret (Some (Message ''failed to create pid file''), w2)
              | (None, w2) \<Rightarrow>
                  (case os_Create (LogsPath podPath (c_name c)) w2 of
                     Inl err \<Rightarrow> Ret (Some (Message ''failed to create log file''), w2)
                   | Inr w3 \<Rightarrow>
                       (case pe_apptainer pe args (pe_environ pe) w3 of
                          (Ended code, w4) \<Rightarrow>
                            if code \<noteq> 0 then Ret (Some (Message ''init container failed''), w4)
                            else (case os_WriteFile (ExitCodePath podPath (c_name c)) (strconv_Itoa code) 420 w4 of
                                    (Some err, w5) \<Rightarrow> Ret (Some (Message ''failed to create exitCode file''), w5)
                                  | (None, w5) \<Rightarrow> Ret (None, w5))
                        | (NotStarted err, w4) \<Rightarrow> Ret (Some (Message ''init container failed''), w4))))))"

fun run_init_containers :: "bool \<Rightarrow> pause_env \<Rightarrow> pod \<Rightarrow> container list \<Rightarrow> fsys \<Rightarrow> (go_error option \<times> fsys) outcome" where
  "run_init_containers hpkEnv pe pod [] w = Ret (None, w)"
| "run_init_containers hpkEnv pe pod (c # cs) w =
     bind_outcome (run_init_container hpkEnv pe pod c w) (\<lambda>(err, w1). case err of
       Some e \<Rightarrow> Ret (Some e, w1) | None \<Rightarrow> run_init_containers hpkEnv pe pod cs w1)"

definition handleInitContainers :: "bool \<Rightarrow> pause_env \<Rightarrow> pod \<Rightarrow> fsys \<Rightarrow> (go_error option \<times> fsys) outcome" where
  "handleInitContainers hpkEnv pe pod w = run_init_containers hpkEnv pe pod (ps_initContainers (p_spec pod)) w"

subsection \<open>Main containers\<close>

text \<open>
  The goroutine of a container: the log file is to be created, the command (with its arguments) to be
  started, the id to be written, the command is running, the exit code is to be written, everything is done, or the
  goroutine has returned early.
\<close>

datatype main_proc = PNew "string list" | PLogged "string list" | PStarted nat | PAnnounced nat | PExited int | PFinished int | PGone

record pause_run =
  pr_fs :: fsys
  pr_todo :: "container list"    \<comment> \<open>not yet reached by the loop of \<open>handleContainers\<close>\<close>
  pr_procs :: "(container \<times> main_proc) list"
  pr_started :: "(container \<times> string list \<times> strmap) list"  \<comment> \<open>the arguments and the environment of \<open>apptainer\<close>\<close>
  pr_over :: bool                \<comment> \<open>the program has ended, or was killed\<close>

definition set_proc :: "nat \<Rightarrow> main_proc \<Rightarrow> fsys \<Rightarrow> pause_run \<Rightarrow> pause_run" where
  "set_proc i st w s = s\<lparr>pr_fs := w, pr_procs := (pr_procs s)[i := (fst (pr_procs s ! i), st)]\<rparr>"

definition handleContainers :: "pod \<Rightarrow> fsys \<Rightarrow> pause_run" where
  "handleContainers pod w = \<lparr>pr_fs = w, pr_todo = ps_containers (p_spec pod), pr_procs = [], pr_started = [], pr_over = False\<rparr>"

definition at_proc :: "pause_run \<Rightarrow> nat \<Rightarrow> container \<Rightarrow> main_proc \<Rightarrow> bool" where
  "at_proc s i c st = (\<not> pr_over s \<and> i < length (pr_procs s) \<and> pr_procs s ! i = (c, st))"

text \<open>
  The wait group: the handlers of \<open>SIGCHLD\<close>, \<open>SIGINT\<close> and \<open>SIGTERM\<close> wait for it before they let the
  program end.
\<close>

definition all_done :: "pause_run \<Rightarrow> bool" where
  "all_done s = (pr_todo s = [] \<and> list_all (\<lambda>(c, st). case st of PFinished code \<Rightarrow> True | PGone \<Rightarrow> True | _ \<Rightarrow> False) (pr_procs s))"

text \<open>
  \<open>outside w w'\<close> is what the processes of the containers may do to the files. The exit code of a
  process is -1 (killed by a signal) or a byte.
\<close>

inductive pause_step :: "(fsys \<Rightarrow> fsys \<Rightarrow> bool) \<Rightarrow> pause_env \<Rightarrow> pod \<Rightarrow> pause_run \<Rightarrow> pause_run \<Rightarrow> bool" for outside pe pod where
  Spawn: "\<lbrakk>\<not> pr_over s; pr_todo s = c # cs; container_args True True pe pod c (pr_fs s) = Ret (Inr args, w)\<rbrakk> \<Longrightarrow>
    pause_step outside pe pod s (s\<lparr>pr_fs := w, pr_todo := cs, pr_procs := pr_procs s @ [(c, PNew args)]\<rparr>)"
| SpawnError: "\<lbrakk>\<not> pr_over s; pr_todo s = c # cs; container_args True True pe pod c (pr_fs s) = Ret (Inl err, w)\<rbrakk> \<Longrightarrow>
    pause_step outside pe pod s (s\<lparr>pr_fs := w, pr_over := True\<rparr>)"
| SpawnPanic: "\<lbrakk>\<not> pr_over s; pr_todo s = c # cs; container_args True True pe pod c (pr_fs s) = Panic m\<rbrakk> \<Longrightarrow>
    pause_step outside pe pod s (s\<lparr>pr_over := True\<rparr>)"
| Log: "\<lbrakk>at_proc s i c (PNew args); os_Create (LogsPath (pause_pod_dir pod) (c_name c)) (pr_fs s) = Inr w\<rbrakk> \<Longrightarrow>
    pause_step outside pe pod s (set_proc i (PLogged args) w s)"
| LogError: "\<lbrakk>at_proc s i c (PNew args); os_Create (LogsPath (pause_pod_dir pod) (c_name c)) (pr_fs s) = Inl err\<rbrakk> \<Longrightarrow>
    pause_step outside pe pod s (set_proc i PGone (pr_fs s) s)"
| Start: "at_proc s i c (PLogged args) \<Longrightarrow>
    pause_step outside pe pod s (set_proc i (PStarted pid) (pr_fs s) (s\<lparr>pr_started := pr_started s @ [(c, args, pe_environ pe)]\<rparr>))"
| StartError: "at_proc s i c (PLogged args) \<Longrightarrow> pause_step outside pe pod s (s\<lparr>pr_over := True\<rparr>)"  \<comment> \<open>\<open>cmd.Process\<close> is nil\<close>
| Announce: "\<lbrakk>at_proc s i c (PStarted pid);
    os_WriteFile (IDPath (pause_pod_dir pod) (c_name c)) (''pid://'' @ strconv_Itoa (int pid)) 420 (pr_fs s) = (err, w)\<rbrakk> \<Longrightarrow>
    pause_step outside pe pod s (set_proc i (if err = None then PAnnounced pid else PGone) w s)"
| Exit: "\<lbrakk>at_proc s i c (PAnnounced pid); code \<in> {-1..255}\<rbrakk> \<Longrightarrow>
    pause_step outside pe pod s (set_proc i (PExited code) (pr_fs s) s)"
| Record: "\<lbrakk>at_proc s i c (PExited code);
    os_WriteFile (ExitCodePath (pause_pod_dir pod) (c_name c)) (strconv_Itoa code) 420 (pr_fs s) = (err, w)\<rbrakk> \<Longrightarrow>
    pause_step outside pe pod s (set_proc i (if err = None then PFinished code else PGone) w s)"
| Outside: "\<lbrakk>\<not> pr_over s; outside (pr_fs s) w\<rbrakk> \<Longrightarrow> pause_step outside pe pod s (s\<lparr>pr_fs := w\<rparr>)"
| Finish: "\<lbrakk>\<not> pr_over s; all_done s\<rbrakk> \<Longrightarrow> pause_step outside pe pod s (s\<lparr>pr_over := True\<rparr>)"
| Kill: "\<not> pr_over s \<Longrightarrow> pause_step outside pe pod s (s\<lparr>pr_over := True\<rparr>)"

inductive_cases pause_stepE: "pause_step outside pe pod s s'"

subsection \<open>The program\<close>

text \<open>
  \<open>main\<close> up to the point where the main containers run: the program has ended with status 1, has
  ended with an error that it logged, or serves the main containers from this state on.
\<close>

datatype pause_result = ExitedWith1 | EndedWith go_error | Serving pause_env pod pause_run

definition pause_main :: "nat \<Rightarrow> pause_env \<Rightarrow> string \<Rightarrow> string \<Rightarrow> fsys \<Rightarrow> (pause_result \<times> fsys) outcome" where
  "pause_main attempts pe podID namespaceID w =
     (if podID = [] \<or> namespaceID = [] then Ret (ExitedWith1, w)
      else if pe_client pe \<noteq> None then Ret (ExitedWith1, w)
      else case acquire_pod (pe_getPod pe) 0 attempts of
        None \<Rightarrow> Ret (ExitedWith1, w)
      | Some n \<Rightarrow>
          (case pe_getPod pe n of
             Inl err \<Rightarrow> Panic (error_text err)
           | Inr pod \<Rightarrow>
               (case prepareContainers pe pod w of
                  (Some err, pe1, w1) \<Rightarrow> Ret (EndedWith err, w1)
                | (None, pe1, w1) \<Rightarrow>
                    bind_outcome (handleInitContainers True pe1 pod w1) (\<lambda>(err, w2). case err of
                      Some e \<Rightarrow> Ret (EndedWith e, w2)
                    | None \<Rightarrow> Ret (Serving pe1 pod (handleContainers pod w2), w2)))))"

subsection \<open>Files in a real directory\<close>

lemma os_WriteFile_in_dir:
  assumes "list_all name_ok ns" "name_ok c" "real_dir w ns" "\<not> is_link (fs_lookup w (ns @ [c]))"
    and "os_WriteFile (abs_path (ns @ [c])) data perm w = (e, w')"
  shows "(e \<noteq> None \<and> w' = w) \<or>
    (\<exists>m. w' = fs_put (ns @ [c]) (File (if e = None then data else []) m (clock w)) w \<and> \<not> is_dir (fs_lookup w (ns @ [c])))"
proof (cases "faults w SysOpen (abs_path (ns @ [c]))")
  case (Some err)
  with assms(5) show ?thesis by (auto simp: os_WriteFile_def syscall_def)
next
  case None
  note call = syscall_in_dir [OF assms(1-3) _ None]
  from assms(4,5) show ?thesis
    by (cases "fs_lookup w (ns @ [c])"; cases "the (fs_lookup w (ns @ [c]))")
      (auto simp: os_WriteFile_def call split: option.splits)
qed

lemma os_Create_in_dir:
  assumes "list_all name_ok ns" "name_ok c" "real_dir w ns" "\<not> is_link (fs_lookup w (ns @ [c]))"
    and "os_Create (abs_path (ns @ [c])) w = Inr w'"
  shows "\<exists>m. w' = fs_put (ns @ [c]) (File [] m (clock w)) w \<and> \<not> is_dir (fs_lookup w (ns @ [c]))"
proof -
  have "faults w SysOpen (abs_path (ns @ [c])) = None"
    using assms(5) by (auto simp: os_Create_def syscall_def split: option.splits)
  note call = syscall_in_dir [OF assms(1-3) _ this]
  from assms(4,5) show ?thesis
    by (cases "fs_lookup w (ns @ [c])"; cases "the (fs_lookup w (ns @ [c]))") (auto simp: os_Create_def call)
qed

subsection \<open>What the control files say\<close>

text \<open>
  The places of a pod at \<open>D\<close>: the directories for control files, logs and scratch files are real
  directories, and no log or scratch file is a link.
\<close>

definition ctl :: "fpath \<Rightarrow> fpath" where "ctl D = D @ [''controlfiles'']"
definition logs :: "fpath \<Rightarrow> fpath" where "logs D = D @ [''logs'']"

definition places :: "fpath \<Rightarrow> fsys \<Rightarrow> bool" where
  "places D w \<longleftrightarrow> real_dir w (ctl D) \<and> real_dir w (logs D) \<and> real_dir w [''scratch''] \<and>
     (\<forall>n. \<not> is_link (fs_lookup w (logs D @ [n]))) \<and> (\<forall>n. \<not> is_link (fs_lookup w [''scratch'', n]))"

text \<open>What the containers may do: anything that leaves the control files and these places alone.\<close>

definition quiet :: "fpath \<Rightarrow> fsys \<Rightarrow> fsys \<Rightarrow> bool" where
  "quiet D w w' \<longleftrightarrow> (places D w \<longrightarrow> places D w') \<and> (\<forall>q. prefix (ctl D) q \<longrightarrow> fs_lookup w' q = fs_lookup w q)"

lemma quiet_refl [simp]: "quiet D w w"
  by (simp add: quiet_def)

lemma quiet_trans: "quiet D w w1 \<Longrightarrow> quiet D w1 w2 \<Longrightarrow> quiet D w w2"
  by (simp add: quiet_def)

lemma quiet_put:
  assumes "\<not> is_dir (fs_lookup w p)" "\<not> prefix (ctl D) p"
  shows "quiet D w (fs_put p (File d m t) w)"
  using assms by (auto simp: quiet_def places_def intro!: dir_chain_put)

lemma places_put_file:
  assumes "places D w" "\<not> is_dir (fs_lookup w p)"
  shows "places D (fs_put p (File d m t) w)"
  using assms by (auto simp: places_def intro!: dir_chain_put)

definition exit_file :: "fpath \<Rightarrow> container \<Rightarrow> fpath" where
  "exit_file D c = ctl D @ [c_name c @ ''.exitCode'']"
definition id_file :: "fpath \<Rightarrow> container \<Rightarrow> fpath" where
  "id_file D c = ctl D @ [c_name c @ ''.jobid'']"

definition no_file :: "fsys \<Rightarrow> fpath \<Rightarrow> bool" where
  "no_file w p = (fs_lookup w p = None)"
definition file_with :: "fsys \<Rightarrow> fpath \<Rightarrow> string \<Rightarrow> bool" where
  "file_with w p d = (\<exists>m t. fs_lookup w p = Some (File d m t))"

fun proc_files :: "fpath \<Rightarrow> fsys \<Rightarrow> container \<Rightarrow> main_proc \<Rightarrow> bool" where
  "proc_files D w c (PAnnounced pid) = (no_file w (exit_file D c) \<and> file_with w (id_file D c) (''pid://'' @ strconv_Itoa (int pid)))"
| "proc_files D w c (PExited code) = (no_file w (exit_file D c) \<and> code \<in> {-1..255} \<and> (\<exists>pid. file_with w (id_file D c) (''pid://'' @ strconv_Itoa (int pid))))"
| "proc_files D w c (PFinished code) = (file_with w (exit_file D c) (strconv_Itoa code) \<and> code \<in> {-1..255} \<and> (\<exists>pid. file_with w (id_file D c) (''pid://'' @ strconv_Itoa (int pid))))"
| "proc_files D w c PGone = ((no_file w (exit_file D c) \<or> file_with w (exit_file D c) []) \<and> (no_file w (id_file D c) \<or> (\<exists>d. file_with w (id_file D c) d)))"
| "proc_files D w c _ = (no_file w (exit_file D c) \<and> no_file w (id_file D c))"

definition run_ok :: "fpath \<Rightarrow> pod \<Rightarrow> pause_run \<Rightarrow> bool" where
  "run_ok D pod s \<longleftrightarrow> places D (pr_fs s) \<and> map fst (pr_procs s) @ pr_todo s = ps_containers (p_spec pod) \<and>
     (\<forall>(c, st)\<in>set (pr_procs s). proc_files D (pr_fs s) c st) \<and>
     (\<forall>c\<in>set (pr_todo s). proc_files D (pr_fs s) c (PNew []))"

declare proc_files.simps [simp del]

lemma proc_files_new: "proc_files D w c (PNew args) = proc_files D w c (PNew [])"
  by (simp add: proc_files.simps)

lemma set_proc_started: "set_proc i st w (s\<lparr>pr_started := x\<rparr>) = (set_proc i st w s)\<lparr>pr_started := x\<rparr>"
  by (simp add: set_proc_def)

lemma run_ok_started [simp]: "run_ok D pod (s\<lparr>pr_started := x\<rparr>) = run_ok D pod s"
  by (simp add: run_ok_def)

lemma proc_files_cong:
  assumes "fs_lookup w' (exit_file D c) = fs_lookup w (exit_file D c)" "fs_lookup w' (id_file D c) = fs_lookup w (id_file D c)"
  shows "proc_files D w' c st = proc_files D w c st"
proof -
  have "no_file w' p = no_file w p \<and> file_with w' p = file_with w p" if "fs_lookup w' p = fs_lookup w p" for p
    using that by (auto simp: no_file_def file_with_def)
  with assms show ?thesis by (cases st) (simp_all add: proc_files.simps)
qed

lemma run_ok_quiet:
  assumes "run_ok D pod s" "quiet D (pr_fs s) w"
  shows "run_ok D pod (s\<lparr>pr_fs := w\<rparr>)"
proof -
  have "proc_files D w c st = proc_files D (pr_fs s) c st" for c st
    by (rule proc_files_cong) (use assms(2) in \<open>auto simp: quiet_def exit_file_def id_file_def\<close>)
  with assms show ?thesis by (simp add: run_ok_def quiet_def)
qed

text \<open>A write to a control file of one container does not show in those of another.\<close>

lemma control_names_apart:
  "c_name c \<noteq> c_name c' \<Longrightarrow> p \<in> {exit_file D c, id_file D c} \<Longrightarrow> p \<notin> {exit_file D c', id_file D c'}"
  "exit_file D c \<noteq> id_file D c'"
proof -
  have diff: "x @ ''.exitCode'' \<noteq> y @ ''.jobid''" for x y :: string
  proof
    assume "x @ ''.exitCode'' = y @ ''.jobid''"
    from arg_cong [OF this, of last] show False by simp
  qed
  then show "exit_file D c \<noteq> id_file D c'" by (simp add: exit_file_def id_file_def)
  show "c_name c \<noteq> c_name c' \<Longrightarrow> p \<in> {exit_file D c, id_file D c} \<Longrightarrow> p \<notin> {exit_file D c', id_file D c'}"
    using diff [of "c_name c" "c_name c'"] diff [of "c_name c'" "c_name c"] by (auto simp: exit_file_def id_file_def)
qed

lemma proc_files_put_other:
  assumes "c_name c \<noteq> c_name c'" "p \<in> {exit_file D c, id_file D c}"
  shows "proc_files D (fs_put p n w) c' st = proc_files D w c' st"
proof -
  have "fs_lookup (fs_put p n w) q = fs_lookup w q" if "q \<in> {exit_file D c', id_file D c'}" for q
    using control_names_apart(1) [OF assms] that by auto
  then show ?thesis by (intro proc_files_cong) auto
qed

subsection \<open>Every step keeps the control files true\<close>

definition pause_ok :: "fpath \<Rightarrow> pause_env \<Rightarrow> pod \<Rightarrow> bool" where
  "pause_ok D pe pod \<longleftrightarrow> pause_pod_dir pod = abs_path D \<and> list_all name_ok D \<and> key_ok (ObjectKeyFromObject pod) \<and>
     distinct (map c_name (ps_containers (p_spec pod))) \<and> list_all (\<lambda>c. name_ok (c_name c)) (ps_containers (p_spec pod)) \<and>
     (\<forall>f w. quiet D w (snd (pe_shell pe f w)))"

lemma instance_env_ok:
  assumes "key_ok (ObjectKeyFromObject pod)" "name_ok (c_name c)"
  shows "scratch_env_file pod c = abs_path [''scratch'', pause_instance pod c @ ''.env'']"
    and "name_ok (pause_instance pod c @ ''.env'')"
proof -
  show ok: "name_ok (pause_instance pod c @ ''.env'')"
    using assms by (auto simp: pause_instance_def key_ok_def ObjectKeyFromObject_def name_ok_def)
  have "''/scratch'' = abs_path [''scratch'']" by (simp add: abs_path_def)
  then show "scratch_env_file pod c = abs_path [''scratch'', pause_instance pod c @ ''.env'']"
    using ok by (simp add: scratch_env_file_def name_ok_def)
qed

lemma load_environment_quiet:
  assumes "pause_ok D pe pod" "name_ok (c_name c)" "places D w"
    and "load_environment pe pod c w = Ret (e, w')"
  shows "quiet D w w'"
proof -
  let ?f = "pause_instance pod c @ ''.env''"
  note scratch = instance_env_ok [OF _ assms(2), of pod]
  obtain r w1 where sh: "pe_shell pe (EnvFilePath (pause_pod_dir pod) (c_name c)) w = (r, w1)" by fastforce
  then have q1: "quiet D w w1" using assms(1) by (metis pause_ok_def snd_conv)
  then have pl: "places D w1" using assms(3) by (simp add: quiet_def)
  have away: "\<not> prefix (ctl D) [''scratch'', ?f]"
    by (cases D) (auto simp: ctl_def Cons_eq_append_conv prefix_def append_eq_Cons_conv)
  have "quiet D w w2" if "os_WriteFile (scratch_env_file pod c) out 420 w1 = (e2, w2)" for out e2 w2
  proof -
    have "(e2 \<noteq> None \<and> w2 = w1) \<or> (\<exists>m. w2 = fs_put ([''scratch''] @ [?f]) (File (if e2 = None then out else []) m (clock w1)) w1 \<and>
        \<not> is_dir (fs_lookup w1 ([''scratch''] @ [?f])))"
      by (rule os_WriteFile_in_dir) (use that scratch assms(1) pl in \<open>auto simp: pause_ok_def places_def name_ok_def\<close>)
    then have "quiet D w1 w2" using quiet_put [OF _ away] by auto
    with q1 show ?thesis by (rule quiet_trans)
  qed
  with q1 sh assms(4) show ?thesis
    by (auto simp: load_environment_def Let_def split: if_splits sum.splits prod.splits option.splits)
qed

lemma container_args_quiet:
  assumes "pause_ok D pe pod" "name_ok (c_name c)" "places D w"
    and "container_args b h pe pod c w = Ret (r, w')"
  shows "quiet D w w'"
proof -
  from assms(4) obtain e w1 where "load_environment pe pod c w = Ret (e, w1)" "w' = w1"
    by (auto simp: container_args_def simp del: bind_outcome_Ret_iff elim!: bind_RetE split: option.splits sum.splits)
  with load_environment_quiet [OF assms(1-3)] show ?thesis by simp
qed

lemma run_ok_set:
  assumes "run_ok D pod s" "pause_ok D pe pod" "at_proc s i c st" "places D w" "proc_files D w c st'"
    and "\<And>c' st. c_name c' \<noteq> c_name c \<Longrightarrow> proc_files D w c' st = proc_files D (pr_fs s) c' st"
  shows "run_ok D pod (set_proc i st' w s)"
proof -
  let ?ps = "pr_procs s"
  have i: "i < length ?ps" "?ps ! i = (c, st)" using assms(3) by (auto simp: at_proc_def)
  have dist: "distinct (map c_name (map fst ?ps @ pr_todo s))"
    using assms(1,2) by (simp add: run_ok_def pause_ok_def)
  have other: "c_name (fst (?ps ! j)) \<noteq> c_name c" if "j < length ?ps" "j \<noteq> i" for j
    using dist that i nth_eq_iff_index_eq [of "map c_name (map fst ?ps)" j i] by auto
  have "proc_files D w c' st''" if "(c', st'') \<in> set (?ps[i := (c, st')])" for c' st''
  proof -
    from that obtain j where j: "j < length ?ps" "?ps[i := (c, st')] ! j = (c', st'')" by (metis in_set_conv_nth length_list_update)
    show ?thesis
    proof (cases "j = i")
      case False
      with j have "?ps ! j = (c', st'')" by simp
      then have "proc_files D (pr_fs s) c' st''" using assms(1) nth_mem [OF j(1)] by (auto simp: run_ok_def)
      with other [OF j(1) False] assms(6) \<open>?ps ! j = (c', st'')\<close> show ?thesis by simp
    qed (use j i assms(5) in auto)
  qed
  moreover have "proc_files D w c' (PNew [])" if "c' \<in> set (pr_todo s)" for c'
  proof -
    have "c \<in> set (map fst ?ps)" using i by (metis fst_conv in_set_conv_nth length_map nth_map)
    with dist that have "c_name c' \<noteq> c_name c" by auto
    with assms(1,6) that show ?thesis by (auto simp: run_ok_def)
  qed
  moreover have "map fst (?ps[i := (c, st')]) = map fst ?ps"
    using i by (metis fst_conv list_update_id map_update)
  ultimately show ?thesis using assms(1,4) i by (auto simp: run_ok_def set_proc_def)
qed

text \<open>The same, for a state of the goroutine that changes no control file.\<close>

lemma run_ok_set_quiet:
  assumes "run_ok D pod s" "pause_ok D pe pod" "at_proc s i c st" "quiet D (pr_fs s) w"
    and "proc_files D (pr_fs s) c st \<Longrightarrow> proc_files D (pr_fs s) c st'"
  shows "run_ok D pod (set_proc i st' w s)"
proof -
  have eq: "proc_files D w c' st = proc_files D (pr_fs s) c' st" for c' st
    by (rule proc_files_cong) (use assms(4) in \<open>auto simp: quiet_def exit_file_def id_file_def\<close>)
  have "proc_files D (pr_fs s) c st"
    using assms(1,3) by (auto simp: run_ok_def at_proc_def dest!: nth_mem)
  then show ?thesis
    using assms by (intro run_ok_set [OF assms(1-3)]) (auto simp: eq quiet_def run_ok_def)
qed

lemma run_ok_containers:
  assumes "run_ok D pod s"
  shows "set (ps_containers (p_spec pod)) = fst ` set (pr_procs s) \<union> set (pr_todo s)"
proof -
  from assms have "map fst (pr_procs s) @ pr_todo s = ps_containers (p_spec pod)" by (simp add: run_ok_def)
  from arg_cong [OF this, of set] show ?thesis by simp
qed

lemmas control_file_names = name_ok_container [unfolded extension_defs]

lemma at_proc_container:
  assumes "run_ok D pod s" "pause_ok D pe pod" "at_proc s i c st"
  shows "name_ok (c_name c)" "proc_files D (pr_fs s) c st"
    "IDPath (pause_pod_dir pod) (c_name c) = abs_path (id_file D c)"
    "ExitCodePath (pause_pod_dir pod) (c_name c) = abs_path (exit_file D c)"
    "LogsPath (pause_pod_dir pod) (c_name c) = abs_path (logs D @ [c_name c @ ''.logs''])"
proof -
  have mem: "(c, st) \<in> set (pr_procs s)" using assms(3) by (metis at_proc_def nth_mem)
  then have "c \<in> set (ps_containers (p_spec pod))" using run_ok_containers [OF assms(1)] by force
  then show name: "name_ok (c_name c)" using assms(2) by (auto simp: pause_ok_def list_all_iff)
  show "proc_files D (pr_fs s) c st" using assms(1) mem by (auto simp: run_ok_def)
  note lay = container_layout_abs [OF _ name, of D]
  show "IDPath (pause_pod_dir pod) (c_name c) = abs_path (id_file D c)"
    "ExitCodePath (pause_pod_dir pod) (c_name c) = abs_path (exit_file D c)"
    "LogsPath (pause_pod_dir pod) (c_name c) = abs_path (logs D @ [c_name c @ ''.logs''])"
    using assms(2) lay by (simp_all add: pause_ok_def id_file_def exit_file_def ctl_def logs_def)
qed

text \<open>Writing one of the container's own control files.\<close>

lemma run_ok_write:
  assumes "run_ok D pod s" "pause_ok D pe pod" "at_proc s i c st"
    and "p \<in> {exit_file D c, id_file D c}" "no_file (pr_fs s) p"
    and "os_WriteFile (abs_path p) data 420 (pr_fs s) = (err, w)"
    and "\<And>m t. err = None \<Longrightarrow> proc_files D (fs_put p (File data m t) (pr_fs s)) c st'"
    and "err \<noteq> None \<Longrightarrow> proc_files D (pr_fs s) c st'"
    and "\<And>m t. err \<noteq> None \<Longrightarrow> proc_files D (fs_put p (File [] m t) (pr_fs s)) c st'"
  shows "run_ok D pod (set_proc i st' w s)"
proof -
  have pl: "places D (pr_fs s)" using assms(1) by (simp add: run_ok_def)
  have D: "list_all name_ok (ctl D)" using assms(2) by (simp add: pause_ok_def ctl_def name_ok_def)
  obtain f where f: "p = ctl D @ [f]" "name_ok f"
    using assms(4) at_proc_container(1) [OF assms(1-3)] by (auto simp: exit_file_def id_file_def control_file_names)
  have cases: "(err \<noteq> None \<and> w = pr_fs s) \<or>
      (\<exists>m. w = fs_put p (File (if err = None then data else []) m (clock (pr_fs s))) (pr_fs s) \<and> \<not> is_dir (fs_lookup (pr_fs s) p))"
    unfolding f(1) by (rule os_WriteFile_in_dir [OF D f(2)]) (use pl assms(5,6) f(1) in \<open>auto simp: places_def no_file_def\<close>)
  show ?thesis
  proof (rule run_ok_set [OF assms(1-3)])
    show "places D w" using cases pl places_put_file by auto
    show "proc_files D w c st'" using cases assms(7-9) by (cases err) auto
    show "proc_files D w c' st = proc_files D (pr_fs s) c' st" if "c_name c' \<noteq> c_name c" for c' st
      using cases proc_files_put_other [of c c' p D] that assms(4) by auto
  qed
qed

lemma file_with_put [simp]: "p \<noteq> [] \<Longrightarrow> file_with (fs_put p (File d m t) w) p d' \<longleftrightarrow> d' = d"
  by (auto simp: file_with_def)

lemma other_put [simp]:
  "q \<noteq> p \<Longrightarrow> file_with (fs_put p n w) q d \<longleftrightarrow> file_with w q d"
  "q \<noteq> p \<Longrightarrow> no_file (fs_put p n w) q \<longleftrightarrow> no_file w q"
  by (auto simp: file_with_def no_file_def)

lemma control_files_not_Nil [simp]: "exit_file D c \<noteq> []" "id_file D c \<noteq> []"
  by (simp_all add: exit_file_def id_file_def)

lemma spawn_quiet:
  assumes "pause_ok D pe pod" "run_ok D pod s" "pr_todo s = c # cs" "container_args True True pe pod c (pr_fs s) = Ret (r, w)"
  shows "quiet D (pr_fs s) w"
proof -
  have "name_ok (c_name c)" "places D (pr_fs s)"
    using assms(1-3) run_ok_containers [OF assms(2)] by (auto simp: run_ok_def pause_ok_def list_all_iff)
  then show ?thesis using container_args_quiet [OF assms(1)] assms(4) by blast
qed

lemma log_quiet:
  assumes "pause_ok D pe pod" "run_ok D pod s" "at_proc s i c st" "os_Create (LogsPath (pause_pod_dir pod) (c_name c)) (pr_fs s) = Inr w"
  shows "quiet D (pr_fs s) w"
proof -
  note at = at_proc_container [OF assms(2,1,3)]
  have "\<exists>m. w = fs_put (logs D @ [c_name c @ ''.logs'']) (File [] m (clock (pr_fs s))) (pr_fs s) \<and>
      \<not> is_dir (fs_lookup (pr_fs s) (logs D @ [c_name c @ ''.logs'']))"
    by (rule os_Create_in_dir) (use assms(1,2,4) at in \<open>auto simp: pause_ok_def run_ok_def places_def logs_def control_file_names name_ok_def\<close>)
  then show ?thesis by (auto simp: logs_def ctl_def prefix_def intro!: quiet_put)
qed

lemma pause_step_ok:
  assumes "pause_step (quiet D) pe pod s s'" "pause_ok D pe pod" "run_ok D pod s"
  shows "run_ok D pod s'"
  using assms(1)
proof cases
  case (Spawn c cs args w)
  then have "quiet D (pr_fs s) w" using spawn_quiet [OF assms(2,3)] by blast
  with run_ok_quiet [OF assms(3)] Spawn show ?thesis by (auto simp: run_ok_def proc_files_new [of _ _ _ args])
next
  case (SpawnError c cs err w)
  then have "quiet D (pr_fs s) w" using spawn_quiet [OF assms(2,3)] by blast
  with run_ok_quiet [OF assms(3)] SpawnError show ?thesis by (simp add: run_ok_def)
next
  case (Log i c args w)
  have "quiet D (pr_fs s) w" by (rule log_quiet [OF assms(2,3) Log(2,3)])
  then show ?thesis using Log(1) run_ok_set_quiet [OF assms(3,2) Log(2)] by (simp add: proc_files.simps)
next
  case (Announce i c pid err w)
  note at = at_proc_container [OF assms(3,2) Announce(2)]
  show ?thesis
    unfolding Announce(1)
    by (rule run_ok_write [OF assms(3,2) Announce(2), of "id_file D c"])
      (use at Announce(3) control_names_apart(2) [of D c c] in \<open>auto simp: proc_files.simps\<close>)
next
  case (Record i c code err w)
  note at = at_proc_container [OF assms(3,2) Record(2)]
  show ?thesis
    unfolding Record(1)
    by (rule run_ok_write [OF assms(3,2) Record(2), of "exit_file D c"])
      (use at Record(3) control_names_apart(2) [of D c c] in \<open>auto simp: proc_files.simps\<close>)
next
  case (Outside w)
  with run_ok_quiet [OF assms(3)] show ?thesis by simp
next
  case (LogError i c args err)
  with run_ok_set_quiet [OF assms(3,2) LogError(2)] show ?thesis by (simp add: proc_files.simps)
next
  case (Start i c args pid)
  with run_ok_set_quiet [OF assms(3,2) Start(2)] show ?thesis by (simp add: proc_files.simps set_proc_started)
next
  case (Exit i c pid code)
  show ?thesis unfolding Exit(1)
    by (rule run_ok_set_quiet [OF assms(3,2) Exit(2)]) (use Exit(3) in \<open>auto simp: proc_files.simps\<close>)
qed (use assms(3) in \<open>simp_all add: run_ok_def\<close>)

subsection \<open>The provider sees what is the case\<close>

lemma nat_digits_bound: "n < 1000 \<Longrightarrow> length (nat_digits n) \<le> 3"
  by (simp add: nat_digits.simps [of n] nat_digits.simps [of "n div 10"] nat_digits.simps [of "n div 100"] div_mult2_eq [symmetric])

lemma first_word_digits:
  assumes "s \<noteq> []" "list_all (\<lambda>c. \<not> is_word_space c) s" "length s < 65536"
  shows "first_word s = Some s"
proof -
  have t: "takeWhile (\<lambda>c. \<not> is_word_space c) s = s" using assms(2) by (simp add: takeWhile_eq_all_conv list_all_iff)
  have d: "dropWhile is_word_space s = s" using assms(1,2) by (cases s) auto
  show ?thesis unfolding first_word_def d t Let_def using assms by simp
qed

lemma first_word_code:
  assumes "code \<in> {-1..255}"
  shows "first_word (strconv_Itoa code) = Some (strconv_Itoa code)" "in_int64 code" "to_int32 code = code"
proof -
  have digits: "list_all (\<lambda>c. \<not> is_word_space c) (nat_digits n)" for n
    using nat_digits_all_digits [of n] by (auto simp: list_all_iff is_digit_def is_word_space_def is_space_def)
  have "length (nat_digits (nat \<bar>code\<bar>)) \<le> 3" using assms by (intro nat_digits_bound) auto
  then show "first_word (strconv_Itoa code) = Some (strconv_Itoa code)"
    using digits by (intro first_word_digits) (auto simp: strconv_Itoa_def is_word_space_def is_space_def)
  show "in_int64 code" using assms by (simp add: in_int64_def)
  show "to_int32 code = code" using assms by (simp add: to_int32_def)
qed

lemma read_control:
  assumes "list_all name_ok D" "name_ok f" "places D w" "\<And>s. faults w SysRead s = None"
  shows "no_file w (ctl D @ [f]) \<Longrightarrow> \<exists>e. os_ReadFile w (abs_path (ctl D @ [f])) = Inl e"
    and "file_with w (ctl D @ [f]) d \<Longrightarrow> os_ReadFile w (abs_path (ctl D @ [f])) = Inr d"
proof -
  have D: "list_all name_ok (ctl D)" "real_dir w (ctl D)" using assms(1,3) by (simp_all add: ctl_def places_def name_ok_def)
  note rd = os_ReadFile_in_dir [OF D(1) assms(2) D(2) assms(4)]
  show "no_file w (ctl D @ [f]) \<Longrightarrow> \<exists>e. os_ReadFile w (abs_path (ctl D @ [f])) = Inl e" using rd(2) by (auto simp: no_file_def)
  show "file_with w (ctl D @ [f]) d \<Longrightarrow> os_ReadFile w (abs_path (ctl D @ [f])) = Inr d" using rd(1) by (auto simp: file_with_def)
qed

fun main_view :: "main_proc \<Rightarrow> container_view set" where
  "main_view (PAnnounced pid) = {CRunning}"
| "main_view (PExited code) = {CRunning}"
| "main_view (PFinished code) = {CDone code}"
| "main_view PGone = {CWaiting, CRunning}"
| "main_view _ = {CWaiting}"

lemma view_main:
  assumes "pause_ok D pe pod" "run_ok D pod s" "at_proc (s\<lparr>pr_over := False\<rparr>) i c st" "\<And>p. faults (pr_fs s) SysRead p = None"
  shows "\<exists>v\<in>main_view st. view_container (pr_fs s) (pause_pod_dir pod) (c_name c) = Ret v"
proof -
  have ok: "run_ok D pod (s\<lparr>pr_over := False\<rparr>)" using assms(2) by (simp add: run_ok_def)
  note at = at_proc_container [OF ok assms(1,3)]
  have D: "list_all name_ok D" and pl: "places D (pr_fs s)" using assms(1,2) by (simp_all add: pause_ok_def run_ok_def)
  have ex: "name_ok (c_name c @ ''.exitCode'')" "name_ok (c_name c @ ''.jobid'')" using at(1) by (simp_all add: control_file_names)
  note exit = read_control [OF D ex(1) pl assms(4), folded exit_file_def] and id = read_control [OF D ex(2) pl assms(4), folded id_file_def]
  have none: "readIntFromFile (pr_fs s) (abs_path (exit_file D c)) = Ret (-1, False)"
    if "no_file (pr_fs s) (exit_file D c) \<or> file_with (pr_fs s) (exit_file D c) []"
    using that exit by (auto simp: readIntFromFile_def first_word_def)
  have id_none: "\<not> snd (readStringFromFile (pr_fs s) (abs_path (id_file D c)))" if "no_file (pr_fs s) (id_file D c)"
    using id(1) [OF that] by (auto simp: readStringFromFile_def)
  have id_some: "snd (readStringFromFile (pr_fs s) (abs_path (id_file D c)))" if "file_with (pr_fs s) (id_file D c) d" for d
    using id(2) [OF that] by (simp add: readStringFromFile_def)
  show ?thesis
  proof (cases st)
    case (PFinished code)
    then have "file_with (pr_fs s) (exit_file D c) (strconv_Itoa code)" "code \<in> {-1..255}" using at(2) by (auto simp: proc_files.simps)
    with PFinished exit(2) first_word_code [of code] show ?thesis
      by (auto simp: view_container_def at readIntFromFile_def)
  qed (use at(2) none id_none id_some in \<open>auto simp: view_container_def at(3,4) proc_files.simps\<close>)
qed

interpretation pause_sys: step_invariant
  "\<lambda>s. \<exists>w. s = handleContainers pod w \<and> places D w \<and>
     (\<forall>c\<in>set (ps_containers (p_spec pod)). fs_lookup w (exit_file D c) = None \<and> fs_lookup w (id_file D c) = None)"
  "pause_step (quiet D) pe pod" "\<lambda>s. pause_ok D pe pod \<longrightarrow> run_ok D pod s" for D pe pod
proof
  show "pause_ok D pe pod \<longrightarrow> run_ok D pod s"
    if "\<exists>w. s = handleContainers pod w \<and> places D w \<and>
      (\<forall>c\<in>set (ps_containers (p_spec pod)). fs_lookup w (exit_file D c) = None \<and> fs_lookup w (id_file D c) = None)" for s
    using that by (auto simp: run_ok_def handleContainers_def proc_files.simps no_file_def)
qed (auto intro: pause_step_ok)

lemma pause_run_ok:
  assumes "(pause_step (quiet D) pe pod)\<^sup>*\<^sup>* (handleContainers pod w) s" "pause_ok D pe pod" "places D w"
    and "\<And>c. c \<in> set (ps_containers (p_spec pod)) \<Longrightarrow> fs_lookup w (exit_file D c) = None \<and> fs_lookup w (id_file D c) = None"
  shows "run_ok D pod s"
  using pause_sys.inv_run [OF _ assms(1)] assms(2-4) by blast

text \<open>
  C12. In every moment of every run of the pause program, however the goroutines of the main containers
  and the containers themselves interleave and whatever writes fail, the control files say of each
  started container what is the case as the provider reads them: nothing before its process runs,
  running from the announcement of its process until its exit code is recorded, and then exactly its
  exit code; a goroutine that gave up never makes its container look terminated.
\<close>

theorem pause_views:
  assumes "(pause_step (quiet D) pe pod)\<^sup>*\<^sup>* (handleContainers pod w) s" "pause_ok D pe pod" "places D w"
    and "\<And>c. c \<in> set (ps_containers (p_spec pod)) \<Longrightarrow> fs_lookup w (exit_file D c) = None \<and> fs_lookup w (id_file D c) = None"
    and "\<And>p. faults (pr_fs s) SysRead p = None"
    and "i < length (pr_procs s)" "pr_procs s ! i = (c, st)"
  shows "\<exists>v\<in>main_view st. view_container (pr_fs s) (pause_pod_dir pod) (c_name c) = Ret v"
  by (rule view_main [OF assms(2) pause_run_ok [OF assms(1-4)]]) (use assms(5-7) in \<open>auto simp: at_proc_def\<close>)

subsection \<open>From the containers to the phase of the pod\<close>

lemma finished_files_ok:
  assumes "pause_ok D pe pod" "run_ok D pod s" "at_proc (s\<lparr>pr_over := False\<rparr>) i c (PFinished code)" "\<And>p. faults (pr_fs s) SysRead p = None"
  shows "control_files_ok (pr_fs s) (pause_pod_dir pod) (c_name c)"
proof -
  have ok: "run_ok D pod (s\<lparr>pr_over := False\<rparr>)" using assms(2) by (simp add: run_ok_def)
  note at = at_proc_container [OF ok assms(1,3)]
  have D: "list_all name_ok D" and pl: "places D (pr_fs s)" using assms(1,2) by (simp_all add: pause_ok_def run_ok_def)
  have names: "name_ok (c_name c @ ''.exitCode'')" "name_ok (c_name c @ ''.jobid'')" using at(1) by (simp_all add: control_file_names)
  from at(2) obtain pid where f: "file_with (pr_fs s) (exit_file D c) (strconv_Itoa code)" "code \<in> {-1..255}"
    "file_with (pr_fs s) (id_file D c) (''pid://'' @ strconv_Itoa (int pid))" by (auto simp: proc_files.simps)
  note exit = read_control(2) [OF D names(1) pl assms(4), folded exit_file_def, OF f(1)]
    and id = read_control(2) [OF D names(2) pl assms(4), folded id_file_def, OF f(3)]
  have "CHR 0x0A \<notin> set (strconv_Itoa (int pid))"
    using nat_digits_all_digits [of pid] by (auto simp: strconv_Itoa_def list_all_iff is_digit_def)
  then have "CHR 0x0A \<notin> set (''pid://'' @ strconv_Itoa (int pid))" by simp
  then have "\<not> suffix [CHR 0x0A] (''pid://'' @ strconv_Itoa (int pid))" by (metis list.set_intros(1) set_mono_suffix subsetD)
  then have "readStringFromFile (pr_fs s) (abs_path (id_file D c)) = (''pid://'' @ strconv_Itoa (int pid), True)"
    using id by (simp add: readStringFromFile_def strings_TrimSuffix_def)
  then show ?thesis
    using exit first_word_code [OF f(2)] by (simp add: control_files_ok_def at readIntFromFile_def strings_HasPrefix_def JobIDTypeProcess_def)
qed

definition final_code :: "main_proc \<Rightarrow> int" where
  "final_code st = (case st of PFinished code \<Rightarrow> code | _ \<Rightarrow> 0)"

lemma pause_run_final:
  assumes "(pause_step (quiet D) pe pod)\<^sup>*\<^sup>* (handleContainers pod w) s" "pause_ok D pe pod" "places D w"
    and "\<And>c. c \<in> set (ps_containers (p_spec pod)) \<Longrightarrow> fs_lookup w (exit_file D c) = None \<and> fs_lookup w (id_file D c) = None"
    and "\<And>p. faults (pr_fs s) SysRead p = None"
    and "pr_todo s = []" "\<And>c st. (c, st) \<in> set (pr_procs s) \<Longrightarrow> \<exists>code. st = PFinished code"
    and "pod_ok p" "p_spec p = p_spec pod" "dir_of hpk p = pause_pod_dir pod" "ps_initContainers (p_spec pod) = []"
    and "s_phase (p_status p) \<in> {Pending, Running, UnknownPhase}"
  shows "\<exists>p'. UpdateStatusFromRuntime (pr_fs s) hpk p = Ret p' \<and>
    s_phase (p_status p') = (if \<forall>(c, st)\<in>set (pr_procs s). st = PFinished 0 then Succeeded else Failed)"
proof -
  note ok = pause_run_ok [OF assms(1-4)]
  let ?css = "s_containerStatuses (p_status p)" and ?vm = "map (\<lambda>(c, st). CDone (final_code st)) (pr_procs s)"
  have inits: "s_initContainerStatuses (p_status p) = []" using assms(8,9,11) by (simp add: pod_ok_def)
  have "map cs_name ?css = map c_name (map fst (pr_procs s))"
    using ok assms(6,8,9) by (simp add: run_ok_def pod_ok_def)
  then have len: "length ?css = length (pr_procs s)" and names: "\<And>i. i < length ?css \<Longrightarrow> cs_name (?css ! i) = c_name (fst (pr_procs s ! i))"
    by (metis length_map) (metis (no_types, lifting) \<open>map cs_name ?css = map c_name (map fst (pr_procs s))\<close> length_map nth_map)
  have at: "\<exists>c code. pr_procs s ! i = (c, PFinished code) \<and> at_proc (s\<lparr>pr_over := False\<rparr>) i c (PFinished code)" if "i < length ?css" for i
    using assms(7) [of "fst (pr_procs s ! i)" "snd (pr_procs s ! i)"] that len nth_mem [of i "pr_procs s"]
    by (cases "pr_procs s ! i") (auto simp: at_proc_def)
  have "views (pr_fs s) (dir_of hpk p) ?css = Ret ?vm"
    unfolding views_def map_outcome_Ret list_all2_conv_all_nth
  proof (intro conjI allI impI)
    fix i assume i: "i < length ?css"
    obtain c code where c: "pr_procs s ! i = (c, PFinished code)" "at_proc (s\<lparr>pr_over := False\<rparr>) i c (PFinished code)" using at [OF i] by blast
    from view_main [OF assms(2) ok c(2) assms(5)] show "view_container (pr_fs s) (dir_of hpk p) (cs_name (?css ! i)) = Ret (?vm ! i)"
      using names [OF i] c(1) i len assms(10) by (simp add: final_code_def)
  qed (simp add: len)
  moreover have "control_files_ok (pr_fs s) (dir_of hpk p) (cs_name cs)" if "cs \<in> set ?css" for cs
  proof -
    from that obtain i where i: "i < length ?css" "cs = ?css ! i" by (metis in_set_conv_nth)
    obtain c code where c: "pr_procs s ! i = (c, PFinished code)" "at_proc (s\<lparr>pr_over := False\<rparr>) i c (PFinished code)" using at [OF i(1)] by blast
    with finished_files_ok [OF assms(2) ok c(2) assms(5)] names [OF i(1)] i(2) assms(10) show ?thesis by simp
  qed
  ultimately obtain p' where "UpdateStatusFromRuntime (pr_fs s) hpk p = Ret p'"
    "s_phase (p_status p') = next_phase (s_phase (p_status p)) [] ?vm"
    using UpdateStatus_next_phase [OF assms(8,12), of "pr_fs s" hpk] inits by (auto simp: views_def)
  moreover have "phase_of_views ?vm = (if \<forall>(c, st)\<in>set (pr_procs s). st = PFinished 0 then Succeeded else Failed)"
    using assms(7) by (fastforce simp: phase_of_views_def list_ex_iff list_all_iff failed_view_def final_code_def)
  ultimately show ?thesis by (auto simp: next_phase_def init_views_verdict_def)
qed

text \<open>
  C13. From the job to the cluster: when the main containers of a pod have all ended and their exit codes
  are recorded, the next update of the provider takes the pod to \<open>Succeeded\<close> if every container
  ended with 0 and to \<open>Failed\<close> otherwise.
\<close>

theorem pause_run_phase:
  assumes "(pause_step (quiet D) pe pod)\<^sup>*\<^sup>* (handleContainers pod w) s" "pause_ok D pe pod" "places D w"
    and "\<And>c. c \<in> set (ps_containers (p_spec pod)) \<Longrightarrow> fs_lookup w (exit_file D c) = None \<and> fs_lookup w (id_file D c) = None"
    and "\<And>p. faults (pr_fs s) SysRead p = None"
    and "pr_todo s = []" "\<And>c st. (c, st) \<in> set (pr_procs s) \<Longrightarrow> \<exists>code. st = PFinished code"
    and "pod_ok p" "p_spec p = p_spec pod" "dir_of hpk p = pause_pod_dir pod" "ps_initContainers (p_spec pod) = []"
    and "s_phase (p_status p) \<in> {Pending, Running, UnknownPhase}"
  shows "\<exists>p'. UpdateStatusFromRuntime (pr_fs s) hpk p = Ret p' \<and>
    s_phase (p_status p') = (if \<forall>(c, st)\<in>set (pr_procs s). st = PFinished 0 then Succeeded else Failed)"
  by (rule pause_run_final [OF assms])

subsection \<open>What is started\<close>

lemma pause_binds_all:
  "pause_binds d ms = Ret (Inr bs) \<longleftrightarrow> list_all2 (\<lambda>m b. pause_bind d m = Ret (Inr b)) ms bs"
proof (induction ms arbitrary: bs)
  case (Cons m ms)
  have sum: "map_sum id g x = Inr y \<longleftrightarrow> (\<exists>z. x = Inr z \<and> y = g z)" for g :: "string list \<Rightarrow> string list" and x :: "go_error + string list" and y
    by (cases x) auto
  show ?case
  proof (cases "pause_bind d m")
    case (Ret r)
    then show ?thesis using Cons by (cases r) (auto simp: sum list_all2_Cons1)
  qed (auto simp: list_all2_Cons1)
qed auto

text \<open>
  The command line that a container of the job must get, written out. A mount is bound from the directory
  of its volume, or from the subpath in it, read-only or not. The user and group are those asked for by
  the container, else by the pod, else nobody or root; the option for the user gives the user's number
  also for the group.
\<close>

definition mount_bind :: "pod \<Rightarrow> volume_mount \<Rightarrow> string \<Rightarrow> bool" where
  "mount_bind pod m b \<longleftrightarrow> vm_subPathExpr m = [] \<and> \<not> filepath_IsAbs (vm_subPath m) \<and>
     (\<exists>vol. vol = filepath_Join [filepath_Join [pause_pod_dir pod, ''volumes''], vm_name m] \<and>
        b = (if vm_subPath m = [] then vol else filepath_Join [vol, vm_subPath m]) @ '':'' @ vm_mountPath m @
          (if vm_readOnly m then '':ro'' else '':rw''))"

definition run_as :: "(security_context \<Rightarrow> int option) \<Rightarrow> (pod_security_context \<Rightarrow> int option) \<Rightarrow> pod \<Rightarrow> container \<Rightarrow> int" where
  "run_as cf pf pod c =
     (case asked cf pf pod c of
        Some n \<Rightarrow> n
      | None \<Rightarrow> if asked sc_runAsNonRoot psc_runAsNonRoot pod c = Some True then 65534 else 0)"

definition security_options :: "pod \<Rightarrow> container \<Rightarrow> string list" where
  "security_options pod c =
     (let uid = run_as sc_runAsUser psc_runAsUser pod c; gid = run_as sc_runAsGroup psc_runAsGroup pod c
      in (if uid = 0 then [] else [''--security'', ''uid:'' @ strconv_Itoa uid @ '',gid:'' @ strconv_Itoa uid, ''--userns'']) @
         (if gid = 0 then [] else [''--security'', ''gid:'' @ strconv_Itoa gid, ''--userns'']))"

definition command_ok :: "pause_env \<Rightarrow> pod \<Rightarrow> container \<Rightarrow> fsys \<Rightarrow> string list \<Rightarrow> bool" where
  "command_ok pe pod c w args \<longleftrightarrow>
     (\<exists>binds hasEnv img cmd cargs.
        list_all2 (mount_bind pod) (c_volumeMounts c) binds \<and>
        fileExists w (EnvFilePath (pause_pod_dir pod) (c_name c)) = Ret hasEnv \<and>
        image_file (c_image c) img \<and> expanded (c_env c) (c_command c) cmd \<and> expanded (c_env c) (c_args c) cargs \<and>
        args = [if map_get (pe_environ pe) ''DEBUG_MODE'' = ''true'' then ''--debug'' else ''--quiet'',
            if c_command c = None then ''run'' else ''exec'', ''--cleanenv'', ''--writable-tmpfs'', ''--no-mount'', ''home'', ''--unsquash'',
            ''--bind'', strings_Join (''/scratch/etc/resolv.conf:/etc/resolv.conf'' # ''/scratch/etc/hosts:/etc/hosts'' # binds) '',''] @
          security_options pod c @
          (if hasEnv then [''--env-file'', filepath_Join [''/scratch'',
             om_namespace (p_meta pod) @ ''_'' @ om_name (p_meta pod) @ ''_'' @ c_name c @ ''.env'']] else []) @
          [filepath_Join [filepath_Join [map_get (om_annotations (p_meta pod)) ''workingDirectory'', ''.hpk''], ''.images''] @ img] @
          cmd @ cargs)"

lemma pause_bind_mount: "pause_bind (pause_pod_dir pod) m = Ret (Inr b) \<Longrightarrow> mount_bind pod m b"
  by (auto simp: pause_bind_def mount_bind_def VolumeDir_def Let_def filepath_IsAbs_def split: if_splits)

lemma effective_ids:
  "DetermineEffectiveRunAsUser (DetermineEffectiveSecurityContext pod c) =
     (run_as sc_runAsUser psc_runAsUser pod c, run_as sc_runAsGroup psc_runAsGroup pod c)"
  by (simp add: DetermineEffectiveRunAsUser_def run_as_def effective_fields NobodyUID_def NobodyGID_def RootUID_def RootGID_def Let_def
      split: option.split)

lemma apptainer_options_exact:
  "apptainer_options main_container isDebug True pod c binds hasEnv =
     [if isDebug then ''--debug'' else ''--quiet'', if c_command c = None then ''run'' else ''exec'',
      ''--cleanenv'', ''--writable-tmpfs'', ''--no-mount'', ''home'', ''--unsquash'',
      ''--bind'', strings_Join (''/scratch/etc/resolv.conf:/etc/resolv.conf'' # ''/scratch/etc/hosts:/etc/hosts'' # binds) '',''] @
     security_options pod c @ (if hasEnv then [''--env-file'', scratch_env_file pod c] else [])"
proof -
  have "strings_Join (''/scratch/etc/resolv.conf:/etc/resolv.conf'' # ''/scratch/etc/hosts:/etc/hosts'' # binds) '','' =
      etc_binds @ (if binds = [] then [] else '','' @ strings_Join binds '','')"
    by (simp add: strings_Join_Cons etc_binds_def)
  then show ?thesis
    by (simp add: apptainer_options_def effective_ids Let_def security_options_def)
qed

lemma container_args_command:
  assumes "container_args main_container True pe pod c w = Ret (Inr args, w')"
  shows "command_ok pe pod c w' args"
proof -
  obtain binds hasEnv img where binds: "pause_binds (pause_pod_dir pod) (c_volumeMounts c) = Ret (Inr binds)"
    and hasEnv: "fileExists w' (EnvFilePath (pause_pod_dir pod) (c_name c)) = Ret hasEnv"
    and img: "ParseImageName (c_image c) = Ret img"
    and args: "args = apptainer_options main_container (map_get (pe_environ pe) ''DEBUG_MODE'' = ''true'') True pod c binds hasEnv @
       [ImageDir (HPK (map_get (om_annotations (p_meta pod)) ''workingDirectory'')) @ img] @
       ExpandContainerCommandOnlyStatic (c_command c) (c_env c) @ ExpandContainerCommandOnlyStatic (c_args c) (c_env c)"
    using assms by (auto simp: container_args_def simp del: bind_outcome_Ret_iff elim!: bind_RetE split: option.splits sum.splits)
  have "list_all2 (mount_bind pod) (c_volumeMounts c) binds"
    using binds unfolding pause_binds_all by (rule list_all2_mono) (erule pause_bind_mount)
  moreover have "scratch_env_file pod c =
      filepath_Join [''/scratch'', om_namespace (p_meta pod) @ ''_'' @ om_name (p_meta pod) @ ''_'' @ c_name c @ ''.env'']"
    by (simp add: scratch_env_file_def pause_instance_def)
  ultimately show ?thesis
    unfolding command_ok_def
    by (intro exI [of _ binds] exI [of _ hasEnv] exI [of _ img] exI [of _ "ExpandContainerCommandOnlyStatic (c_command c) (c_env c)"]
        exI [of _ "ExpandContainerCommandOnlyStatic (c_args c) (c_env c)"] conjI)
      (simp_all add: hasEnv ParseImageName_image [OF img] ExpandContainerCommand_expanded args apptainer_options_exact ImageDir_def HPK_def)
qed

text \<open>Not started yet, with the command that is ready.\<close>

fun waiting_command :: "main_proc \<Rightarrow> string list option" where
  "waiting_command (PNew args) = Some args"
| "waiting_command (PLogged args) = Some args"
| "waiting_command _ = None"

definition started_ok :: "(container \<Rightarrow> string list \<Rightarrow> bool) \<Rightarrow> pause_env \<Rightarrow> pod \<Rightarrow> pause_run \<Rightarrow> bool" where
  "started_ok good pe pod s \<longleftrightarrow> map fst (pr_procs s) @ pr_todo s = ps_containers (p_spec pod) \<and>
     (\<forall>(c, st)\<in>set (pr_procs s). \<forall>args. waiting_command st = Some args \<longrightarrow> good c args) \<and>
     distinct (map (c_name \<circ> fst) (pr_started s)) \<and>
     (\<forall>(c, args, env)\<in>set (pr_started s). env = pe_environ pe \<and> good c args \<and>
        (\<exists>st. (c, st) \<in> set (pr_procs s) \<and> waiting_command st = None))"

lemma set_proc_procs [simp]:
  "pr_procs (set_proc i st w s) = (pr_procs s)[i := (fst (pr_procs s ! i), st)]" "pr_todo (set_proc i st w s) = pr_todo s"
  "pr_started (set_proc i st w s) = pr_started s" "pr_fs (set_proc i st w s) = w" "pr_over (set_proc i st w s) = pr_over s"
  by (simp_all add: set_proc_def)

text \<open>A step of one goroutine that does not start its command.\<close>

lemma started_ok_set:
  assumes "started_ok good pe pod s" "at_proc s i c st" "\<And>args. waiting_command st' = Some args \<Longrightarrow> waiting_command st = Some args"
  shows "started_ok good pe pod (set_proc i st' w s)"
proof -
  have i: "i < length (pr_procs s)" "pr_procs s ! i = (c, st)" using assms(2) by (auto simp: at_proc_def)
  then have mem: "(c, st) \<in> set (pr_procs s)" by (metis nth_mem)
  have upd: "set ((pr_procs s)[i := (c, st')]) \<subseteq> insert (c, st') (set (pr_procs s))" by (rule set_update_subset_insert)
  have keep: "\<exists>st''. (c', st'') \<in> set ((pr_procs s)[i := (c, st')]) \<and> waiting_command st'' = None"
    if "(c', st0) \<in> set (pr_procs s)" "waiting_command st0 = None" for c' st0
  proof -
    from that(1) obtain j where j: "j < length (pr_procs s)" "pr_procs s ! j = (c', st0)" by (metis in_set_conv_nth)
    show ?thesis
    proof (cases "j = i")
      case True
      with i j that(2) have "waiting_command st' = None" using assms(3) by (cases "waiting_command st'") auto
      with True i j show ?thesis by (metis Pair_inject set_update_memI)
    next
      case False
      with j have "(pr_procs s)[i := (c, st')] ! j = (c', st0)" by simp
      with j(1) that(2) show ?thesis by (metis length_list_update nth_mem)
    qed
  qed
  have "map fst ((pr_procs s)[i := (c, st')]) = map fst (pr_procs s)" using i by (metis fst_conv list_update_id map_update)
  moreover have "\<forall>(c', st)\<in>set ((pr_procs s)[i := (c, st')]). \<forall>args. waiting_command st = Some args \<longrightarrow> good c' args"
  proof clarify
    fix c' st0 args assume st0: "(c', st0) \<in> set ((pr_procs s)[i := (c, st')])" "waiting_command st0 = Some args"
    have ready: "good c'' args''" if "(c'', st'') \<in> set (pr_procs s)" "waiting_command st'' = Some args''" for c'' st'' args''
      using assms(1) that unfolding started_ok_def by blast
    from st0(1) upd consider "c' = c" "st0 = st'" | "(c', st0) \<in> set (pr_procs s)" by blast
    then show "good c' args"
      by cases (use st0(2) assms(3) ready mem in blast)+
  qed
  moreover have "\<forall>(c', args, env)\<in>set (pr_started s). env = pe_environ pe \<and> good c' args \<and>
      (\<exists>st''. (c', st'') \<in> set ((pr_procs s)[i := (c, st')]) \<and> waiting_command st'' = None)"
  proof clarify
    fix c' args env assume "(c', args, env) \<in> set (pr_started s)"
    with assms(1) obtain st0 where "env = pe_environ pe" "good c' args" "(c', st0) \<in> set (pr_procs s)" "waiting_command st0 = None"
      by (fastforce simp: started_ok_def)
    with keep show "env = pe_environ pe \<and> good c' args \<and>
      (\<exists>st''. (c', st'') \<in> set ((pr_procs s)[i := (c, st')]) \<and> waiting_command st'' = None)" by blast
  qed
  ultimately show ?thesis using assms(1) by (simp add: started_ok_def i(2))
qed

lemma started_ok_start:
  assumes "started_ok good pe pod s" "at_proc s i c (PLogged args)" "distinct (map c_name (ps_containers (p_spec pod)))"
  shows "started_ok good pe pod (set_proc i (PStarted pid) w (s\<lparr>pr_started := pr_started s @ [(c, args, pe_environ pe)]\<rparr>))"
proof -
  have i: "i < length (pr_procs s)" "pr_procs s ! i = (c, PLogged args)" using assms(2) by (auto simp: at_proc_def)
  then have mem: "(c, PLogged args) \<in> set (pr_procs s)" by (metis nth_mem)
  have dist: "distinct (map (c_name \<circ> fst) (pr_procs s))"
  proof -
    have "distinct (map c_name (map fst (pr_procs s) @ pr_todo s))" using assms(1,3) by (simp add: started_ok_def)
    then show ?thesis by simp
  qed
  have fresh: "c_name c' \<noteq> c_name c" if "(c', args', env) \<in> set (pr_started s)" for c' args' env
  proof
    assume eq: "c_name c' = c_name c"
    from assms(1) that obtain st where st: "(c', st) \<in> set (pr_procs s)" "waiting_command st = None" by (auto simp: started_ok_def)
    then obtain j where j: "j < length (pr_procs s)" "pr_procs s ! j = (c', st)" by (metis in_set_conv_nth)
    have "j = i" using dist i j eq nth_eq_iff_index_eq [of "map (c_name \<circ> fst) (pr_procs s)" j i] by simp
    with i j st(2) show False by auto
  qed
  note set = started_ok_set [OF assms(1,2), of "PStarted pid" w, simplified]
  have "(c, PStarted pid) \<in> set ((pr_procs s)[i := (c, PStarted pid)])" using i(1) by (rule set_update_memI)
  moreover have "good c args" using assms(1) mem by (auto simp: started_ok_def)
  moreover have "c_name c \<notin> set (map (c_name \<circ> fst) (pr_started s))" using fresh by force
  ultimately show ?thesis using set unfolding started_ok_def set_proc_started by (auto simp: i(2))
qed

lemma started_ok_mono:
  "started_ok good pe pod s \<Longrightarrow> (\<And>c args. good c args \<Longrightarrow> good' c args) \<Longrightarrow> started_ok good' pe pod s"
  unfolding started_ok_def by (simp add: split_def)

text \<open>The command was prepared in an earlier state of the run, in which its goroutine begins.\<close>

definition spawned :: "(pause_run \<Rightarrow> pause_run \<Rightarrow> bool) \<Rightarrow> pause_env \<Rightarrow> pod \<Rightarrow> pause_run \<Rightarrow> pause_run \<Rightarrow> container \<Rightarrow> string list \<Rightarrow> bool" where
  "spawned step pe pod start s c args \<longleftrightarrow>
     (\<exists>s0. step\<^sup>*\<^sup>* start s0 \<and> step\<^sup>*\<^sup>* s0 s \<and> (c, PNew args) \<in> set (pr_procs s0) \<and> command_ok pe pod c (pr_fs s0) args)"

lemma spawned_step: "spawned step pe pod start s c args \<Longrightarrow> step s s' \<Longrightarrow> spawned step pe pod start s' c args"
  unfolding spawned_def by (meson rtranclp.rtrancl_into_rtrancl)

lemma pause_step_started:
  assumes "pause_step outside pe pod s s'" "started_ok (spawned (pause_step outside pe pod) pe pod start s) pe pod s"
    and "distinct (map c_name (ps_containers (p_spec pod)))" and "(pause_step outside pe pod)\<^sup>*\<^sup>* start s"
  shows "started_ok (spawned (pause_step outside pe pod) pe pod start s') pe pod s'"
proof -
  define good where "good = spawned (pause_step outside pe pod) pe pod start s'"
  have ok: "started_ok good pe pod s" unfolding good_def by (rule started_ok_mono [OF assms(2)]) (erule spawned_step, rule assms(1))
  have reach: "(pause_step outside pe pod)\<^sup>*\<^sup>* start s'" using assms(4,1) by (rule rtranclp.rtrancl_into_rtrancl)
  have "started_ok good pe pod s'" using assms(1)
  proof cases
    case (Spawn c cs args w)
    have "good c args"
      unfolding good_def spawned_def using reach container_args_command [OF Spawn(4)] Spawn(1) by (intro exI [of _ s']) simp
    then show ?thesis unfolding Spawn(1) using Spawn(3) ok by (auto simp: started_ok_def)
  next
    case (Start i c args pid)
    with started_ok_start [OF ok Start(2) assms(3)] show ?thesis by simp
  next
    case (Log i c args w)
    show ?thesis unfolding Log(1) by (rule started_ok_set [OF ok Log(2)]) simp
  next
    case (LogError i c args err)
    show ?thesis unfolding LogError(1) by (rule started_ok_set [OF ok LogError(2)]) simp
  next
    case (Announce i c pid err w)
    show ?thesis unfolding Announce(1) by (rule started_ok_set [OF ok Announce(2)]) (simp split: if_splits)
  next
    case (Exit i c pid code)
    show ?thesis unfolding Exit(1) by (rule started_ok_set [OF ok Exit(2)]) simp
  next
    case (Record i c code err w)
    show ?thesis unfolding Record(1) by (rule started_ok_set [OF ok Record(2)]) (simp split: if_splits)
  qed (use ok in \<open>simp_all add: started_ok_def\<close>)
  then show ?thesis by (simp add: good_def)
qed

interpretation started_sys: step_invariant "\<lambda>s. s = handleContainers pod w" "pause_step outside pe pod"
  "\<lambda>s. (pause_step outside pe pod)\<^sup>*\<^sup>* (handleContainers pod w) s \<and>
     (distinct (map c_name (ps_containers (p_spec pod))) \<longrightarrow>
        started_ok (spawned (pause_step outside pe pod) pe pod (handleContainers pod w) s) pe pod s)" for pod outside pe w
proof
  show "(pause_step outside pe pod)\<^sup>*\<^sup>* (handleContainers pod w) s \<and> (distinct (map c_name (ps_containers (p_spec pod))) \<longrightarrow>
      started_ok (spawned (pause_step outside pe pod) pe pod (handleContainers pod w) s) pe pod s)" if "s = handleContainers pod w" for s
    using that by (simp add: started_ok_def) (simp add: handleContainers_def)
qed (blast intro: pause_step_started rtranclp.rtrancl_into_rtrancl)

text \<open>
  C14. What the job starts: whatever the containers do and however the goroutines interleave, no
  container of the pod is started twice and nothing else is started. Each command line is exactly the one
  that \<open>command_ok\<close> writes out: the fixed options, one bind option with the files for name resolution and
  every volume mount of the container in its order (volume directory or subpath, mount path, access
  mode), the security options for the user and group asked for, the environment file when there is one
  at the moment the command is prepared, the image file of the container, and its command and arguments
  with their references replaced. The command gets the environment of the pause program.
\<close>

theorem pause_starts:
  assumes "(pause_step outside pe pod)\<^sup>*\<^sup>* (handleContainers pod w) s" "distinct (map c_name (ps_containers (p_spec pod)))"
  shows "distinct (map (c_name \<circ> fst) (pr_started s)) \<and>
    (\<forall>(c, args, env)\<in>set (pr_started s). c \<in> set (ps_containers (p_spec pod)) \<and> env = pe_environ pe \<and>
       (\<exists>s0. (pause_step outside pe pod)\<^sup>*\<^sup>* (handleContainers pod w) s0 \<and> (pause_step outside pe pod)\<^sup>*\<^sup>* s0 s \<and>
          (c, PNew args) \<in> set (pr_procs s0) \<and> command_ok pe pod c (pr_fs s0) args))"
proof -
  have ok: "started_ok (spawned (pause_step outside pe pod) pe pod (handleContainers pod w) s) pe pod s"
    using started_sys.inv_run [OF _ assms(1)] assms(2) by blast
  then have "map fst (pr_procs s) @ pr_todo s = ps_containers (p_spec pod)" by (simp add: started_ok_def)
  from arg_cong [OF this, of set] have "fst ` set (pr_procs s) \<subseteq> set (ps_containers (p_spec pod))" by auto
  with ok show ?thesis unfolding started_ok_def spawned_def by fastforce
qed

subsection \<open>A failing init container\<close>

text \<open>No exit code is recorded yet.\<close>

definition unrecorded :: "fpath \<Rightarrow> container \<Rightarrow> fsys \<Rightarrow> bool" where
  "unrecorded D c w \<longleftrightarrow> places D w \<and> no_file w (exit_file D c) \<and> (no_file w (id_file D c) \<or> (\<exists>d. file_with w (id_file D c) d))"

lemma unrecorded_quiet: "unrecorded D c w \<Longrightarrow> quiet D w w' \<Longrightarrow> unrecorded D c w'"
  by (auto simp: unrecorded_def quiet_def no_file_def file_with_def exit_file_def id_file_def)

lemma unrecorded_id:
  assumes "unrecorded D c w" "list_all name_ok D" "name_ok (c_name c)"
    and "os_WriteFile (abs_path (id_file D c)) data perm w = (e, w')"
  shows "unrecorded D c w'"
proof -
  have "(e \<noteq> None \<and> w' = w) \<or> (\<exists>m. w' = fs_put (ctl D @ [c_name c @ ''.jobid'']) (File (if e = None then data else []) m (clock w)) w \<and>
      \<not> is_dir (fs_lookup w (ctl D @ [c_name c @ ''.jobid''])))"
    by (rule os_WriteFile_in_dir)
      (use assms in \<open>auto simp: unrecorded_def places_def ctl_def name_ok_def control_file_names id_file_def no_file_def file_with_def\<close>)
  then show ?thesis
    using assms(1) control_names_apart(2) [of D c c] places_put_file [of D w "id_file D c"]
    by (auto simp: unrecorded_def id_file_def [symmetric])
qed

lemma unrecorded_view:
  assumes "unrecorded D c w" "list_all name_ok D" "name_ok (c_name c)" "\<And>p. faults w SysRead p = None"
  shows "\<exists>v\<in>{CWaiting, CRunning}. view_container w (abs_path D) (c_name c) = Ret v"
proof -
  note lay = container_layout_abs [OF assms(2,3)]
  have pl: "places D w" and no: "no_file w (ctl D @ [c_name c @ ''.exitCode''])" using assms(1) by (simp_all add: unrecorded_def exit_file_def)
  obtain e where "os_ReadFile w (abs_path (ctl D @ [c_name c @ ''.exitCode''])) = Inl e"
    using read_control(1) [OF assms(2) _ pl assms(4) no] assms(3) by (auto simp: control_file_names)
  then show ?thesis by (simp add: view_container_def readIntFromFile_def lay ctl_def)
qed

text \<open>
  C28. A pod whose init container fails stays pending for ever: when the container ends with another
  status than 0 (or cannot be started), the pause program gives up without recording an exit code,
  and what is left on disk makes every update of the provider wait for the init container.
\<close>

theorem init_failure_unreported:
  assumes "pause_ok D pe pod" "name_ok (c_name c)" "places D w"
    and "fs_lookup w (exit_file D c) = None" "fs_lookup w (id_file D c) = None"
    and "\<And>args env w. quiet D w (snd (pe_apptainer pe args env w))" "\<And>args env w. fst (pe_apptainer pe args env w) \<noteq> Ended 0"
    and "run_init_container hpkEnv pe pod c w = Ret (e, w')" "\<And>p. faults w' SysRead p = None"
  shows "e \<noteq> None \<and> (\<exists>v. view_container w' (pause_pod_dir pod) (c_name c) = Ret v \<and>
    (\<forall>vi vm. next_phase Pending (v # vi) vm = Pending))"
proof -
  have D: "pause_pod_dir pod = abs_path D" "list_all name_ok D" using assms(1) by (simp_all add: pause_ok_def)
  note lay = container_layout_abs [OF D(2) assms(2)]
  obtain r w1 where args: "container_args False hpkEnv pe pod c w = Ret (r, w1)" using assms(8) by (auto simp: run_init_container_def Let_def)
  have "unrecorded D c w" using assms(3-5) by (simp add: unrecorded_def no_file_def)
  then have un1: "unrecorded D c w1" using container_args_quiet [OF assms(1-3) args] by (rule unrecorded_quiet)
  have "e \<noteq> None \<and> unrecorded D c w'"
  proof (cases r)
    case (Inl err)
    with assms(8) args un1 show ?thesis by (auto simp: run_init_container_def Let_def)
  next
    case (Inr as)
    obtain e2 w2 where wr: "os_WriteFile (abs_path (id_file D c)) (''pid://'' @ strconv_Itoa (int (pe_pid pe))) 420 w1 = (e2, w2)" by fastforce
    have un2: "unrecorded D c w2" by (rule unrecorded_id [OF un1 D(2) assms(2) wr])
    have path: "IDPath (pause_pod_dir pod) (c_name c) = abs_path (id_file D c)" by (simp add: D(1) lay id_file_def ctl_def)
    show ?thesis
    proof (cases "os_Create (LogsPath (pause_pod_dir pod) (c_name c)) w2")
      case (Inl err)
      with assms(8) args Inr wr un2 path show ?thesis by (cases e2) (auto simp: run_init_container_def Let_def)
    next
      case (Inr w3)
      obtain pend w4 where run: "pe_apptainer pe as (pe_environ pe) w3 = (pend, w4)" by fastforce
      have "\<exists>m. w3 = fs_put (logs D @ [c_name c @ ''.logs'']) (File [] m (clock w2)) w2 \<and> \<not> is_dir (fs_lookup w2 (logs D @ [c_name c @ ''.logs'']))"
        by (rule os_Create_in_dir) (use Inr un2 assms(2) D in \<open>auto simp: unrecorded_def places_def logs_def lay control_file_names name_ok_def\<close>)
      then have "quiet D w2 w3" by (auto simp: logs_def ctl_def prefix_def intro!: quiet_put)
      moreover have "quiet D w3 w4" using assms(6) [of w3 as "pe_environ pe"] run by simp
      ultimately have un4: "unrecorded D c w4" using un2 unrecorded_quiet quiet_trans by blast
      have "pend \<noteq> Ended 0" using assms(7) [of as "pe_environ pe" w3] run by simp
      with assms(8) args \<open>r = Inr as\<close> wr un2 path Inr run un4 show ?thesis
        by (cases e2; cases pend) (auto simp: run_init_container_def Let_def)
    qed
  qed
  with unrecorded_view [OF _ D(2) assms(2,9)] D(1) show ?thesis
    by (auto simp: next_phase_def init_views_verdict_def failed_view_def)
qed

subsection \<open>Witnesses\<close>

text \<open>A pod with one container, its directories, and a run in which the container ends with 0.\<close>

definition job_pod :: pod where
  "job_pod = demo_pod
     \<lparr>p_meta := (p_meta demo_pod)\<lparr>om_annotations := [(''workingDirectory'', ''/h'')]\<rparr>,
      p_spec := (p_spec demo_pod)\<lparr>ps_containers := [demo_container ''m'']\<rparr>,
      p_status := (p_status demo_pod)\<lparr>s_phase := Running, s_containerStatuses := [zero_status\<lparr>cs_name := ''m''\<rparr>]\<rparr>\<rparr>"

definition job_dir :: fpath where "job_dir = [''h'', ''.hpk'', ''default'', ''web'']"

definition job_fs :: fsys where
  "job_fs = demo_fs\<lparr>entries := [([''h''], Dir 493), ([''h'', ''.hpk''], Dir 493), ([''h'', ''.hpk'', ''default''], Dir 493),
     ([''h'', ''.hpk'', ''default'', ''web''], Dir 493), ([''h'', ''.hpk'', ''default'', ''web'', ''controlfiles''], Dir 493),
     ([''h'', ''.hpk'', ''default'', ''web'', ''logs''], Dir 493), ([''h'', ''.hpk'', ''default'', ''web'', ''job''], Dir 493),
     ([''h'', ''.hpk'', ''default'', ''web'', ''job'', ''pod.crd''], File ''{pod}'' 420 0), ([''scratch''], Dir 493)]\<rparr>"

definition job_env :: "proc_end \<Rightarrow> pause_env" where
  "job_env r = \<lparr>pe_client = None, pe_getPod = (\<lambda>n. Inr job_pod), pe_addrs = Inr [], pe_hostname = Inr ''node'', pe_pid = 1,
     pe_shell = (\<lambda>f w. (Inr [], w)), pe_apptainer = (\<lambda>args env w. (r, w)), pe_environ = []\<rparr>"

lemma job_pause_ok: "pause_ok job_dir (job_env r) job_pod"
proof -
  have "pause_pod_dir job_pod = abs_path job_dir" by code_simp
  moreover have "list_all name_ok job_dir" "key_ok (ObjectKeyFromObject job_pod)"
    "distinct (map c_name (ps_containers (p_spec job_pod)))" "list_all (\<lambda>c. name_ok (c_name c)) (ps_containers (p_spec job_pod))"
    by code_simp+
  ultimately show ?thesis by (simp add: pause_ok_def job_env_def)
qed

lemma job_places: "places job_dir job_fs"
proof -
  have "list_all (\<lambda>(q, n). \<not> is_link (Some n)) (entries job_fs)" by (simp add: job_fs_def)
  then have "\<not> is_link (fs_lookup job_fs q)" for q
    by (auto simp: fs_lookup_def list_all_iff is_link_def split: option.splits fnode.splits dest!: map_of_SomeD)
  moreover have "real_dir job_fs (ctl job_dir)" "real_dir job_fs (logs job_dir)" "real_dir job_fs [''scratch'']"
    by (simp_all add: ctl_def logs_def job_dir_def job_fs_def fs_lookup_def)
  ultimately show ?thesis by (simp add: places_def)
qed

lemma job_unrecorded:
  "fs_lookup job_fs (exit_file job_dir (demo_container ''m'')) = None" "fs_lookup job_fs (id_file job_dir (demo_container ''m'')) = None"
  by code_simp+

definition job_fs1 :: fsys where "job_fs1 = projr (os_Create (LogsPath (pause_pod_dir job_pod) ''m'') job_fs)"
definition job_fs2 :: fsys where "job_fs2 = snd (os_WriteFile (IDPath (pause_pod_dir job_pod) ''m'') (''pid://'' @ strconv_Itoa (int 7)) 420 job_fs1)"
definition job_fs3 :: fsys where "job_fs3 = snd (os_WriteFile (ExitCodePath (pause_pod_dir job_pod) ''m'') (strconv_Itoa 0) 420 job_fs2)"

lemma job_args: "\<exists>args. container_args b h (job_env r) job_pod (demo_container ''m'') job_fs = Ret (Inr args, job_fs)"
proof -
  have no_env: "fileExists job_fs (EnvFilePath (pause_pod_dir job_pod) ''m'') = Ret False" by code_simp
  have m: "c_name (demo_container ''m'') = ''m''" "c_volumeMounts (demo_container ''m'') = []" by (simp_all add: demo_container_def)
  have img: "ParseImageName (c_image (demo_container ''m'')) = Ret ''/alpine_latest.sif''" by code_simp
  show ?thesis by (simp add: container_args_def load_environment_def m no_env img)
qed

lemma job_calls:
  "os_Create (LogsPath (pause_pod_dir job_pod) ''m'') job_fs = Inr job_fs1"
  "os_WriteFile (IDPath (pause_pod_dir job_pod) ''m'') (''pid://'' @ strconv_Itoa (int 7)) 420 job_fs1 = (None, job_fs2)"
  "os_WriteFile (ExitCodePath (pause_pod_dir job_pod) ''m'') (strconv_Itoa 0) 420 job_fs2 = (None, job_fs3)"
proof -
  have "\<not> isl (os_Create (LogsPath (pause_pod_dir job_pod) ''m'') job_fs)" by code_simp
  then show "os_Create (LogsPath (pause_pod_dir job_pod) ''m'') job_fs = Inr job_fs1" by (simp add: job_fs1_def)
  have "fst (os_WriteFile (IDPath (pause_pod_dir job_pod) ''m'') (''pid://'' @ strconv_Itoa (int 7)) 420 job_fs1) = None" by code_simp
  then show "os_WriteFile (IDPath (pause_pod_dir job_pod) ''m'') (''pid://'' @ strconv_Itoa (int 7)) 420 job_fs1 = (None, job_fs2)"
    by (metis job_fs2_def prod.collapse)
  have "fst (os_WriteFile (ExitCodePath (pause_pod_dir job_pod) ''m'') (strconv_Itoa 0) 420 job_fs2) = None" by code_simp
  then show "os_WriteFile (ExitCodePath (pause_pod_dir job_pod) ''m'') (strconv_Itoa 0) 420 job_fs2 = (None, job_fs3)"
    by (metis job_fs3_def prod.collapse)
qed

definition job_cmd :: "string list" where
  "job_cmd = (case container_args True True (job_env (Ended 0)) job_pod (demo_container ''m'') job_fs of Ret (Inr args, w) \<Rightarrow> args | _ \<Rightarrow> [])"

lemma job_cmd: "container_args True True (job_env (Ended 0)) job_pod (demo_container ''m'') job_fs = Ret (Inr job_cmd, job_fs)"
  using job_args [of True True "Ended 0"] by (auto simp: job_cmd_def)

definition job_state :: "main_proc \<Rightarrow> fsys \<Rightarrow> pause_run" where
  "job_state st w = \<lparr>pr_fs = w, pr_todo = [], pr_procs = [(demo_container ''m'', st)],
     pr_started = (case st of PNew args \<Rightarrow> [] | PLogged args \<Rightarrow> [] | _ \<Rightarrow> [(demo_container ''m'', job_cmd, [])]), pr_over = False\<rparr>"

lemma job_run: "(pause_step (quiet job_dir) (job_env (Ended 0)) job_pod)\<^sup>*\<^sup>* (handleContainers job_pod job_fs) (job_state (PFinished 0) job_fs3)"
proof -
  let ?st = "pause_step (quiet job_dir) (job_env (Ended 0)) job_pod"
  have at: "at_proc (job_state st w) 0 (demo_container ''m'') st" for st w by (simp add: at_proc_def job_state_def)
  have set: "set_proc 0 st' w' (job_state st w) = (job_state st' w')\<lparr>pr_started := pr_started (job_state st w)\<rparr>" for st st' w w'
    by (simp add: set_proc_def job_state_def)
  have fs: "pr_fs (job_state st w) = w" for st w by (simp add: job_state_def)
  have m: "c_name (demo_container ''m'') = ''m''" by (simp add: demo_container_def)
  have "?st (handleContainers job_pod job_fs) (job_state (PNew job_cmd) job_fs)"
  proof -
    have "container_args True True (job_env (Ended 0)) job_pod (demo_container ''m'') (pr_fs (handleContainers job_pod job_fs)) = Ret (Inr job_cmd, job_fs)"
      using job_cmd by (simp add: handleContainers_def)
    from pause_step.Spawn [OF _ _ this, of "[]" "quiet job_dir"] show ?thesis
      by (simp add: handleContainers_def job_state_def job_pod_def)
  qed
  moreover have "?st (job_state (PNew job_cmd) job_fs) (job_state (PLogged job_cmd) job_fs1)"
    using Log [OF at [of "PNew job_cmd" job_fs], of job_pod job_fs1] job_calls(1) by (simp add: set fs m) (simp add: job_state_def)
  moreover have "?st (job_state (PLogged job_cmd) job_fs1) (job_state (PStarted 7) job_fs1)"
    using Start [OF at [of "PLogged job_cmd" job_fs1], of "quiet job_dir" "job_env (Ended 0)" job_pod 7]
    by (simp add: set_proc_started set fs) (simp add: job_state_def job_env_def)
  moreover have "?st (job_state (PStarted 7) job_fs1) (job_state (PAnnounced 7) job_fs2)"
    using Announce [OF at, of job_pod _ _ None job_fs2] job_calls(2) by (simp add: set fs m) (simp add: job_state_def)
  moreover have "?st (job_state (PAnnounced 7) job_fs2) (job_state (PExited 0) job_fs2)"
    using Exit [OF at, of 0] by (simp add: set fs) (simp add: job_state_def)
  moreover have "?st (job_state (PExited 0) job_fs2) (job_state (PFinished 0) job_fs3)"
    using Record [OF at, of job_pod _ _ None job_fs3] job_calls(3) by (simp add: set fs m) (simp add: job_state_def)
  ultimately show ?thesis by (meson rtranclp.rtrancl_into_rtrancl rtranclp.rtrancl_refl)
qed

lemma os_WriteFile_faults: "os_WriteFile s d perm w = (e, w') \<Longrightarrow> faults w' = faults w"
  by (auto simp: os_WriteFile_def split: sum.splits option.splits prod.splits)

lemma os_Create_faults: "os_Create s w = Inr w' \<Longrightarrow> faults w' = faults w"
  by (auto simp: os_Create_def syscall_def split: sum.splits option.splits fnode.splits)

lemma job_faults: "faults job_fs3 op q = None"
  using os_WriteFile_faults [OF job_calls(3)] os_WriteFile_faults [OF job_calls(2)] os_Create_faults [OF job_calls(1)]
  by (simp add: job_fs_def demo_fs_def)

lemma job_containers: "c \<in> set (ps_containers (p_spec job_pod)) \<Longrightarrow>
    fs_lookup job_fs (exit_file job_dir c) = None \<and> fs_lookup job_fs (id_file job_dir c) = None"
  using job_unrecorded by (simp add: job_pod_def)

theorem pause_views_witness:
  "view_container job_fs3 (pause_pod_dir job_pod) ''m'' = Ret (CDone 0)"
proof -
  have "\<exists>v\<in>main_view (PFinished 0). view_container (pr_fs (job_state (PFinished 0) job_fs3)) (pause_pod_dir job_pod) (c_name (demo_container ''m'')) = Ret v"
    by (rule pause_views [OF job_run job_pause_ok job_places job_containers, of 0])
      (simp_all add: job_state_def job_faults)
  then show ?thesis by (simp add: job_state_def demo_container_def)
qed

theorem pause_run_phase_witness:
  "\<exists>p'. UpdateStatusFromRuntime job_fs3 (HPK ''/h'') job_pod = Ret p' \<and> s_phase (p_status p') = Succeeded"
proof -
  have "pod_ok job_pod" by code_simp
  moreover have "dir_of (HPK ''/h'') job_pod = pause_pod_dir job_pod" by code_simp
  ultimately show ?thesis
    using pause_run_phase [OF job_run job_pause_ok job_places job_containers, of job_pod "HPK ''/h''"] job_faults
    by (simp add: job_state_def job_pod_def demo_pod_def)
qed

theorem init_failure_unreported_witness:
  "\<exists>e w'. run_init_container True (job_env (Ended 3)) job_pod (demo_container ''m'') job_fs = Ret (Some e, w') \<and>
     (\<exists>v. view_container w' (pause_pod_dir job_pod) ''m'' = Ret v \<and> next_phase Pending [v] [] = Pending)"
proof -
  have "(case run_init_container True (job_env (Ended 3)) job_pod (demo_container ''m'') job_fs of Ret (e, w') \<Rightarrow> e \<noteq> None | Panic m \<Rightarrow> False)"
    by code_simp
  then obtain e w' where run: "run_init_container True (job_env (Ended 3)) job_pod (demo_container ''m'') job_fs = Ret (Some e, w')"
    by (auto split: outcome.splits prod.splits)
  have faults: "faults w' = faults job_fs"
  proof -
    obtain args where "container_args False True (job_env (Ended 3)) job_pod (demo_container ''m'') job_fs = Ret (Inr args, job_fs)"
      using job_args by blast
    with run show ?thesis
      by (auto simp: run_init_container_def Let_def job_env_def dest!: os_WriteFile_faults os_Create_faults
          split: prod.splits option.splits sum.splits)
  qed
  have "name_ok (c_name (demo_container ''m''))" by (simp add: demo_container_def name_ok_def)
  from init_failure_unreported [OF job_pause_ok this job_places job_unrecorded _ _ run] faults
  obtain v where "view_container w' (pause_pod_dir job_pod) (c_name (demo_container ''m'')) = Ret v" "next_phase Pending [v] [] = Pending"
    by (auto simp: job_env_def job_fs_def demo_fs_def)
  with run show ?thesis by (auto simp: demo_container_def)
qed

text \<open>A container with a read-only mount of a subpath is started.\<close>

definition vol_container :: container where
  "vol_container = (demo_container ''m'')\<lparr>c_volumeMounts := [(mount_at ''v'' ''/data'')\<lparr>vm_subPath := ''sub'', vm_readOnly := True\<rparr>]\<rparr>"

definition vol_pod :: pod where
  "vol_pod = job_pod\<lparr>p_spec := (p_spec job_pod)\<lparr>ps_containers := [vol_container]\<rparr>\<rparr>"

lemma vol_container_simps [simp]: "c_name vol_container = ''m''" "c_command vol_container = c_command (demo_container ''m'')"
  by (simp_all add: vol_container_def demo_container_def)

lemma vol_start:
  "\<exists>args s. (pause_step (quiet job_dir) (job_env (Ended 0)) vol_pod)\<^sup>*\<^sup>* (handleContainers vol_pod job_fs) s \<and>
     pr_started s = [(vol_container, args, [])]"
proof -
  let ?st = "pause_step (quiet job_dir) (job_env (Ended 0)) vol_pod"
  have "(case container_args True True (job_env (Ended 0)) vol_pod vol_container job_fs of Ret (Inr args, w) \<Rightarrow> w = job_fs | _ \<Rightarrow> False)"
  proof -
    have no_env: "fileExists job_fs (EnvFilePath (pause_pod_dir vol_pod) ''m'') = Ret False" by code_simp
    have img: "ParseImageName (c_image vol_container) = Ret ''/alpine_latest.sif''" by code_simp
    have "\<exists>b. pause_binds (pause_pod_dir vol_pod) (c_volumeMounts vol_container) = Ret (Inr b)"
      by (simp add: vol_container_def pause_bind_def mount_at_def filepath_IsAbs_def Let_def)
    then show ?thesis by (auto simp: container_args_def load_environment_def no_env img)
  qed
  then obtain args where a: "container_args True True (job_env (Ended 0)) vol_pod vol_container job_fs = Ret (Inr args, job_fs)"
    by (auto split: outcome.splits prod.splits sum.splits)
  let ?s = "\<lambda>st w. \<lparr>pr_fs = w, pr_todo = [], pr_procs = [(vol_container, st)], pr_started = [], pr_over = False\<rparr>"
  have "?st (handleContainers vol_pod job_fs) (?s (PNew args) job_fs)"
    using pause_step.Spawn [of "handleContainers vol_pod job_fs" vol_container "[]" "job_env (Ended 0)" vol_pod args job_fs "quiet job_dir"] a
    by (simp add: handleContainers_def vol_pod_def)
  moreover have "?st (?s (PNew args) job_fs) (?s (PLogged args) job_fs1)"
  proof -
    have "pause_pod_dir vol_pod = pause_pod_dir job_pod" by code_simp
    then show ?thesis
      using Log [of "?s (PNew args) job_fs" 0 vol_container args vol_pod job_fs1] job_calls(1) by (simp add: at_proc_def set_proc_def)
  qed
  moreover have "?st (?s (PLogged args) job_fs1) ((?s (PStarted 7) job_fs1)\<lparr>pr_started := [(vol_container, args, [])]\<rparr>)"
    using Start [of "?s (PLogged args) job_fs1" 0 vol_container args "quiet job_dir" "job_env (Ended 0)" vol_pod 7]
    by (simp add: at_proc_def set_proc_def job_env_def)
  ultimately have "?st\<^sup>*\<^sup>* (handleContainers vol_pod job_fs) ((?s (PStarted 7) job_fs1)\<lparr>pr_started := [(vol_container, args, [])]\<rparr>)"
    by (meson rtranclp.rtrancl_into_rtrancl rtranclp.rtrancl_refl)
  then show ?thesis by fastforce
qed

theorem pause_starts_witness:
  "\<exists>args s. (pause_step (quiet job_dir) (job_env (Ended 0)) vol_pod)\<^sup>*\<^sup>* (handleContainers vol_pod job_fs) s \<and>
     pr_started s = [(vol_container, args, [])] \<and> args ! 7 = ''--bind'' \<and>
     args ! 8 = ''/scratch/etc/resolv.conf:/etc/resolv.conf,/scratch/etc/hosts:/etc/hosts,/h/.hpk/default/web/volumes/v/sub:/data:ro''"
proof -
  obtain args s where s: "(pause_step (quiet job_dir) (job_env (Ended 0)) vol_pod)\<^sup>*\<^sup>* (handleContainers vol_pod job_fs) s"
    "pr_started s = [(vol_container, args, [])]" using vol_start by blast
  have "distinct (map c_name (ps_containers (p_spec vol_pod)))" by (simp add: vol_pod_def)
  with pause_starts [OF s(1)] s(2) obtain w where "command_ok (job_env (Ended 0)) vol_pod vol_container w args" by auto
  then obtain binds post where b: "list_all2 (mount_bind vol_pod) (c_volumeMounts vol_container) binds"
    and args: "args = [''--quiet'', ''run'', ''--cleanenv'', ''--writable-tmpfs'', ''--no-mount'', ''home'', ''--unsquash'', ''--bind'',
      strings_Join (''/scratch/etc/resolv.conf:/etc/resolv.conf'' # ''/scratch/etc/hosts:/etc/hosts'' # binds) '',''] @ post"
    unfolding command_ok_def by (auto simp: job_env_def map_get_def demo_container_def)
  have vol: "filepath_Join [filepath_Join [filepath_Join [pause_pod_dir vol_pod, ''volumes''], ''v''], ''sub''] = ''/h/.hpk/default/web/volumes/v/sub''"
    by code_simp
  have "binds = [''/h/.hpk/default/web/volumes/v/sub:/data:ro'']"
    using b vol by (auto simp: vol_container_def mount_bind_def mount_at_def list_all2_Cons1)
  then have "args ! 7 = ''--bind''"
    "args ! 8 = ''/scratch/etc/resolv.conf:/etc/resolv.conf,/scratch/etc/hosts:/etc/hosts,/h/.hpk/default/web/volumes/v/sub:/data:ro''"
    unfolding args by simp_all
  then show ?thesis using s by blast
qed

end
