(* ===== verification/HPK_Events.thy ===== *)
theory HPK_Events
  imports HPK_PodFile HPK_Poller
begin

text \<open>
  Package \<open>compute/events\<close> (\<open>listener.go\<close>): the queue of file events between the watcher and the
  workers that turn an event into a new pod status. \<open>handle_event\<close> is what a worker does with one
  event. The concurrency is the step relation \<open>listener_step\<close>: the loop of \<open>Listen\<close> that starts the
  workers and waits, the workers with their \<open>select\<close>, the goroutine of \<open>NotifyPods\<close> that calls
  \<open>Push\<close> for one event of the watcher after the other, and the lock between them (a writer that
  waits for a \<open>sync.RWMutex\<close> keeps new readers out). The lemmas show that the events are handled in
  the order of the watcher, one worker at a time and none lost or doubled, that the queue respects
  its bound, what a handled event reports, and the shutdown that cannot complete.
\<close>

subsection \<open>Handling one event\<close>

record pod_control =
  pc_UpdateStatus :: "fsys \<Rightarrow> pod \<Rightarrow> pod outcome"
  pc_LoadFromDisk :: "fsys \<Rightarrow> objkey \<Rightarrow> (go_error + pod) outcome"

text \<open>
  The body of the \<open>case event := <-h.Queue\<close>: the pod that \<open>NotifyVirtualKubelet\<close> is called with, if
  it is. A pod in a final phase is logged as ignored, and handled like any other.
\<close>

definition handle_event :: "string \<Rightarrow> pod_control \<Rightarrow> fsys \<Rightarrow> fs_event \<Rightarrow> pod option outcome" where
  "handle_event hpk control w event =
     (if \<not> Op_Has event OpCreate then Ret None
      else bind_outcome (ParseControlFilePath hpk (ev_path event)) (\<lambda>(podkey, file, invalid).
        if invalid then Ret None
        else if \<not> (Op_Has event OpCreate \<or> Op_Has event OpWrite) then Ret None
        else let ext = filepath_Ext file
             in if ext = ExtensionSysError then
                  bind_outcome (pc_LoadFromDisk control w podkey) (\<lambda>loaded. case loaded of
                    Inl err \<Rightarrow> SystemPanic err ''pod does not exist''
                  | Inr pod \<Rightarrow>
                      (case os_ReadFile w (SysErrorFilePath (pod_dir hpk podkey)) of
                         Inl err \<Rightarrow> SystemPanic err ''failed to read file''
                       | Inr reason \<Rightarrow> Ret (Some (PodError w pod ''SYSERROR'' ''Pod creation has failed''))))
                else if ext = ExtensionIP \<or> ext = ExtensionJobID \<or> ext = ExtensionExitCode then
                  bind_outcome (pc_LoadFromDisk control w podkey) (\<lambda>loaded. case loaded of
                    Inl err \<Rightarrow> Ret None
                  | Inr pod \<Rightarrow> bind_outcome (pc_UpdateStatus control w pod) (\<lambda>pod'. Ret (Some pod')))
                else Ret None))"

subsection \<open>The queue and its workers\<close>

record options =
  opt_MaxWorkers :: nat
  opt_MaxQueueSize :: nat

text \<open>
  A worker waits in its \<open>select\<close>, handles an event, waits for the write lock to close the queue, or
  has returned. \<open>Listen\<close> is about to start worker \<open>i\<close>, waits for the wait group after it, or has
  returned.
\<close>

datatype worker = Selecting | Handling fs_event | Locking | Exited

datatype listen_pc = Spawning nat | Waiting nat | Returned

record listener =
  l_Opts :: options
  l_Queue :: "fs_event list"
  l_Finished :: bool
  l_workers :: "worker list"
  l_listen :: listen_pc
  l_ctxDone :: bool
  l_input :: "fs_event list"            \<comment> \<open>events of the watcher that are not pushed yet\<close>
  l_sending :: "fs_event option"        \<comment> \<open>the event of a \<open>Push\<close> that holds the read lock\<close>
  l_dropped :: "fs_event list"
  l_handled :: "(fs_event \<times> fsys \<times> pod option) list"
    \<comment> \<open>what was handled, the files at that time, and what was notified\<close>
  l_crashed :: bool                     \<comment> \<open>a worker has panicked: the process is gone\<close>

definition NewEventHandler :: "options \<Rightarrow> fs_event list \<Rightarrow> listener" where
  "NewEventHandler opts evs =
     \<lparr>l_Opts = opts, l_Queue = [], l_Finished = False, l_workers = [], l_listen = Spawning 0,
      l_ctxDone = False, l_input = evs, l_sending = None, l_dropped = [], l_handled = [], l_crashed = False\<rparr>"

text \<open>Some worker holds or waits for the write lock: no new reader is admitted.\<close>

definition writer_waits :: "listener \<Rightarrow> bool" where
  "writer_waits s = (Locking \<in> set (l_workers s))"

definition set_worker :: "nat \<Rightarrow> worker \<Rightarrow> listener \<Rightarrow> listener" where
  "set_worker i x s = s\<lparr>l_workers := (l_workers s)[i := x]\<rparr>"

inductive listener_step :: "string \<Rightarrow> pod_control \<Rightarrow> listener \<Rightarrow> listener \<Rightarrow> bool" for hpk control where
  Spawn: "\<lbrakk>\<not> l_crashed s; l_listen s = Spawning i; i < opt_MaxWorkers (l_Opts s)\<rbrakk> \<Longrightarrow>
    listener_step hpk control s (s\<lparr>l_workers := l_workers s @ [Selecting], l_listen := Waiting i\<rparr>)"
| Waited: "\<lbrakk>\<not> l_crashed s; l_listen s = Waiting i; \<forall>x\<in>set (l_workers s). x = Exited\<rbrakk> \<Longrightarrow>
    listener_step hpk control s (s\<lparr>l_listen := Spawning (Suc i)\<rparr>)"
| Return: "\<lbrakk>\<not> l_crashed s; l_listen s = Spawning i; \<not> i < opt_MaxWorkers (l_Opts s)\<rbrakk> \<Longrightarrow>
    listener_step hpk control s (s\<lparr>l_listen := Returned\<rparr>)"
| Cancel: "\<not> l_crashed s \<Longrightarrow> listener_step hpk control s (s\<lparr>l_ctxDone := True\<rparr>)"
| Done: "\<lbrakk>\<not> l_crashed s; i < length (l_workers s); l_workers s ! i = Selecting; l_ctxDone s\<rbrakk> \<Longrightarrow>
    listener_step hpk control s (set_worker i Locking s)"
| Locked: "\<lbrakk>\<not> l_crashed s; i < length (l_workers s); l_workers s ! i = Locking; l_sending s = None\<rbrakk> \<Longrightarrow>
    listener_step hpk control s (set_worker i Exited s\<lparr>l_Finished := True\<rparr>)"
| Receive: "\<lbrakk>\<not> l_crashed s; i < length (l_workers s); l_workers s ! i = Selecting; l_Queue s = event # q\<rbrakk> \<Longrightarrow>
    listener_step hpk control s (set_worker i (Handling event) s\<lparr>l_Queue := q\<rparr>)"
| Handoff: "\<lbrakk>\<not> l_crashed s; i < length (l_workers s); l_workers s ! i = Selecting; l_Queue s = [];
    l_sending s = Some event\<rbrakk> \<Longrightarrow>
    listener_step hpk control s (set_worker i (Handling event) s\<lparr>l_sending := None\<rparr>)"
| Handle: "\<lbrakk>\<not> l_crashed s; i < length (l_workers s); l_workers s ! i = Handling event;
    handle_event hpk control w event = Ret notified\<rbrakk> \<Longrightarrow>
    listener_step hpk control s (set_worker i Selecting s\<lparr>l_handled := l_handled s @ [(event, w, notified)]\<rparr>)"
| Crash: "\<lbrakk>\<not> l_crashed s; i < length (l_workers s); l_workers s ! i = Handling event;
    handle_event hpk control w event = Panic m\<rbrakk> \<Longrightarrow>
    listener_step hpk control s (s\<lparr>l_crashed := True\<rparr>)"
| PushRLock: "\<lbrakk>\<not> l_crashed s; l_input s = event # rest; l_sending s = None; \<not> writer_waits s; \<not> l_Finished s\<rbrakk> \<Longrightarrow>
    listener_step hpk control s (s\<lparr>l_input := rest, l_sending := Some event\<rparr>)"
| PushDrop: "\<lbrakk>\<not> l_crashed s; l_input s = event # rest; l_sending s = None; \<not> writer_waits s; l_Finished s\<rbrakk> \<Longrightarrow>
    listener_step hpk control s (s\<lparr>l_input := rest, l_dropped := l_dropped s @ [event]\<rparr>)"
| PushSend: "\<lbrakk>\<not> l_crashed s; l_sending s = Some event; length (l_Queue s) < opt_MaxQueueSize (l_Opts s)\<rbrakk> \<Longrightarrow>
    listener_step hpk control s (s\<lparr>l_Queue := l_Queue s @ [event], l_sending := None\<rparr>)"

inductive_cases listener_stepE: "listener_step hpk control s s'"

subsection \<open>Order, bounds and losses\<close>

definition alive :: "worker list \<Rightarrow> worker list" where
  "alive ws = filter (\<lambda>x. x \<noteq> Exited) ws"

fun in_hand :: "worker list \<Rightarrow> fs_event list" where
  "in_hand [Handling event] = [event]"
| "in_hand ws = []"

lemma alive_simps [simp]:
  "alive [] = []" "alive (ws @ [Selecting]) = alive ws @ [Selecting]"
  by (simp_all add: alive_def)

lemma alive_none: "(\<forall>x\<in>set ws. x = Exited) \<longleftrightarrow> alive ws = []"
  by (auto simp: alive_def filter_empty_conv)

lemma alive_only:
  assumes "length (alive ws) \<le> 1" and "i < length ws" and "ws ! i \<noteq> Exited"
  shows "alive ws = [ws ! i]" and "alive (ws[i := x]) = (if x = Exited then [] else [x])"
proof -
  let ?a = "alive (take i ws)" and ?b = "alive (drop (Suc i) ws)"
  have "alive ws = ?a @ ws ! i # ?b"
    using assms(2,3) unfolding alive_def
    by (metis (mono_tags, lifting) filter.simps(2) filter_append id_take_nth_drop)
  with assms(1) have "?a = []" "?b = []" "alive ws = ?a @ ws ! i # ?b" by auto
  then show "alive ws = [ws ! i]" by simp
  have "alive (ws[i := x]) = ?a @ alive [x] @ ?b"
    using assms(2) by (simp add: upd_conv_take_nth_drop alive_def)
  with \<open>?a = []\<close> \<open>?b = []\<close> show "alive (ws[i := x]) = (if x = Exited then [] else [x])"
    by (simp add: alive_def)
qed

definition sending_list :: "fs_event option \<Rightarrow> fs_event list" where
  "sending_list x = (case x of None \<Rightarrow> [] | Some event \<Rightarrow> [event])"

lemma sending_list_simps [simp]: "sending_list None = []" "sending_list (Some e) = [e]"
  by (simp_all add: sending_list_def)

text \<open>
  The invariant: at most one worker runs, and none while \<open>Listen\<close> starts the next one or has
  returned; the queue respects its bound; the events handled, in hand, queued, being sent, dropped
  and not yet pushed make up the watcher's events in their order; events are dropped only after
  the queue was closed.
\<close>

definition listener_ok :: "options \<Rightarrow> fs_event list \<Rightarrow> listener \<Rightarrow> bool" where
  "listener_ok opts evs s =
     (l_Opts s = opts \<and>
      length (alive (l_workers s)) \<le> 1 \<and>
      ((\<forall>i. l_listen s \<noteq> Waiting i) \<longrightarrow> alive (l_workers s) = []) \<and>
      length (l_Queue s) \<le> opt_MaxQueueSize opts \<and>
      map fst (l_handled s) @ in_hand (alive (l_workers s)) @ l_Queue s @ sending_list (l_sending s)
        @ l_dropped s @ l_input s = evs \<and>
      (l_dropped s \<noteq> [] \<longrightarrow> l_Finished s) \<and> (l_Finished s \<longrightarrow> l_sending s = None))"

lemma listener_ok_new: "listener_ok opts evs (NewEventHandler opts evs)"
  by (simp add: listener_ok_def NewEventHandler_def)

lemma set_worker_simps [simp]:
  "l_Opts (set_worker i x s) = l_Opts s" "l_Queue (set_worker i x s) = l_Queue s"
  "l_Finished (set_worker i x s) = l_Finished s" "l_workers (set_worker i x s) = (l_workers s)[i := x]"
  "l_listen (set_worker i x s) = l_listen s" "l_input (set_worker i x s) = l_input s"
  "l_sending (set_worker i x s) = l_sending s" "l_dropped (set_worker i x s) = l_dropped s"
  "l_handled (set_worker i x s) = l_handled s" "l_ctxDone (set_worker i x s) = l_ctxDone s"
  "l_crashed (set_worker i x s) = l_crashed s"
  by (simp_all add: set_worker_def)

text \<open>A worker that runs is the only one, and \<open>Listen\<close> waits for it.\<close>

lemma listener_ok_worker:
  assumes "listener_ok opts evs s" and "i < length (l_workers s)" and "l_workers s ! i \<noteq> Exited"
  shows "alive (l_workers s) = [l_workers s ! i] \<and> (\<exists>j. l_listen s = Waiting j) \<and>
    alive ((l_workers s)[i := x]) = (if x = Exited then [] else [x])"
proof -
  have one: "length (alive (l_workers s)) \<le> 1" using assms(1) by (simp add: listener_ok_def)
  have "alive (l_workers s) = [l_workers s ! i]" by (rule alive_only [OF one assms(2,3)])
  moreover from this have "\<exists>j. l_listen s = Waiting j" using assms(1) by (auto simp: listener_ok_def)
  ultimately show ?thesis using alive_only(2) [OF one assms(2,3)] by simp
qed

lemma listener_ok_step:
  assumes "listener_step hpk control s s'" and "listener_ok opts evs s"
  shows "listener_ok opts evs s'"
  using assms(1)
proof cases
  case (Done i)
  with listener_ok_worker [OF assms(2), of i Locking] assms(2) show ?thesis by (auto simp: listener_ok_def)
next
  case (Locked i)
  with listener_ok_worker [OF assms(2), of i Exited] assms(2) show ?thesis by (auto simp: listener_ok_def)
next
  case (Receive i event q)
  with listener_ok_worker [OF assms(2), of i "Handling event"] assms(2) show ?thesis by (auto simp: listener_ok_def)
next
  case (Handoff i event)
  with listener_ok_worker [OF assms(2), of i "Handling event"] assms(2) show ?thesis by (auto simp: listener_ok_def)
next
  case (Handle i event w notified)
  with listener_ok_worker [OF assms(2), of i Selecting] assms(2) show ?thesis by (auto simp: listener_ok_def)
qed (use assms(2) in \<open>auto simp: listener_ok_def alive_none\<close>)

interpretation listener_sys: step_invariant "\<lambda>s. s = NewEventHandler opts evs" "listener_step hpk control" "listener_ok opts evs"
  for opts evs hpk control
  by unfold_locales (auto intro: listener_ok_new listener_ok_step)

lemmas listener_ok_reachable = listener_sys.inv_run [OF refl]

text \<open>
  C15. Whatever the interleaving of the watcher, the queue and the workers: at most one worker is
  alive, however many were asked for; the queue never exceeds its bound; and the events handled so
  far, the one in hand, the queued ones, the one being sent, the dropped ones and the ones still to
  be pushed are the watcher's events, each once and in order. Until the queue is closed none is dropped.
\<close>

theorem listener_invariant:
  assumes "(listener_step hpk control)\<^sup>*\<^sup>* (NewEventHandler opts evs) s"
  shows "length (alive (l_workers s)) \<le> 1 \<and> length (l_Queue s) \<le> opt_MaxQueueSize opts \<and>
    map fst (l_handled s) @ in_hand (alive (l_workers s)) @ l_Queue s @ sending_list (l_sending s)
      @ l_dropped s @ l_input s = evs \<and>
    (\<not> l_Finished s \<longrightarrow> l_dropped s = [])"
  using listener_ok_reachable [OF assms] by (auto simp: listener_ok_def)

subsection \<open>Shutdown\<close>

text \<open>
  \<open>n\<close> events are queued, and a worker waits in its \<open>select\<close>.
\<close>

definition filled :: "options \<Rightarrow> fs_event list \<Rightarrow> nat \<Rightarrow> listener" where
  "filled opts evs n = (NewEventHandler opts evs)
     \<lparr>l_workers := [Selecting], l_listen := Waiting 0, l_Queue := take n evs, l_input := drop n evs\<rparr>"

text \<open>The queue is full, \<open>Push\<close> holds the read lock and blocks, the worker waits for the write lock.\<close>

definition jammed :: "options \<Rightarrow> fs_event list \<Rightarrow> listener" where
  "jammed opts evs = (let n = opt_MaxQueueSize opts in
     (filled opts evs n)\<lparr>l_workers := [Locking], l_ctxDone := True, l_sending := Some (evs ! n), l_input := drop (Suc n) evs\<rparr>)"

lemma filled_Suc:
  assumes "n < opt_MaxQueueSize opts" and "n < length evs"
  shows "(listener_step hpk control)\<^sup>*\<^sup>* (filled opts evs n) (filled opts evs (Suc n))"
proof -
  let ?s = "(filled opts evs n)\<lparr>l_input := drop (Suc n) evs, l_sending := Some (evs ! n)\<rparr>"
  have "listener_step hpk control (filled opts evs n) ?s"
    by (rule PushRLock)
      (use assms in \<open>auto simp: filled_def NewEventHandler_def writer_waits_def Cons_nth_drop_Suc\<close>)
  moreover have "listener_step hpk control ?s (?s\<lparr>l_Queue := l_Queue ?s @ [evs ! n], l_sending := None\<rparr>)"
    by (rule PushSend) (use assms in \<open>auto simp: filled_def NewEventHandler_def\<close>)
  moreover have "?s\<lparr>l_Queue := l_Queue ?s @ [evs ! n], l_sending := None\<rparr> = filled opts evs (Suc n)"
    using assms by (simp add: filled_def NewEventHandler_def take_Suc_conv_app_nth)
  ultimately show ?thesis by (metis (no_types, lifting) converse_rtranclp_into_rtranclp rtranclp.rtrancl_refl)
qed

lemma filled_reachable:
  assumes "n \<le> opt_MaxQueueSize opts" and "n \<le> length evs" and "0 < opt_MaxWorkers opts"
  shows "(listener_step hpk control)\<^sup>*\<^sup>* (NewEventHandler opts evs) (filled opts evs n)"
  using assms
proof (induction n)
  case 0
  let ?s = "NewEventHandler opts evs"
  have "listener_step hpk control ?s (?s\<lparr>l_workers := l_workers ?s @ [Selecting], l_listen := Waiting 0\<rparr>)"
    by (rule Spawn) (use 0 in \<open>auto simp: NewEventHandler_def\<close>)
  then show ?case by (simp add: filled_def NewEventHandler_def r_into_rtranclp)
next
  case (Suc n)
  then have "(listener_step hpk control)\<^sup>*\<^sup>* (NewEventHandler opts evs) (filled opts evs n)" by simp
  with filled_Suc [of n opts evs hpk control] Suc.prems show ?case by (simp add: rtranclp_trans)
qed

lemma jammed_reachable:
  assumes "opt_MaxQueueSize opts < length evs" and "0 < opt_MaxWorkers opts"
  shows "(listener_step hpk control)\<^sup>*\<^sup>* (NewEventHandler opts evs) (jammed opts evs)"
proof -
  let ?n = "opt_MaxQueueSize opts"
  let ?a = "filled opts evs ?n"
  let ?b = "?a\<lparr>l_input := drop (Suc ?n) evs, l_sending := Some (evs ! ?n)\<rparr>"
  let ?c = "?b\<lparr>l_ctxDone := True\<rparr>"
  note simps = filled_def NewEventHandler_def writer_waits_def set_worker_def jammed_def Let_def
  have "listener_step hpk control ?a ?b"
    by (rule PushRLock) (use assms in \<open>auto simp: simps Cons_nth_drop_Suc\<close>)
  moreover have "listener_step hpk control ?b ?c" by (rule Cancel) (simp add: simps)
  moreover have "listener_step hpk control ?c (set_worker 0 Locking ?c)" by (rule Done) (simp_all add: simps)
  moreover have "set_worker 0 Locking ?c = jammed opts evs" by (simp add: simps)
  ultimately have "(listener_step hpk control)\<^sup>*\<^sup>* ?a (jammed opts evs)"
    by (metis (no_types, lifting) converse_rtranclp_into_rtranclp rtranclp.rtrancl_refl)
  with filled_reachable [of ?n opts evs hpk control] assms show ?thesis by (simp add: rtranclp_trans)
qed

lemma jammed_stuck:
  assumes "listener_step hpk control (jammed opts evs) s" and "opt_MaxQueueSize opts < length evs"
  shows "s = jammed opts evs"
  using assms(1)
  by cases (use assms(2) in \<open>auto simp: jammed_def filled_def NewEventHandler_def Let_def nth_Cons'\<close>)

interpretation jammed_sys: step_invariant "\<lambda>s. s = jammed opts evs" "listener_step hpk control"
  "\<lambda>s. opt_MaxQueueSize opts < length evs \<longrightarrow> s = jammed opts evs" for opts evs hpk control
  by unfold_locales (auto dest: jammed_stuck)

lemma jammed_forever:
  "(listener_step hpk control)\<^sup>*\<^sup>* (jammed opts evs) s \<Longrightarrow> opt_MaxQueueSize opts < length evs \<Longrightarrow> s = jammed opts evs"
  using jammed_sys.inv_run [OF refl] by blast

text \<open>
  C24. The shutdown can block for ever. As soon as the watcher delivers one event more than the queue
  holds, there is a run in which the context is cancelled and from which no continuation closes the
  queue or lets \<open>Listen\<close> return: \<open>Push\<close> holds the read lock while it waits for room in the queue, and
  the worker, the only one that could make room, waits for the write lock.
\<close>

theorem listener_shutdown_stuck:
  assumes "opt_MaxQueueSize opts < length evs" and "0 < opt_MaxWorkers opts"
  shows "\<exists>s. (listener_step hpk control)\<^sup>*\<^sup>* (NewEventHandler opts evs) s \<and> l_ctxDone s \<and> \<not> l_crashed s \<and>
    (\<forall>s'. (listener_step hpk control)\<^sup>*\<^sup>* s s' \<longrightarrow> l_listen s' \<noteq> Returned \<and> \<not> l_Finished s')"
proof (intro exI conjI allI impI)
  show "(listener_step hpk control)\<^sup>*\<^sup>* (NewEventHandler opts evs) (jammed opts evs)"
    by (rule jammed_reachable [OF assms])
  fix s'
  assume "(listener_step hpk control)\<^sup>*\<^sup>* (jammed opts evs) s'"
  from jammed_forever [OF this assms(1)] show "l_listen s' \<noteq> Returned" "\<not> l_Finished s'"
    by (simp_all add: jammed_def filled_def NewEventHandler_def Let_def)
qed (simp_all add: jammed_def filled_def NewEventHandler_def Let_def)

text \<open>
  Without a blocked \<open>Push\<close> a cancelled listener can always finish: one worker after the other.
\<close>

definition closing :: "options \<Rightarrow> fs_event list \<Rightarrow> listener \<Rightarrow> bool" where
  "closing opts evs s = (listener_ok opts evs s \<and> \<not> l_crashed s \<and> l_ctxDone s \<and> l_sending s = None)"

lemma worker_exits:
  assumes "closing opts evs s" and "l_listen s = Waiting i"
    and "\<And>event. event \<in> set evs \<Longrightarrow> \<exists>w r. handle_event hpk control w event = Ret r"
  shows "\<exists>s'. (listener_step hpk control)\<^sup>*\<^sup>* s s' \<and> closing opts evs s' \<and> l_listen s' = Waiting i \<and> alive (l_workers s') = []"
proof -
  have exits: "\<exists>s'. (listener_step hpk control)\<^sup>*\<^sup>* s s' \<and> closing opts evs s' \<and> l_listen s' = Waiting i \<and> alive (l_workers s') = []"
    if "closing opts evs s" "l_listen s = Waiting i" "j < length (l_workers s)" "l_workers s ! j = Locking" for s j
  proof -
    let ?s = "set_worker j Exited s\<lparr>l_Finished := True\<rparr>"
    have step: "listener_step hpk control s ?s" by (rule Locked) (use that in \<open>auto simp: closing_def\<close>)
    moreover have "closing opts evs ?s"
      using that listener_ok_step [OF step] by (simp add: closing_def)
    moreover have "alive (l_workers ?s) = []"
      using that listener_ok_worker [of opts evs s j Exited] by (simp add: closing_def)
    ultimately show ?thesis using that(2) by (auto intro!: exI [of _ ?s])
  qed
  have selects: "\<exists>s'. (listener_step hpk control)\<^sup>*\<^sup>* s s' \<and> closing opts evs s' \<and> l_listen s' = Waiting i \<and> alive (l_workers s') = []"
    if "closing opts evs s" "l_listen s = Waiting i" "j < length (l_workers s)" "l_workers s ! j = Selecting" for s j
  proof -
    let ?s = "set_worker j Locking s"
    have step: "listener_step hpk control s ?s" by (rule Done) (use that in \<open>auto simp: closing_def\<close>)
    moreover have "closing opts evs ?s" using that listener_ok_step [OF step] by (simp add: closing_def)
    ultimately show ?thesis
      using exits [of ?s j] that by (auto intro: converse_rtranclp_into_rtranclp)
  qed
  show ?thesis
  proof (cases "alive (l_workers s) = []")
    case False
    then obtain j where j: "j < length (l_workers s)" "l_workers s ! j \<noteq> Exited"
      using alive_none [of "l_workers s"] by (metis in_set_conv_nth)
    show ?thesis
    proof (cases "l_workers s ! j")
      case (Handling event)
      have "event \<in> set evs"
        using listener_ok_worker [of opts evs s j Selecting] assms(1) j Handling
        by (auto simp: closing_def listener_ok_def)
      then obtain w r where r: "handle_event hpk control w event = Ret r" using assms(3) by blast
      let ?s = "set_worker j Selecting s\<lparr>l_handled := l_handled s @ [(event, w, r)]\<rparr>"
      have step: "listener_step hpk control s ?s"
        by (rule Handle) (use assms j Handling r in \<open>auto simp: closing_def\<close>)
      moreover have "closing opts evs ?s" using assms(1) listener_ok_step [OF step] by (simp add: closing_def)
      ultimately show ?thesis
        using selects [of ?s j] j assms(2) by (auto intro: converse_rtranclp_into_rtranclp)
    qed (use assms j exits selects in auto)
  qed (use assms in auto)
qed

lemma listener_returns:
  assumes "closing opts evs s" and "l_listen s = Waiting i \<or> l_listen s = Spawning (Suc i)"
    and "\<And>event. event \<in> set evs \<Longrightarrow> \<exists>w r. handle_event hpk control w event = Ret r"
  shows "\<exists>s'. (listener_step hpk control)\<^sup>*\<^sup>* s s' \<and> l_listen s' = Returned"
  using assms
proof (induction "opt_MaxWorkers opts - i" arbitrary: s i rule: less_induct)
  case less
  have spawn: "\<exists>s'. (listener_step hpk control)\<^sup>*\<^sup>* s s' \<and> l_listen s' = Returned"
    if "closing opts evs s" "l_listen s = Spawning (Suc i)" for s
  proof (cases "Suc i < opt_MaxWorkers opts")
    case True
    let ?s = "s\<lparr>l_workers := l_workers s @ [Selecting], l_listen := Waiting (Suc i)\<rparr>"
    have step: "listener_step hpk control s ?s"
      by (rule Spawn) (use that True in \<open>auto simp: closing_def listener_ok_def\<close>)
    have "closing opts evs ?s" using that(1) listener_ok_step [OF step] by (simp add: closing_def)
    then have "\<exists>s'. (listener_step hpk control)\<^sup>*\<^sup>* ?s s' \<and> l_listen s' = Returned"
      by (rule less.hyps [rotated]) (use True less.prems(3) in auto)
    with step show ?thesis by (blast intro: converse_rtranclp_into_rtranclp)
  next
    case False
    have "listener_step hpk control s (s\<lparr>l_listen := Returned\<rparr>)"
      by (rule Return) (use that False in \<open>auto simp: closing_def listener_ok_def\<close>)
    then show ?thesis by (auto intro!: exI [of _ "s\<lparr>l_listen := Returned\<rparr>"])
  qed
  show ?case
  proof (cases "l_listen s = Waiting i")
    case True
    from worker_exits [OF less.prems(1) True less.prems(3)] obtain s1
      where s1: "(listener_step hpk control)\<^sup>*\<^sup>* s s1" "closing opts evs s1" "l_listen s1 = Waiting i" "alive (l_workers s1) = []"
      by blast
    let ?s = "s1\<lparr>l_listen := Spawning (Suc i)\<rparr>"
    have step: "listener_step hpk control s1 ?s"
      by (rule Waited) (use s1 in \<open>auto simp: closing_def alive_none\<close>)
    then have "closing opts evs ?s" using s1(2) listener_ok_step [OF step] by (simp add: closing_def)
    then have "\<exists>s'. (listener_step hpk control)\<^sup>*\<^sup>* ?s s' \<and> l_listen s' = Returned" by (rule spawn) simp
    with s1(1) step show ?thesis by (meson rtranclp.rtrancl_into_rtrancl rtranclp_trans)
  qed (use less.prems spawn in blast)
qed

text \<open>
  C23. Shutdown is possible whenever \<open>Push\<close> is not blocked: from every reachable state in which the
  context is cancelled and no event is being sent, if the watcher's events can be handled without a
  panic, the run can be continued until \<open>Listen\<close> returns.
\<close>

theorem listener_shutdown_completes:
  assumes "(listener_step hpk control)\<^sup>*\<^sup>* (NewEventHandler opts evs) s"
    and "l_ctxDone s" "\<not> l_crashed s" "l_sending s = None"
    and "\<And>event. event \<in> set evs \<Longrightarrow> \<exists>w r. handle_event hpk control w event = Ret r"
  shows "\<exists>s'. (listener_step hpk control)\<^sup>*\<^sup>* s s' \<and> l_listen s' = Returned"
proof -
  have closing: "closing opts evs s" using listener_ok_reachable [OF assms(1)] assms by (simp add: closing_def)
  have first: ?thesis if "l_listen s = Spawning 0"
  proof (cases "0 < opt_MaxWorkers opts")
    case True
    let ?s = "s\<lparr>l_workers := l_workers s @ [Selecting], l_listen := Waiting 0\<rparr>"
    have step: "listener_step hpk control s ?s"
      by (rule Spawn) (use closing that True in \<open>auto simp: closing_def listener_ok_def\<close>)
    have "closing opts evs ?s" using closing listener_ok_step [OF step] by (simp add: closing_def)
    then have "\<exists>s'. (listener_step hpk control)\<^sup>*\<^sup>* ?s s' \<and> l_listen s' = Returned"
      by (rule listener_returns) (use assms(5) in auto)
    with step show ?thesis by (blast intro: converse_rtranclp_into_rtranclp)
  next
    case False
    have "listener_step hpk control s (s\<lparr>l_listen := Returned\<rparr>)"
      by (rule Return) (use closing that False in \<open>auto simp: closing_def listener_ok_def\<close>)
    then show ?thesis by (auto intro!: exI [of _ "s\<lparr>l_listen := Returned\<rparr>"])
  qed
  show ?thesis
  proof (cases "l_listen s")
    case (Spawning i)
    with first listener_returns [OF closing _ assms(5)] show ?thesis by (cases i) auto
  qed (use listener_returns [OF closing _ assms(5)] in auto)
qed

subsection \<open>What is reported\<close>

text \<open>
  The pod \<open>q\<close> was reported for the event on the files \<open>w\<close>: the event is the creation of a control file
  of one of the four kinds, \<open>q\<close> is made from the description that \<open>w\<close> holds of that file's pod, it is the
  same pod and well formed if that was, failed when the file is that of a system error, and otherwise
  what the update of the status computes on \<open>w\<close>.
\<close>

definition reported :: "string \<Rightarrow> pod_control \<Rightarrow> (pod \<Rightarrow> bool) \<Rightarrow> fs_event \<Rightarrow> fsys \<Rightarrow> pod \<Rightarrow> bool" where
  "reported hpk control well event w q =
     (\<exists>k f p. Op_Has event OpCreate \<and> ParseControlFilePath hpk (ev_path event) = Ret (k, f, False) \<and>
        pc_LoadFromDisk control w k = Ret (Inr p) \<and>
        p_meta q = p_meta p \<and> p_spec q = p_spec p \<and> (well p \<longrightarrow> well q) \<and>
        (if filepath_Ext f = ExtensionSysError then s_phase (p_status q) = Failed \<and> s_reason (p_status q) = ''SYSERROR''
         else filepath_Ext f \<in> {ExtensionIP, ExtensionJobID, ExtensionExitCode} \<and> pc_UpdateStatus control w p = Ret q))"

text \<open>The contract of a \<open>PodControl\<close>: updating the status keeps the pod's identity and well-formedness.\<close>

locale pod_controller =
  fixes control :: pod_control and well :: "pod \<Rightarrow> bool"
  assumes update_identity: "pc_UpdateStatus control w p = Ret q \<Longrightarrow> p_meta q = p_meta p \<and> p_spec q = p_spec p"
    and update_keeps: "pc_UpdateStatus control w p = Ret q \<Longrightarrow> well p \<Longrightarrow> well q"
    and error_keeps: "well p \<Longrightarrow> well (PodError w p reason message)"
begin

lemma handled_reported:
  assumes "handle_event hpk control w event = Ret (Some q)"
  shows "reported hpk control well event w q"
proof -
  from assms obtain k f where parsed: "Op_Has event OpCreate" "ParseControlFilePath hpk (ev_path event) = Ret (k, f, False)"
    by (auto simp: handle_event_def split: if_splits)
  show ?thesis
  proof (cases "filepath_Ext f = ExtensionSysError")
    case True
    with assms parsed obtain loaded where "pc_LoadFromDisk control w k = Ret loaded"
      "(case loaded of Inl err \<Rightarrow> SystemPanic err ''pod does not exist''
       | Inr pod \<Rightarrow> (case os_ReadFile w (SysErrorFilePath (pod_dir hpk k)) of
             Inl err \<Rightarrow> SystemPanic err ''failed to read file''
           | Inr reason \<Rightarrow> Ret (Some (PodError w pod ''SYSERROR'' ''Pod creation has failed'')))) = Ret (Some q)"
      by (auto simp: handle_event_def Let_def)
    then obtain p where p: "pc_LoadFromDisk control w k = Ret (Inr p)" "q = PodError w p ''SYSERROR'' ''Pod creation has failed''"
      by (cases loaded) (auto simp: SystemPanic_def split: sum.splits)
    then show ?thesis
      unfolding reported_def using parsed True error_keeps
      by (intro exI [of _ k] exI [of _ f] exI [of _ p]) (simp add: PodError_def set_condition_def)
  next
    case False
    with assms parsed obtain loaded where "pc_LoadFromDisk control w k = Ret loaded"
      "filepath_Ext f \<in> {ExtensionIP, ExtensionJobID, ExtensionExitCode}"
      "(case loaded of Inl err \<Rightarrow> Ret None
       | Inr pod \<Rightarrow> bind_outcome (pc_UpdateStatus control w pod) (\<lambda>pod'. Ret (Some pod'))) = Ret (Some q)"
      by (auto simp: handle_event_def Let_def split: if_splits)
    then obtain p where p: "pc_LoadFromDisk control w k = Ret (Inr p)" "pc_UpdateStatus control w p = Ret q"
      "filepath_Ext f \<in> {ExtensionIP, ExtensionJobID, ExtensionExitCode}"
      by (cases loaded) auto
    then show ?thesis
      unfolding reported_def using parsed False update_identity [OF p(2)] update_keeps [OF p(2)]
      by (intro exI [of _ k] exI [of _ f] exI [of _ p]) simp
  qed
qed

lemma run_reported:
  assumes "(listener_step hpk control)\<^sup>*\<^sup>* (NewEventHandler opts evs) s" and "(event, w, Some q) \<in> set (l_handled s)"
  shows "reported hpk control well event w q"
  using assms
proof (induction rule: rtranclp_induct)
  case base
  then show ?case by (simp add: NewEventHandler_def)
next
  case (step s s')
  from step.hyps(2) step.IH step.prems show ?case
    by cases (auto intro: handled_reported)
qed

end

text \<open>The control that \<open>NotifyPods\<close> of the provider passes to \<open>Listen\<close>.\<close>

definition hpk_pod_control :: "codec \<Rightarrow> string \<Rightarrow> pod_control" where
  "hpk_pod_control c hpk =
     \<lparr>pc_UpdateStatus = (\<lambda>w pod. UpdateStatusFromRuntime w hpk pod),
      pc_LoadFromDisk = (\<lambda>w k. LoadPodFromKey c hpk w k)\<rparr>"

interpretation hpk_control: pod_controller "hpk_pod_control c hpk" pod_ok for c hpk
proof
  show "p_meta q = p_meta p \<and> p_spec q = p_spec p" if "pc_UpdateStatus (hpk_pod_control c hpk) w p = Ret q" for w p q
    using that UpdateStatus_identity [of w hpk p q] by (simp add: hpk_pod_control_def)
  show "pod_ok q" if "pc_UpdateStatus (hpk_pod_control c hpk) w p = Ret q" "pod_ok p" for w p q
    using that UpdateStatus_keeps [of w hpk p q] by (simp add: hpk_pod_control_def)
qed (auto simp: hpk_pod_control_def intro: pod_ok_cong [THEN iffD2])

lemma LoadPodFromKey_read:
  assumes "LoadPodFromKey c (abs_path root) w k = Ret (Inr p)" "list_all name_ok root" "key_ok k"
  shows "\<exists>data. os_ReadFile w (abs_path (crd_elems root k)) = Inr data \<and> json_Unmarshal c data = Inr p"
  using assms EncodedJSONPath_abs [OF assms(2,3)]
  by (auto simp: LoadPodFromKey_def LoadPodFromFile_def SystemPanic_def split: sum.splits if_splits)

text \<open>
  C20. What is reported to Kubernetes, in any run and for any interleaving: a pod is reported only for the
  creation of an address, job-id, exit-code or system-error file, and if that is a file of the pod
  \<open>k\<close>, the reported pod is made from the description of \<open>k\<close> that was on disk when the event was handled,
  with its metadata and specification unchanged. A system error reports it as failed; otherwise
  it is reported with the status that the update computes on those same files, well formed if the
  description was.
\<close>

theorem listener_reports:
  assumes "(listener_step (abs_path root) (hpk_pod_control c (abs_path root)))\<^sup>*\<^sup>* (NewEventHandler opts evs) s"
    and "(event, w, Some q) \<in> set (l_handled s)"
    and "ev_path event = abs_path (root @ [key_namespace k, key_name k, ''controlfiles'', f])"
    and "list_all name_ok root" "root \<noteq> []" "key_ok k"
    and "nonspace (key_namespace k)" "nonspace (key_name k)" "control_name_ok f"
  shows "event \<in> set evs \<and> Op_Has event OpCreate \<and>
    (\<exists>data p. os_ReadFile w (abs_path (root @ [key_namespace k, key_name k, ''job'', ''pod.crd''])) = Inr data \<and>
       json_Unmarshal c data = Inr p \<and> p_meta q = p_meta p \<and> p_spec q = p_spec p \<and> (pod_ok p \<longrightarrow> pod_ok q) \<and>
       (if filepath_Ext f = ''.syserror'' then s_phase (p_status q) = Failed \<and> s_reason (p_status q) = ''SYSERROR''
        else filepath_Ext f \<in> {''.ip'', ''.jobid'', ''.exitCode''} \<and> UpdateStatusFromRuntime w (abs_path root) p = Ret q))"
proof -
  have "event \<in> set (map fst (l_handled s))" using assms(2) by force
  then have evs: "event \<in> set evs" using listener_ok_reachable [OF assms(1)] by (force simp: listener_ok_def)
  have "ev_path event = filepath_Join [ControlFileDir (pod_dir (abs_path root) k), f]"
    using assms(3,4,6,9) by (simp add: ControlFileDir_def pod_dir_def key_ok_def control_name_ok_def)
  then have "ParseControlFilePath (abs_path root) (ev_path event) = Ret (k, f, False)"
    using ParseControlFilePath_control [OF assms(4-9)] by simp
  with hpk_control.run_reported [OF assms(1,2)] obtain p where p: "Op_Has event OpCreate"
    "LoadPodFromKey c (abs_path root) w k = Ret (Inr p)" "p_meta q = p_meta p" "p_spec q = p_spec p" "pod_ok p \<longrightarrow> pod_ok q"
    "if filepath_Ext f = ExtensionSysError then s_phase (p_status q) = Failed \<and> s_reason (p_status q) = ''SYSERROR''
     else filepath_Ext f \<in> {ExtensionIP, ExtensionJobID, ExtensionExitCode} \<and> UpdateStatusFromRuntime w (abs_path root) p = Ret q"
    unfolding reported_def hpk_pod_control_def pod_control.simps by fastforce
  obtain data where "os_ReadFile w (abs_path (root @ [key_namespace k, key_name k, ''job'', ''pod.crd''])) = Inr data"
    "json_Unmarshal c data = Inr p"
    using LoadPodFromKey_read [OF p(2) assms(4,6)] by (auto simp: crd_elems_def job_elems_def)
  with evs p show ?thesis unfolding extension_defs by blast
qed

text \<open>The event that the watcher sends when the control file \<open>f\<close> of a pod appears.\<close>

definition creation :: "string \<Rightarrow> objkey \<Rightarrow> string \<Rightarrow> fs_event" where
  "creation hpk k f = \<lparr>ev_path = filepath_Join [ControlFileDir (pod_dir hpk k), f], ev_ops = [OpCreate]\<rparr>"

lemma handle_creation:
  assumes "list_all name_ok root" "root \<noteq> []" "key_ok k"
    and "nonspace (key_namespace k)" "nonspace (key_name k)" "control_name_ok f"
    and "filepath_Ext f \<in> {ExtensionIP, ExtensionJobID, ExtensionExitCode}"
    and "LoadPodFromKey c (abs_path root) w k = Ret (Inr pod)"
    and "UpdateStatusFromRuntime w (abs_path root) pod = Ret pod'"
  shows "handle_event (abs_path root) (hpk_pod_control c (abs_path root)) w (creation (abs_path root) k f) = Ret (Some pod')"
  using assms ParseControlFilePath_control [OF assms(1-6)]
  by (auto simp: handle_event_def creation_def Op_Has_def hpk_pod_control_def Let_def extension_defs)

text \<open>
  C7. From a control file to the phase that Kubernetes sees. When the IP, job-id or exit-code file
  of a pod appears, the pod's description is on disk and in a phase that is not final, and the
  control files decode, the handler reports the pod with exactly the phase that the specification
  derives from the control files, with every container status showing its control files.
\<close>

theorem control_file_event_phase:
  assumes "list_all name_ok root" "root \<noteq> []" "key_ok k"
    and "nonspace (key_namespace k)" "nonspace (key_name k)" "control_name_ok f"
    and "filepath_Ext f \<in> {ExtensionIP, ExtensionJobID, ExtensionExitCode}"
    and "LoadPodFromKey c (abs_path root) w k = Ret (Inr pod)" "pod_ok pod"
    and "s_phase (p_status pod) \<in> {Pending, Running, UnknownPhase}"
    and "\<forall>cs\<in>set (s_initContainerStatuses (p_status pod) @ s_containerStatuses (p_status pod)).
      control_files_ok w (dir_of (abs_path root) pod) (cs_name cs)"
  shows "\<exists>pod' vi vm.
    handle_event (abs_path root) (hpk_pod_control c (abs_path root)) w (creation (abs_path root) k f) = Ret (Some pod') \<and>
    views w (dir_of (abs_path root) pod) (s_initContainerStatuses (p_status pod)) = Ret vi \<and>
    views w (dir_of (abs_path root) pod) (s_containerStatuses (p_status pod)) = Ret vm \<and>
    s_phase (p_status pod') = next_phase (s_phase (p_status pod)) vi vm \<and>
    map (state_view \<circ> cs_state) (s_containerStatuses (p_status pod')) = vm"
  using UpdateStatus_next_phase [OF assms(9-11)] handle_creation [OF assms(1-8)] by blast

subsection \<open>Witnesses\<close>

definition demo_control :: pod_control where
  "demo_control = hpk_pod_control (one_codec demo_pod) (abs_path [''h''])"

definition demo_event :: fs_event where
  "demo_event = creation (abs_path [''h'']) (ObjectKeyFromObject demo_pod) ''main.exitCode''"

definition demo_options :: options where
  "demo_options = \<lparr>opt_MaxWorkers = 5, opt_MaxQueueSize = 20\<rparr>"

lemma demo_event_names:
  "list_all name_ok [''h'']" "nonspace (key_namespace (ObjectKeyFromObject demo_pod))"
  "nonspace (key_name (ObjectKeyFromObject demo_pod))" "control_name_ok ''main.exitCode''"
  "filepath_Ext ''main.exitCode'' \<in> {ExtensionIP, ExtensionJobID, ExtensionExitCode}"
  by (simp_all add: name_ok_def demo_key nonspace_def is_space_def control_name_ok_def filepath_Ext_def extension_defs)

lemma demo_control_files:
  "\<forall>cs\<in>set (s_initContainerStatuses (p_status demo_pod) @ s_containerStatuses (p_status demo_pod)).
     control_files_ok demo_run_fs (dir_of (abs_path [''h'']) demo_pod) (cs_name cs)"
  unfolding demo_dir by (auto simp: demo_pod_def name_ok_def intro!: demo_files_ok)

theorem control_file_event_phase_witness:
  "\<exists>pod' vi vm.
    handle_event (abs_path [''h'']) (hpk_pod_control (one_codec demo_pod) (abs_path [''h''])) demo_run_fs
      (creation (abs_path [''h'']) (ObjectKeyFromObject demo_pod) ''main.exitCode'') = Ret (Some pod') \<and>
    views demo_run_fs (dir_of (abs_path [''h'']) demo_pod) (s_initContainerStatuses (p_status demo_pod)) = Ret vi \<and>
    views demo_run_fs (dir_of (abs_path [''h'']) demo_pod) (s_containerStatuses (p_status demo_pod)) = Ret vm \<and>
    s_phase (p_status pod') = next_phase (s_phase (p_status demo_pod)) vi vm \<and>
    map (state_view \<circ> cs_state) (s_containerStatuses (p_status pod')) = vm"
  by (rule control_file_event_phase [OF demo_event_names(1) _ demo_key_ok demo_event_names(2-5) demo_load demo_pod_ok(1) _ demo_control_files])
    (simp_all add: demo_pod_ok(2))

lemma demo_handle: "\<exists>q. handle_event (abs_path [''h'']) demo_control demo_run_fs demo_event = Ret (Some q)"
proof -
  obtain q where "UpdateStatusFromRuntime demo_run_fs (abs_path [''h'']) demo_pod = Ret q"
    using UpdateStatus_next_phase [OF demo_pod_ok(1) _ demo_control_files] demo_pod_ok(2) by auto
  from handle_creation [OF demo_event_names(1) _ demo_key_ok demo_event_names(2-5) demo_load this] show ?thesis
    unfolding demo_control_def demo_event_def by auto
qed

text \<open>The event is pushed, received and handled.\<close>

lemma demo_listener_run:
  assumes "handle_event (abs_path [''h'']) demo_control demo_run_fs demo_event = Ret (Some q)"
  shows "(listener_step (abs_path [''h'']) demo_control)\<^sup>*\<^sup>* (NewEventHandler demo_options [demo_event])
    ((filled demo_options [demo_event] 1)\<lparr>l_Queue := [], l_handled := [(demo_event, demo_run_fs, Some q)]\<rparr>)"
proof -
  let ?a = "filled demo_options [demo_event] 1"
  let ?b = "set_worker 0 (Handling demo_event) ?a\<lparr>l_Queue := []\<rparr>"
  let ?c = "set_worker 0 Selecting ?b\<lparr>l_handled := l_handled ?b @ [(demo_event, demo_run_fs, Some q)]\<rparr>"
  have "listener_step (abs_path [''h'']) demo_control ?a ?b"
    by (rule Receive) (simp_all add: filled_def NewEventHandler_def)
  moreover have "listener_step (abs_path [''h'']) demo_control ?b ?c"
    by (rule Handle [OF _ _ _ assms]) (simp_all add: filled_def NewEventHandler_def set_worker_def)
  moreover have "?c = (filled demo_options [demo_event] 1)\<lparr>l_Queue := [], l_handled := [(demo_event, demo_run_fs, Some q)]\<rparr>"
    by (simp add: filled_def NewEventHandler_def set_worker_def)
  moreover have "(listener_step (abs_path [''h'']) demo_control)\<^sup>*\<^sup>* (NewEventHandler demo_options [demo_event]) ?a"
    by (rule filled_reachable) (simp_all add: demo_options_def)
  ultimately show ?thesis by (metis (no_types, lifting) rtranclp.rtrancl_into_rtrancl)
qed

lemma demo_handled:
  "l_handled ((filled demo_options [demo_event] 1)\<lparr>l_Queue := [], l_handled := [(demo_event, demo_run_fs, Some q)]\<rparr>) \<noteq> []"
  by simp

theorem listener_reports_witness:
  "\<exists>q. handle_event (abs_path [''h'']) demo_control demo_run_fs demo_event = Ret (Some q) \<and>
     p_meta q = p_meta demo_pod \<and> UpdateStatusFromRuntime demo_run_fs (abs_path [''h'']) demo_pod = Ret q"
proof -
  let ?k = "ObjectKeyFromObject demo_pod"
  obtain q where q: "handle_event (abs_path [''h'']) demo_control demo_run_fs demo_event = Ret (Some q)"
    using demo_handle by blast
  have path: "ev_path demo_event = abs_path ([''h''] @ [key_namespace ?k, key_name ?k, ''controlfiles'', ''main.exitCode''])"
    using demo_event_names(1,4) demo_key_ok
    by (simp add: demo_event_def creation_def ControlFileDir_def pod_dir_def key_ok_def control_name_ok_def)
  have load: "os_ReadFile demo_run_fs (abs_path ([''h''] @ [key_namespace ?k, key_name ?k, ''job'', ''pod.crd''])) = Inr ''{pod}''"
    by code_simp
  from listener_reports [OF demo_listener_run [OF q, unfolded demo_control_def] _ path demo_event_names(1) _ demo_key_ok demo_event_names(2-4), of demo_run_fs q]
    load q show ?thesis by (auto simp: one_codec_def filepath_Ext_def)
qed

theorem listener_invariant_witness:
  "\<exists>s :: listener. l_handled s \<noteq> [] \<and> length (alive (l_workers s)) \<le> 1 \<and>
     map fst (l_handled s) @ in_hand (alive (l_workers s)) @ l_Queue s @ sending_list (l_sending s)
       @ l_dropped s @ l_input s = [demo_event]"
proof -
  obtain q where "handle_event (abs_path [''h'']) demo_control demo_run_fs demo_event = Ret (Some q)"
    using demo_handle by blast
  note inv = listener_invariant [OF demo_listener_run [OF this]]
  show ?thesis
    by (rule exI [of _ "(filled demo_options [demo_event] 1)\<lparr>l_Queue := [], l_handled := [(demo_event, demo_run_fs, Some q)]\<rparr>"],
        intro conjI) (use inv in simp_all)
qed

theorem listener_shutdown_stuck_witness:
  "\<exists>s. (listener_step (abs_path [''h'']) demo_control)\<^sup>*\<^sup>* (NewEventHandler demo_options (replicate 21 demo_event)) s \<and>
     l_ctxDone s \<and> \<not> l_crashed s \<and>
     (\<forall>s'. (listener_step (abs_path [''h'']) demo_control)\<^sup>*\<^sup>* s s' \<longrightarrow> l_listen s' \<noteq> Returned \<and> \<not> l_Finished s')"
  by (rule listener_shutdown_stuck) (simp_all add: demo_options_def)

theorem listener_shutdown_completes_witness:
  "\<exists>s s'. (listener_step (abs_path [''h'']) demo_control)\<^sup>*\<^sup>* s s' \<and> l_input s = [demo_event] \<and> l_listen s' = Returned"
proof -
  let ?s = "NewEventHandler demo_options [demo_event]"
  have cancel: "(listener_step (abs_path [''h'']) demo_control)\<^sup>*\<^sup>* ?s (?s\<lparr>l_ctxDone := True\<rparr>)"
    by (intro r_into_rtranclp Cancel) (simp add: NewEventHandler_def)
  have "\<exists>s'. (listener_step (abs_path [''h'']) demo_control)\<^sup>*\<^sup>* (?s\<lparr>l_ctxDone := True\<rparr>) s' \<and> l_listen s' = Returned"
    by (rule listener_shutdown_completes [OF cancel]) (use demo_handle in \<open>auto simp: NewEventHandler_def\<close>)
  moreover have "l_input (?s\<lparr>l_ctxDone := True\<rparr>) = [demo_event]" by (simp add: NewEventHandler_def)
  ultimately show ?thesis by blast
qed

end
