(* ===== verification/HPK_Logs.thy ===== *)
theory HPK_Logs
  imports HPK_K8s
begin

text \<open>
  Package \<open>pkg/container\<close> (\<open>logs.go\<close>): the tail of a container's log, read backwards in pages. The
  goroutine that reads and the loop that collects are one after the other: the channel between them
  is unbuffered, and what the reader would send after the collector has hung up is never received.
  The theorem shows which lines are returned and in which order, also when reading a page fails. Which
  pages cannot be read is the parameter \<open>pread_fault\<close>, by offset. The rest of the file (the lines of a
  container log with time, device and type) is the second part; \<open>time.Format\<close> and \<open>time.Parse\<close> with
  the layout \<open>LogTimeFormat\<close> are its parameters \<open>formatTime\<close> and \<open>parseTime\<close>.
\<close>

text \<open>
  \<open>NewReverseReader\<close>: the first offset, or the error of \<open>Stat\<close>; seeking to the end of an open file does not
  fail. \<open>Read\<close>: a page and the next offset, \<open>io.EOF\<close> before the first page, or the error of the read.
\<close>

definition start_offset :: "nat \<Rightarrow> string \<Rightarrow> int" where
  "start_offset pageSize content =
     (let remainder = length content mod pageSize; startOffset = int (length content) - int remainder
      in if startOffset < 0 then 0 else startOffset)"

definition NewReverseReader :: "nat \<Rightarrow> fsys \<Rightarrow> string \<Rightarrow> string \<Rightarrow> go_error + int" where
  "NewReverseReader pageSize w path content =
     (case faults w SysStat path of
        Some e \<Rightarrow> Inl (OsError e path)
      | None \<Rightarrow> Inr (start_offset pageSize content))"

definition io_EOF :: string where "io_EOF = ''EOF''"

definition ReverseReader_Read :: "nat \<Rightarrow> (int \<Rightarrow> go_error option) \<Rightarrow> string \<Rightarrow> int \<Rightarrow> go_error + string \<times> int" where
  "ReverseReader_Read readSize pread_fault content offset =
     (if offset < 0 then Inl (Wrapped (Sentinel io_EOF) ''at beginning of file'')
      else case pread_fault offset of
        Some err \<Rightarrow>
          if \<not> errors_Is_sentinel err io_EOF then Inl err
          else Inr (take readSize (drop (nat offset) content), offset - int readSize)
      | None \<Rightarrow> Inr (take readSize (drop (nat offset) content), offset - int readSize))"

text \<open>The batches that the reading goroutine sends. The page size of an operating system is positive.\<close>

function tail_batches :: "nat \<Rightarrow> (int \<Rightarrow> go_error option) \<Rightarrow> string \<Rightarrow> int \<Rightarrow> string \<Rightarrow> string list list" where
  "tail_batches pageSize pread_fault content offset leftover =
     (if pageSize = 0 then []
      else case ReverseReader_Read pageSize pread_fault content offset of
        Inl err \<Rightarrow> if errors_Is_sentinel err io_EOF then [[leftover]] else []
      | Inr (s, offset') \<Rightarrow>
          let line = split_char CHR 0x0A (s @ leftover)
          in (if length line > 1 then [tl line] else []) @ tail_batches pageSize pread_fault content offset' (hd line))"
  by pat_completeness auto
termination
  by (relation "measure (\<lambda>(pageSize, pread_fault, content, offset, leftover). nat (offset + int pageSize))")
    (auto simp: ReverseReader_Read_def split: if_splits option.splits)

declare tail_batches.simps [simp del]

definition nonempty_rev :: "string list \<Rightarrow> string list" where
  "nonempty_rev batch = filter (\<lambda>l. l \<noteq> []) (rev batch)"

fun collect_tail :: "nat \<Rightarrow> string list \<Rightarrow> string list list \<Rightarrow> string list" where
  "collect_tail tail tailLog [] = tailLog"
| "collect_tail tail tailLog (batch # batches) =
     (let tailLog' = tailLog @ nonempty_rev batch
      in if length tailLog' \<ge> tail then tailLog' else collect_tail tail tailLog' batches)"

text \<open>A directory can be opened, but reading it fails and nothing is sent.\<close>

definition GetTailLog :: "nat \<Rightarrow> (int \<Rightarrow> go_error option) \<Rightarrow> fsys \<Rightarrow> string \<Rightarrow> nat \<Rightarrow> go_error + string list" where
  "GetTailLog pageSize pread_fault w path tail =
     (case os_Open w path of
        Inl err \<Rightarrow> Inl err
      | Inr (File content m t) \<Rightarrow>
          (case NewReverseReader pageSize w path content of
             Inl err \<Rightarrow> Inl err
           | Inr offset \<Rightarrow> Inr (collect_tail tail [] (tail_batches pageSize pread_fault content offset [])))
      | Inr _ \<Rightarrow> (case faults w SysStat path of Some e \<Rightarrow> Inl (OsError e path) | None \<Rightarrow> Inr []))"

subsection \<open>The lines of the tail\<close>

lemma split_char_hd:
  "split_char c (x @ y) = split_char c (x @ hd (split_char c y)) @ tl (split_char c y)"
proof (induction x)
  case Nil
  have "c \<notin> set (hd (split_char c y))" by (rule split_char_elem [of _ _ y]) simp
  then show ?case by (simp add: split_char_none)
next
  case (Cons a x)
  then show ?case by (auto split: list.splits)
qed

lemma tail_batches_lines:
  assumes "0 < pageSize" and "int pageSize dvd offset" and "- int pageSize \<le> offset" and "CHR 0x0A \<notin> set leftover"
    and "bad = (\<lambda>_. None)"
  shows "concat (map nonempty_rev (tail_batches pageSize bad content offset leftover)) =
    rev (filter (\<lambda>l. l \<noteq> []) (split_char CHR 0x0A (take (nat (offset + int pageSize)) content @ leftover)))"
  using assms
proof (induction pageSize bad content offset leftover rule: tail_batches.induct)
  case (1 pageSize bad content offset leftover)
  show ?case
  proof (cases "offset < 0")
    case True
    with "1.prems" have "offset = - int pageSize"
      by (smt (verit) dvd_minus_iff zdvd_imp_le)
    with True "1.prems"(1,4) show ?thesis
      by (subst tail_batches.simps) (simp add: ReverseReader_Read_def io_EOF_def nonempty_rev_def split_char_none)
  next
    case False
    let ?page = "take pageSize (drop (nat offset) content)"
    let ?line = "split_char CHR 0x0A (?page @ leftover)"
    have off: "take (nat (offset + int pageSize)) content = take (nat offset) content @ ?page"
      using False by (simp add: nat_add_distrib take_add)
    have next_off: "int pageSize dvd offset - int pageSize" "- int pageSize \<le> offset - int pageSize"
      using "1.prems" False by auto
    have hd_line: "CHR 0x0A \<notin> set (hd ?line)" by (rule split_char_elem [of _ _ "?page @ leftover"]) simp
    have "concat (map nonempty_rev (tail_batches pageSize bad content (offset - int pageSize) (hd ?line))) =
      rev (filter (\<lambda>l. l \<noteq> []) (split_char CHR 0x0A (take (nat offset) content @ hd ?line)))"
      using "1.IH" [of "(?page, offset - int pageSize)" ?page "offset - int pageSize" ?line] "1.prems" False next_off hd_line
      by (simp add: ReverseReader_Read_def)
    moreover have "concat (map nonempty_rev (if 1 < length ?line then [tl ?line] else [])) = rev (filter (\<lambda>l. l \<noteq> []) (tl ?line))"
      by (cases ?line) (auto simp: nonempty_rev_def rev_filter)
    ultimately show ?thesis
      using "1.prems"(1,5) False
      by (subst tail_batches.simps)
        (simp add: ReverseReader_Read_def Let_def off split_char_hd [of _ "take (nat offset) content" "?page @ leftover"])
  qed
qed

lemma start_offset_page:
  assumes "0 < pageSize"
  shows "int pageSize dvd start_offset pageSize content"
    and "0 \<le> start_offset pageSize content"
    and "length content \<le> nat (start_offset pageSize content + int pageSize)"
proof -
  have eq: "start_offset pageSize content = int (length content - length content mod pageSize)"
    using leD [OF mod_less_eq_dividend [of "length content" pageSize]] by (simp add: start_offset_def Let_def of_nat_diff)
  show "int pageSize dvd start_offset pageSize content" unfolding eq
    by (simp add: minus_mod_eq_mult_div del: of_nat_diff)
  show "0 \<le> start_offset pageSize content" unfolding eq by simp
  have "length content mod pageSize < pageSize" using assms by simp
  then show "length content \<le> nat (start_offset pageSize content + int pageSize)" unfolding eq by linarith
qed

lemma collect_tail_prefix:
  "prefix (collect_tail tail acc bs) (acc @ concat (map nonempty_rev bs)) \<and>
   min tail (length (acc @ concat (map nonempty_rev bs))) \<le> length (collect_tail tail acc bs)"
proof (induction bs arbitrary: acc)
  case (Cons b bs)
  from Cons [of "acc @ nonempty_rev b"] show ?case by (auto simp: Let_def)
qed simp

text \<open>A page that cannot be read cuts the batches short.\<close>

lemma tail_batches_fault:
  "prefix (tail_batches pageSize bad content offset leftover) (tail_batches pageSize (\<lambda>_. None) content offset leftover)"
proof (induction pageSize bad content offset leftover rule: tail_batches.induct)
  case (1 pageSize bad content offset leftover)
  let ?page = "take pageSize (drop (nat offset) content)" and ?off = "offset - int pageSize"
  show ?case
  proof (cases "pageSize = 0 \<or> offset < 0 \<or> (\<exists>err. bad offset = Some err \<and> \<not> errors_Is_sentinel err io_EOF)")
    case True
    then show ?thesis
      by (subst (1 2) tail_batches.simps) (auto simp: ReverseReader_Read_def)
  next
    case False
    then show ?thesis
      using "1.IH" [of "(?page, ?off)" ?page ?off]
      by (subst (1 2) tail_batches.simps) (auto simp: ReverseReader_Read_def Let_def split: option.splits)
  qed
qed

text \<open>
  C22. The tail of a log: \<open>GetTailLog\<close> returns the newest of the lines that are not empty, the newest
  first, and at least as many as were asked for (or all), whatever the size of a page is and
  wherever the pages cut the lines. A page that cannot be read only makes the answer shorter; an error
  of \<open>Stat\<close> is returned.
\<close>

theorem GetTailLog_newest_first:
  assumes "0 < pageSize" and "os_Open w path = Inr (File content m t)"
  shows "case faults w SysStat path of
      Some e \<Rightarrow> GetTailLog pageSize pread_fault w path tail = Inl (OsError e path)
    | None \<Rightarrow> \<exists>ls. GetTailLog pageSize pread_fault w path tail = Inr ls \<and>
        prefix ls (rev (filter (\<lambda>l. l \<noteq> []) (split_char CHR 0x0A content))) \<and>
        ((\<forall>offset. pread_fault offset = None) \<longrightarrow>
           min tail (length (filter (\<lambda>l. l \<noteq> []) (split_char CHR 0x0A content))) \<le> length ls)"
proof (cases "faults w SysStat path")
  case None
  let ?full = "tail_batches pageSize (\<lambda>_. None) content (start_offset pageSize content) []"
  let ?bs = "tail_batches pageSize pread_fault content (start_offset pageSize content) []"
  have lines: "concat (map nonempty_rev ?full) = rev (filter (\<lambda>l. l \<noteq> []) (split_char CHR 0x0A content))"
    using tail_batches_lines [of pageSize "start_offset pageSize content" "[]" "\<lambda>_. None" content]
      start_offset_page [OF assms(1), of content] assms(1) by simp
  have "prefix (concat (map nonempty_rev ?bs)) (concat (map nonempty_rev ?full))"
    using tail_batches_fault [of pageSize pread_fault content "start_offset pageSize content" "[]"] by (auto simp: prefix_def)
  then have "prefix (collect_tail tail [] ?bs) (rev (filter (\<lambda>l. l \<noteq> []) (split_char CHR 0x0A content)))"
    using collect_tail_prefix [of tail "[]" ?bs] prefix_order.trans unfolding lines by fastforce
  moreover have "?bs = ?full" if "\<forall>offset. pread_fault offset = None"
  proof -
    have "pread_fault = (\<lambda>_. None)" using that by blast
    then show ?thesis by simp
  qed
  ultimately show ?thesis
    using None assms(2) collect_tail_prefix [of tail "[]" ?full] by (auto simp: GetTailLog_def NewReverseReader_def lines)
qed (use assms(2) in \<open>simp add: GetTailLog_def NewReverseReader_def\<close>)

definition demo_log_fs :: fsys where
  "demo_log_fs = demo_fs\<lparr>entries := [([''log''], File (''one'' @ [CHR 0x0A] @ ''two'' @ [CHR 0x0A, CHR 0x0A] @ ''three'' @ [CHR 0x0A]) 420 0)]\<rparr>"

lemma demo_log_open:
  "os_Open demo_log_fs ''/log'' = Inr (File (''one'' @ [CHR 0x0A] @ ''two'' @ [CHR 0x0A, CHR 0x0A] @ ''three'' @ [CHR 0x0A]) 420 0)"
  "GetTailLog 8 (\<lambda>_. None) demo_log_fs ''/log'' 1 = Inr [''three'']"
  "GetTailLog 4096 (\<lambda>_. None) demo_log_fs ''/log'' 1 = Inr [''three'', ''two'']"
  by code_simp+

theorem GetTailLog_newest_first_witness:
  "\<exists>ls. GetTailLog 4096 (\<lambda>_. None) demo_log_fs ''/log'' 1 = Inr ls \<and> prefix ls [''three'', ''two'', ''one''] \<and> 1 \<le> length ls"
proof -
  have "faults demo_log_fs SysStat ''/log'' = None" by (simp add: demo_log_fs_def demo_fs_def)
  then show ?thesis using GetTailLog_newest_first [OF _ demo_log_open(1), of 4096 "\<lambda>_. None" 1] by simp
qed

subsection \<open>Log lines\<close>

definition PartialLogType :: string where "PartialLogType = ''P''"
definition FullLogType :: string where "FullLogType = ''F''"
definition ANSIEscapeResetCode :: string where "ANSIEscapeResetCode = CHR 0x1B # ''[0m''"

record log_options =
  lo_Details :: bool
  lo_Follow :: bool
  lo_Since :: gotime
  lo_Until :: gotime
  lo_Tail :: int
  lo_Timestamps :: bool
  lo_Colors :: bool
  lo_Multi :: bool
  lo_UseName :: bool

record log_line =
  ll_Device :: string
  ll_ParseLogType :: string
  ll_Time :: gotime
  ll_Msg :: string
  ll_CID :: string
  ll_CName :: string
  ll_ColorID :: int

text \<open>Go's remainder has the sign of the dividend, and a key that is not in the map gives the empty string.\<close>

definition getColor :: "int \<Rightarrow> string" where
  "getColor colorID =
     (let colors = [(0, ''[37m''), (1, ''[31m''), (2, ''[33m''), (3, ''[34m''), (4, ''[35m''), (5, ''[36m''), (6, ''[32m'')];
          key = (if colorID < 0 then - ((- colorID) mod int (length colors)) else colorID mod int (length colors))
      in case map_of colors key of None \<Rightarrow> [] | Some code \<Rightarrow> CHR 0x1B # code)"

definition LogLine_colorize :: "log_line \<Rightarrow> string \<Rightarrow> string" where
  "LogLine_colorize l prefx = getColor (ll_ColorID l) @ prefx @ ll_Msg l @ ANSIEscapeResetCode"

definition LogLine_String :: "(gotime \<Rightarrow> string) \<Rightarrow> log_line \<Rightarrow> log_options \<Rightarrow> string" where
  "LogLine_String formatTime l options =
     (let out = (if lo_Multi options then
                   (if lo_UseName options then ll_CName l @ '' ''
                    else (if length (ll_CID l) > 12 then take 12 (ll_CID l) else ll_CID l) @ '' '')
                 else []);
          out = (if lo_Timestamps options then out @ formatTime (ll_Time l) @ '' '' else out)
      in if lo_Colors options then LogLine_colorize l out else out @ ll_Msg l)"

text \<open>The zero time is before every other time.\<close>

definition time_Before :: "gotime \<Rightarrow> gotime \<Rightarrow> bool" where
  "time_Before a b =
     (case (a, b) of
        (None, None) \<Rightarrow> False | (None, Some _) \<Rightarrow> True | (Some _, None) \<Rightarrow> False | (Some x, Some y) \<Rightarrow> x < y)"

definition LogLine_Since :: "log_line \<Rightarrow> gotime \<Rightarrow> bool" where
  "LogLine_Since l since = (time_Before since (ll_Time l) \<or> since = None)"

definition LogLine_Until :: "log_line \<Rightarrow> gotime \<Rightarrow> bool" where
  "LogLine_Until l until = (time_Before (ll_Time l) until \<or> until = None)"

definition NewLogLine :: "(string \<Rightarrow> go_error + gotime) \<Rightarrow> string \<Rightarrow> go_error + log_line" where
  "NewLogLine parseTime line =
     (case split_char CHR '' '' line of
        t # device # ty # msg # msgs \<Rightarrow>
          (case parseTime t of
             Inl err \<Rightarrow> Inl (Wrapped err (''unable to convert time '' @ t @ '' from container log''))
           | Inr logTime \<Rightarrow>
               Inr \<lparr>ll_Device = device, ll_ParseLogType = ty, ll_Time = logTime,
                 ll_Msg = strings_Join (msg # msgs) '' '', ll_CID = [], ll_CName = [], ll_ColorID = 0\<rparr>)
      | _ \<Rightarrow> Inl (Message (line @ '' is not a valid container log line'')))"

definition LogLine_Partial :: "log_line \<Rightarrow> bool" where
  "LogLine_Partial l = (ll_ParseLogType l = PartialLogType)"

text \<open>The two writers with what they have received so far; \<open>None\<close> is a nil writer.\<close>

definition LogLine_Write :: "(gotime \<Rightarrow> string) \<Rightarrow> log_line \<Rightarrow> string option \<Rightarrow> string option \<Rightarrow> log_options \<Rightarrow>
    string option \<times> string option" where
  "LogLine_Write formatTime l stdout stderr logOpts =
     (let text = LogLine_String formatTime l logOpts @ (if LogLine_Partial l then [] else [CHR 0x0A])
      in if ll_Device l = ''stdout'' then (map_option (\<lambda>b. b @ text) stdout, stderr)
         else if ll_Device l = ''stderr'' then (stdout, map_option (\<lambda>b. b @ text) stderr)
         else (stdout, stderr))"

lemma NewLogLine_fields:
  assumes "CHR '' '' \<notin> set t" "CHR '' '' \<notin> set device" "CHR '' '' \<notin> set ty" "parseTime t = Inr tm"
  shows "NewLogLine parseTime (t @ '' '' @ device @ '' '' @ ty @ '' '' @ msg) =
    Inr \<lparr>ll_Device = device, ll_ParseLogType = ty, ll_Time = tm, ll_Msg = msg, ll_CID = [], ll_CName = [], ll_ColorID = 0\<rparr>"
proof -
  have "split_char CHR '' '' (t @ '' '' @ device @ '' '' @ ty @ '' '' @ msg) = t # device # ty # split_char CHR '' '' msg"
    using assms by (simp add: split_char_append split_char_none)
  moreover obtain m ms where "split_char CHR '' '' msg = m # ms" by (cases "split_char CHR '' '' msg") auto
  moreover from this have "strings_Join (m # ms) '' '' = msg" using Join_split_char [of "CHR '' ''" msg] by simp
  ultimately show ?thesis using assms(4) by (simp add: NewLogLine_def)
qed

text \<open>
  A line of a container log and its rendering: a line with time, device, type and text is read back
  field by field, also when the text has spaces, and printed again with its time it gives the line
  without device and type.
\<close>

theorem LogLine_roundtrip:
  assumes "CHR '' '' \<notin> set (formatTime tm)" "CHR '' '' \<notin> set device" "CHR '' '' \<notin> set ty"
    and "parseTime (formatTime tm) = Inr tm"
    and "lo_Timestamps options" "\<not> lo_Colors options" "\<not> lo_Multi options"
  shows "\<exists>l. NewLogLine parseTime (formatTime tm @ '' '' @ device @ '' '' @ ty @ '' '' @ msg) = Inr l \<and>
    ll_Device l = device \<and> ll_ParseLogType l = ty \<and> ll_Msg l = msg \<and>
    LogLine_String formatTime l options = formatTime tm @ '' '' @ msg"
  using NewLogLine_fields [of "formatTime tm" device ty parseTime tm msg] assms by (simp add: LogLine_String_def)

end
