(* ===== verification/HPK_Provider.thy ===== *)
theory HPK_Provider
  imports HPK_PodHandler HPK_Events HPK_Logs
begin

text \<open>
  Package \<open>provider\<close>: the operations that the Virtual Kubelet calls (\<open>provider.go\<close>), the node object
  (\<open>node.go\<close>) and the admission webhooks (\<open>crd-mutators.go\<close>). \<open>NewVirtualK8S\<close> starts the provider
  on the directory that an earlier run left: it moves the pods without a description out of the way
  and watches the others. The state \<open>provider\<close> is the configuration, the state of the pod handler
  and what was reported through \<open>updatedPod\<close>. The remote executor and \<open>goInfo\<close> are parameters. The
  lemmas show that the start always comes to an end and loses no archived pod, what it watches, which
  updates are taken over, what the queries return, and what the webhooks change.
\<close>

subsection \<open>Starting on an existing directory\<close>

record init_config =
  ic_InternalIP :: string
  ic_DaemonPort :: int
  ic_BuildVersion :: string
  ic_FSPollingInterval :: int

definition errors_Is_exist :: "go_error \<Rightarrow> bool" where
  "errors_Is_exist err = (errors_Is_errno err EEXIST \<or> errors_Is_errno err ENOTEMPTY)"

text \<open>
  The loop at the label \<open>retry\<close>: \<open>secs i\<close> is the reading of \<open>time.Now().Second()\<close> in turn \<open>i\<close>. A
  result \<open>None\<close> would be a loop that never ends.
\<close>

partial_function (option) archive_retry :: "(nat \<Rightarrow> nat) \<Rightarrow> nat \<Rightarrow> string \<Rightarrow> string \<Rightarrow> fsys \<Rightarrow>
    (go_error + string \<times> fsys) option" where
  "archive_retry secs i path archivedPodPath w =
     (case os_Rename path archivedPodPath w of
        Inr w' \<Rightarrow> Some (Inr (archivedPodPath, w'))
      | Inl err \<Rightarrow>
          if errors_Is_exist err
          then archive_retry secs (Suc i) path (archivedPodPath @ ''-'' @ strconv_Itoa (int (secs i))) w
          else Some (Inl (Wrapped err ''moving error of corrupted pod'')))"

declare archive_retry.simps [code]

definition archive_pod :: "(nat \<Rightarrow> nat) \<Rightarrow> string \<Rightarrow> string \<Rightarrow> fsys \<Rightarrow> ((go_error + string) \<times> fsys) option" where
  "archive_pod secs hpk path w =
     (let archivedPodPath = strings_ReplaceAll path hpk (CorruptedDir hpk);
          archivedNamespacePath = filepath_Dir archivedPodPath
      in case os_MkdirAll archivedNamespacePath PodGlobalDirectoryPermissions w of
           (Some err, w1) \<Rightarrow> Some (Inl (Wrapped err ''basepath error''), w1)
         | (None, w1) \<Rightarrow>
             map_option (\<lambda>r. case r of Inl err \<Rightarrow> (Inl err, w1) | Inr (dst, w2) \<Rightarrow> (Inr dst, w2))
               (archive_retry secs 0 path archivedPodPath w1))"

fun archive_all :: "(nat \<Rightarrow> nat) \<Rightarrow> string \<Rightarrow> string list \<Rightarrow> fsys \<Rightarrow> ((go_error + string list) \<times> fsys) option" where
  "archive_all secs hpk [] w = Some (Inr [], w)"
| "archive_all secs hpk (path # paths) w =
     (case archive_pod secs hpk path w of
        None \<Rightarrow> None
      | Some (Inl err, w') \<Rightarrow> Some (Inl err, w')
      | Some (Inr dst, w') \<Rightarrow>
          map_option (\<lambda>(r, w''). (map_sum id ((#) dst) r, w'')) (archive_all secs hpk paths w'))"

definition collect_corrupted :: "fsys \<Rightarrow> string \<Rightarrow> string list \<Rightarrow> go_error option \<times> string list" where
  "collect_corrupted w podpath corruptedPods =
     (None, if fst (PodEnvironmentIsOK w podpath) then corruptedPods else corruptedPods @ [podpath])"

text \<open>The corrupted pods are found first and moved afterwards; the result is where they went.\<close>

definition archive_corrupted :: "(nat \<Rightarrow> nat) \<Rightarrow> string \<Rightarrow> fsys \<Rightarrow> ((go_error + string list) \<times> fsys) outcome option" where
  "archive_corrupted secs hpk w =
     (case WalkPodDirectories w hpk (collect_corrupted w) [] of
        Panic m \<Rightarrow> Some (Panic m)
      | Ret (Some err, _) \<Rightarrow> Some (Ret (Inl (Wrapped err ''pod scanning has failed''), w))
      | Ret (None, corruptedPods) \<Rightarrow> map_option Ret (archive_all secs hpk corruptedPods w))"

text \<open>The watches are restored on the directories of the pods; any error ends the start.\<close>

definition restore_watchers :: "(fsys \<Rightarrow> string \<Rightarrow> 'w \<Rightarrow> go_error option \<times> 'w) \<Rightarrow> string \<Rightarrow> fsys \<Rightarrow> 'w \<Rightarrow>
    (go_error option \<times> 'w) outcome" where
  "restore_watchers add hpk w watcher =
     bind_outcome (WalkPodDirectories w hpk (add w) watcher) (\<lambda>(err, watcher').
       Ret (map_option (\<lambda>e. Wrapped e ''failed to restore watchers'') err, watcher'))"

text \<open>
  \<open>NewVirtualK8S\<close> for any implementation of the interface \<open>FileWatcher\<close>: \<open>newPolling\<close> is
  \<open>NewPollingWatcher\<close>, \<open>newEvent\<close> what \<open>NewEventWatcher\<close> returns, \<open>add\<close> the method \<open>Add\<close>. The result
  is the configuration, the HPK path, the pause image and the watcher.
\<close>

definition NewVirtualK8S :: "proc \<Rightarrow> host_env \<Rightarrow> (nat \<Rightarrow> nat) \<Rightarrow> (int \<Rightarrow> 'w) \<Rightarrow> (go_error + 'w) \<Rightarrow>
    (fsys \<Rightarrow> string \<Rightarrow> 'w \<Rightarrow> go_error option \<times> 'w) \<Rightarrow> init_config \<Rightarrow> host \<Rightarrow>
    ((go_error + init_config \<times> string \<times> string \<times> 'w) \<times> host) outcome option" where
  "NewVirtualK8S proc env secs newPolling newEvent add config h =
     (case (if ic_FSPollingInterval config > 0 then Inr (newPolling (ic_FSPollingInterval config)) else newEvent) of
        Inl err \<Rightarrow> Some (Ret (Inl (Wrapped err ''add watcher on fsnotify failed''), h))
      | Inr watcher \<Rightarrow>
          (case Initialize proc env h of
             Panic m \<Rightarrow> Some (Panic m)
           | Ret (Inl err, h1) \<Rightarrow> Some (Ret (Inl (Wrapped err ''Failed to initiaze HPK paths''), h1))
           | Ret (Inr (hpk, img), h1) \<Rightarrow>
               (case archive_corrupted secs hpk (h_fs h1) of
                  None \<Rightarrow> None
                | Some (Panic m) \<Rightarrow> Some (Panic m)
                | Some (Ret (Inl err, w)) \<Rightarrow> Some (Ret (Inl err, h1\<lparr>h_fs := w\<rparr>))
                | Some (Ret (Inr archived, w)) \<Rightarrow>
                    Some (bind_outcome (restore_watchers add hpk w watcher) (\<lambda>(err, watcher').
                      case err of
                        Some e \<Rightarrow> Ret (Inl e, h1\<lparr>h_fs := w\<rparr>)
                      | None \<Rightarrow> Ret (Inr (config, hpk, img, watcher'), h1\<lparr>h_fs := w\<rparr>))))))"

subsection \<open>The life cycle of pods\<close>

record provider =
  v_config :: init_config
  v_sys :: sys
  v_callback :: bool       \<comment> \<open>\<open>NotifyPods\<close> has set \<open>updatedPod\<close>\<close>
  v_notified :: "pod list" \<comment> \<open>what \<open>updatedPod\<close> was called with\<close>

definition ErrObjectNotFound :: go_error where "ErrObjectNotFound = Sentinel ''object not found''"

text \<open>
  \<open>CreatePod\<close> acknowledges at once; the creation runs in a goroutine and is reported when it ends.
  The state is the one after the goroutine; a call of a nil function panics.
\<close>

definition VK_CreatePod :: "config \<Rightarrow> pod \<Rightarrow> provider \<Rightarrow> (go_error option \<times> provider) outcome" where
  "VK_CreatePod cf pod v =
     (let pod0 = upd_status (\<lambda>st. st\<lparr>s_hostIP := ic_InternalIP (v_config v)\<rparr>) pod
      in bind_outcome (CreatePod cf pod0 (v_sys v)) (\<lambda>(pod', s).
           if v_callback v then Ret (None, v\<lparr>v_sys := s, v_notified := v_notified v @ [pod']\<rparr>)
           else Panic ''invalid memory address or nil pointer dereference''))"

text \<open>\<open>>=\<close> on the resource versions is Go's order of strings. The three \<open>pretty.Diff\<close> only log.\<close>

definition VK_UpdatePod :: "config \<Rightarrow> pod \<Rightarrow> provider \<Rightarrow> (go_error option \<times> provider) outcome" where
  "VK_UpdatePod cf pod v =
     bind_outcome (LoadPodFromKey (cf_codec cf) (cf_hpk cf) (y_fs (v_sys v)) (ObjectKeyFromObject pod)) (\<lambda>loaded.
       case loaded of
         Inl err \<Rightarrow> Ret (Some ErrObjectNotFound, v)
       | Inr localPod \<Rightarrow>
           if om_resourceVersion (p_meta localPod) \<ge> om_resourceVersion (p_meta pod) then Ret (None, v)
           else if \<not> HasJobID pod then Ret (None, v)
           else bind_outcome (SavePodToFile (cf_codec cf) (cf_hpk cf) (Some pod) (y_fs (v_sys v))) (\<lambda>(err, w).
             case err of
               Some e \<Rightarrow> SystemPanic e ''failed to set job id for pod''
             | None \<Rightarrow> Ret (None, v\<lparr>v_sys := put_fs w (v_sys v)\<rparr>)))"

definition VK_DeletePod :: "config \<Rightarrow> pod \<Rightarrow> provider \<Rightarrow> (go_error option \<times> provider) outcome" where
  "VK_DeletePod cf pod v =
     bind_outcome (DeletePod cf (ObjectKeyFromObject pod) (v_sys v)) (\<lambda>(ok, s).
       Ret (if \<not> ok then Some ErrObjectNotFound else None, v\<lparr>v_sys := s\<rparr>))"

definition VK_GetPod :: "config \<Rightarrow> fsys \<Rightarrow> string \<Rightarrow> string \<Rightarrow> (go_error + pod) outcome" where
  "VK_GetPod cf w namespace name =
     bind_outcome (LoadPodFromKey (cf_codec cf) (cf_hpk cf) w \<lparr>key_namespace = namespace, key_name = name\<rparr>) (\<lambda>loaded.
       case loaded of Inl err \<Rightarrow> Ret (Inl ErrObjectNotFound) | Inr pod \<Rightarrow> Ret (Inr pod))"

definition VK_GetPodStatus :: "config \<Rightarrow> fsys \<Rightarrow> string \<Rightarrow> string \<Rightarrow> (go_error + podstatus) outcome" where
  "VK_GetPodStatus cf w namespace name =
     bind_outcome (LoadPodFromKey (cf_codec cf) (cf_hpk cf) w \<lparr>key_namespace = namespace, key_name = name\<rparr>) (\<lambda>loaded.
       case loaded of Inl err \<Rightarrow> Ret (Inl ErrObjectNotFound) | Inr pod \<Rightarrow> Ret (Inr (p_status pod)))"

text \<open>The callback of \<open>GetPods\<close> and the query.\<close>

definition collect_running :: "config \<Rightarrow> fsys \<Rightarrow> string \<Rightarrow> pod list \<Rightarrow> go_error option \<times> pod list" where
  "collect_running cf w path pods =
     (case os_ReadFile w (EncodedJSONPath path) of
        Inl err \<Rightarrow> (None, pods)
      | Inr encodedPod \<Rightarrow>
          (case json_Unmarshal (cf_codec cf) encodedPod of
             Inl err \<Rightarrow> (Some (Wrapped err (''cannot decode pod description file '' @ path)), pods)
           | Inr pod \<Rightarrow> (None, if s_phase (p_status pod) = Running then pods @ [pod] else pods)))"

definition VK_GetPods :: "config \<Rightarrow> fsys \<Rightarrow> (go_error + pod list) outcome" where
  "VK_GetPods cf w =
     bind_outcome (WalkPodDirectories w (cf_hpk cf) (collect_running cf w) []) (\<lambda>(err, pods).
       Ret (case err of Some e \<Rightarrow> Inl (Wrapped e ''failed to traverse pods'') | None \<Rightarrow> Inr pods))"

text \<open>
  \<open>NotifyPods\<close> registers the callback and starts the listener on the events of the watcher (the
  goroutines are the steps of \<open>listener_step\<close>). The forwarding goroutine panics on an error of the
  watcher and ends when a channel is closed (\<open>None\<close>).
\<close>

definition NotifyPods :: "fs_event list \<Rightarrow> provider \<Rightarrow> provider \<times> listener" where
  "NotifyPods evs v =
     (v\<lparr>v_callback := True\<rparr>, NewEventHandler \<lparr>opt_MaxWorkers = 5, opt_MaxQueueSize = 20\<rparr> evs)"

datatype forwarded = Pushed fs_event | Stopped

definition forward_message :: "fs_event option + go_error option \<Rightarrow> forwarded outcome" where
  "forward_message msg =
     (case msg of
        Inl None \<Rightarrow> Ret Stopped
      | Inl (Some event) \<Rightarrow> Ret (Pushed event)
      | Inr None \<Rightarrow> Ret Stopped
      | Inr (Some err) \<Rightarrow> Panic (''fsnotify failed: '' @ error_text err))"

definition PortForward :: "go_error option" where "PortForward = None"

definition GetStatsSummary :: "unit outcome" where "GetStatsSummary = Panic ''not yet supported''"

subsection \<open>Logs and remote commands\<close>

record log_opts =
  opts_Tail :: int
  opts_Follow :: bool

datatype log_stream = OpenedFile fnode | Buffer string

text \<open>\<open>Follow\<close> is answered with a log line and otherwise ignored.\<close>

definition GetContainerLogs :: "nat \<Rightarrow> (int \<Rightarrow> go_error option) \<Rightarrow> string \<Rightarrow> fsys \<Rightarrow> string \<Rightarrow> string \<Rightarrow> string \<Rightarrow> log_opts \<Rightarrow> go_error + log_stream" where
  "GetContainerLogs pageSize pread_fault hpk w namespace podName containerName opts =
     (let logfilePath = LogsPath (pod_dir hpk \<lparr>key_namespace = namespace, key_name = podName\<rparr>) containerName
      in if opts_Tail opts = 0 then
           (case os_Open w logfilePath of
              Inl err \<Rightarrow>
                if errors_Is_errno err ENOENT then Inr (Buffer []) else Inl (Wrapped err ''unable to batch logs'')
            | Inr f \<Rightarrow> Inr (OpenedFile f))
         else if opts_Tail opts > 0 then
           (case GetTailLog pageSize pread_fault w logfilePath (nat (opts_Tail opts)) of
              Inl err \<Rightarrow> Inl (Wrapped err ''unable to batch logs'')
            | Inr logs \<Rightarrow> Inr (Buffer (concat (map (\<lambda>nll. nll @ [CHR 0x0A]) logs))))
         else Inr (Buffer []))"

record attach_io =
  at_Stdin :: bool   \<comment> \<open>the stream is not nil\<close>
  at_Stdout :: bool
  at_Stderr :: bool
  at_TTY :: bool

record exec_request =
  er_namespace :: string
  er_pod :: string
  er_Container :: string
  er_Command :: "string list"
  er_Stdin :: bool
  er_Stdout :: bool
  er_Stderr :: bool
  er_TTY :: bool

text \<open>The error, and which of the two output streams the deferred function has closed.\<close>

definition RunInContainer :: "(exec_request \<Rightarrow> go_error + 'e) \<Rightarrow> ('e \<Rightarrow> attach_io \<Rightarrow> go_error option) \<Rightarrow>
    string \<Rightarrow> string \<Rightarrow> string \<Rightarrow> string list \<Rightarrow> attach_io \<Rightarrow> go_error option \<times> bool \<times> bool" where
  "RunInContainer newSPDYExecutor stream namespace podName containerName cmd attach =
     (let req = \<lparr>er_namespace = namespace, er_pod = podName, er_Container = containerName, er_Command = cmd,
            er_Stdin = at_Stdin attach, er_Stdout = at_Stdout attach, er_Stderr = at_Stderr attach, er_TTY = at_TTY attach\<rparr>;
          err = (case newSPDYExecutor req of
                   Inl e \<Rightarrow> Some (Wrapped e ''could not make remote command'')
                 | Inr exec \<Rightarrow> stream exec attach)
      in (err, at_Stdout attach, at_Stderr attach))"

record term_size =
  ts_Width :: int
  ts_Height :: int

definition termSize_Next :: "term_size \<Rightarrow> term_size" where
  "termSize_Next resize = \<lparr>ts_Width = ts_Width resize, ts_Height = ts_Height resize\<rparr>"

subsection \<open>The node (node.go)\<close>

record node_condition =
  nc_Type :: string
  nc_Status :: condition_status
  nc_LastHeartbeatTime :: gotime
  nc_LastTransitionTime :: gotime
  nc_Reason :: string
  nc_Message :: string

record os_info =
  oi_Kernel :: string
  oi_OS :: string
  oi_Platform :: string

record node_system_info =
  ni_MachineID :: string
  ni_SystemUUID :: string
  ni_BootID :: string
  ni_KernelVersion :: string
  ni_OSImage :: string
  ni_ContainerRuntimeVersion :: string
  ni_KubeletVersion :: string
  ni_KubeProxyVersion :: string
  ni_OperatingSystem :: string
  ni_Architecture :: string

record node_taint =
  nt_Key :: string
  nt_Value :: string
  nt_Effect :: string

datatype node_phase = NodePending | NodeRunning

record node =
  no_Name :: string
  no_Labels :: strmap
  no_Taints :: "node_taint list"
  no_NodeInfo :: node_system_info
  no_Addresses :: "(string \<times> string) list"
  no_KubeletPort :: int
  no_Conditions :: "node_condition list"
  no_Phase :: node_phase
  no_Capacity :: resource_list
  no_Allocatable :: resource_list

definition NodeConditions :: "gotime \<Rightarrow> node_condition list" where
  "NodeConditions t =
     [\<lparr>nc_Type = ''Ready'', nc_Status = ConditionTrue, nc_LastHeartbeatTime = t, nc_LastTransitionTime = t,
        nc_Reason = ''KubeletPending'', nc_Message = ''kubelet is pending.''\<rparr>,
      \<lparr>nc_Type = ''MemoryPressure'', nc_Status = ConditionFalse, nc_LastHeartbeatTime = t, nc_LastTransitionTime = t,
        nc_Reason = ''KubeletHasSufficientMemory'', nc_Message = ''kubelet has sufficient memory available''\<rparr>,
      \<lparr>nc_Type = ''DiskPressure'', nc_Status = ConditionFalse, nc_LastHeartbeatTime = t, nc_LastTransitionTime = t,
        nc_Reason = ''KubeletHasNoDiskPressure'', nc_Message = ''kubelet has no disk pressure''\<rparr>,
      \<lparr>nc_Type = ''PIDPressure'', nc_Status = ConditionFalse, nc_LastHeartbeatTime = t, nc_LastTransitionTime = t,
        nc_Reason = ''KubeletHasNoPIDPressure'', nc_Message = ''kubelet has no PID pressure''\<rparr>,
      \<lparr>nc_Type = ''NetworkUnavailable'', nc_Status = ConditionFalse, nc_LastHeartbeatTime = t, nc_LastTransitionTime = t,
        nc_Reason = ''RouteCreated'', nc_Message = ''RouteController created a route''\<rparr>]"

definition NodeAddresses :: "init_config \<Rightarrow> (string \<times> string) list" where
  "NodeAddresses config =
     [(''ExternalIP'', ic_InternalIP config), (''InternalIP'', ic_InternalIP config)]"

definition NodeDaemonEndpoints :: "init_config \<Rightarrow> int" where
  "NodeDaemonEndpoints config = ic_DaemonPort config"

definition zero_system_info :: node_system_info where
  "zero_system_info = \<lparr>ni_MachineID = [], ni_SystemUUID = [], ni_BootID = [], ni_KernelVersion = [], ni_OSImage = [],
     ni_ContainerRuntimeVersion = [], ni_KubeletVersion = [], ni_KubeProxyVersion = [], ni_OperatingSystem = [],
     ni_Architecture = []\<rparr>"

text \<open>
  \<open>GetInfo\<close> of the package \<open>goInfo\<close> may panic; the deferred function recovers, and the result is then
  the zero value. \<open>platform\<close> is \<open>runtime.GOOS\<close> and \<open>runtime.GOARCH\<close>.
\<close>

definition NodeSystemInfo :: "(go_error + os_info) outcome \<Rightarrow> string \<times> string \<Rightarrow> init_config \<Rightarrow> node_system_info" where
  "NodeSystemInfo getInfo platform config =
     (case getInfo of
        Panic m \<Rightarrow> zero_system_info
      | Ret r \<Rightarrow>
          let (kernelVersion, operatingSystem, architecture) =
            (case r of
               Inl err \<Rightarrow> (''unknown'', fst platform, snd platform)
             | Inr info \<Rightarrow> (oi_Kernel info, oi_OS info, oi_Platform info))
          in zero_system_info\<lparr>ni_KernelVersion := kernelVersion, ni_OSImage := ''hpk'',
               ni_KubeProxyVersion := ''v1.24.7'', ni_KubeletVersion := ic_BuildVersion config,
               ni_ContainerRuntimeVersion := ''singularity://1.1.3'', ni_OperatingSystem := operatingSystem,
               ni_Architecture := architecture\<rparr>)"

definition NewVirtualNode :: "config \<Rightarrow> (string \<Rightarrow> go_error + node_info list) \<Rightarrow> (go_error + os_info) outcome \<Rightarrow>
    string \<times> string \<Rightarrow> init_config \<Rightarrow> string \<Rightarrow> node_taint option \<Rightarrow> host \<Rightarrow> node outcome \<times> host" where
  "NewVirtualNode cf decode getInfo platform config nodename taint h =
     (case TotalResources (cf_proc cf) decode (cf_quantity cf) h of
        (Panic m, h1) \<Rightarrow> (Panic m, h1)
      | (Ret capacity, h1) \<Rightarrow>
          (case AllocatableResources (cf_proc cf) decode (cf_quantity cf) h1 of
             (Panic m, h2) \<Rightarrow> (Panic m, h2)
           | (Ret allocatable, h2) \<Rightarrow>
               (Ret \<lparr>no_Name = nodename,
                  no_Labels = [(''kubernetes.io/hostname'', nodename), (''kubernetes.io/role'', ''agent''),
                    (''kubernetes.io/os'', fst platform), (''kubernetes.io/arch'', snd platform)],
                  no_Taints = (case taint of None \<Rightarrow> [] | Some t \<Rightarrow> [t]),
                  no_NodeInfo = NodeSystemInfo getInfo platform config,
                  no_Addresses = NodeAddresses config,
                  no_KubeletPort = NodeDaemonEndpoints config,
                  no_Conditions = NodeConditions (now (h_fs h)),
                  no_Phase = (if ConnectionOK then NodeRunning else NodePending),
                  no_Capacity = capacity, no_Allocatable = allocatable\<rparr>, h2)))"

definition ConfigureNode :: "unit outcome" where "ConfigureNode = Panic ''not yet supported''"

subsection \<open>Admission webhooks (crd-mutators.go)\<close>

datatype operation = OperationCreate | OperationUpdate | OperationDelete | OperationConnect | OperationUnknown

datatype api_object = ApiPod pod | ApiPVC objectmeta | ApiOther

text \<open>The result is the mutated object, if there is one.\<close>

definition MutatePVC :: "operation \<Rightarrow> api_object \<Rightarrow> api_object option" where
  "MutatePVC oper obj =
     (if oper \<noteq> OperationCreate then None
      else case obj of
        ApiPVC meta \<Rightarrow>
          Some (ApiPVC (meta\<lparr>om_annotations :=
            AList.update ''volume.kubernetes.io/selected-node'' ''hpk-kubelet'' (om_annotations meta)\<rparr>))
      | _ \<Rightarrow> None)"

definition mutate_env :: "envvar \<Rightarrow> envvar" where
  "mutate_env env =
     (if ev_fieldRef env = Some \<lparr>fr_apiVersion = ''v1'', fr_fieldPath = ''status.podIP''\<rparr>
      then env\<lparr>ev_fieldRef := None, ev_value := ''.status.podIP''\<rparr> else env)"

definition MutatePod :: "operation \<Rightarrow> api_object \<Rightarrow> api_object option" where
  "MutatePod oper obj =
     (if oper \<noteq> OperationCreate then None
      else case obj of
        ApiPod pod \<Rightarrow>
          let spec = (p_spec pod)\<lparr>ps_containers := map (\<lambda>c. c\<lparr>c_env := map mutate_env (c_env c)\<rparr>) (ps_containers (p_spec pod))\<rparr>
          in Some (ApiPod (upd_annotations
               (\<lambda>m. AList.update ''mutator'' ''pod-annotate'' (AList.update ''mutated'' ''true'' m)) (pod\<lparr>p_spec := spec\<rparr>)))
      | _ \<Rightarrow> None)"

subsection \<open>The start comes to an end\<close>

lemma resolve_errno:
  "resolve f n w cur cs = Inl e \<Longrightarrow> e = ENOENT \<or> e = ELOOP \<or> e = ENOTDIR"
proof (induction f n w cur cs rule: resolve.induct)
  case (2 follow n w cur c cs)
  then show ?case by (auto simp: resolve.simps(2) split: if_splits option.splits fnode.splits)
qed simp

text \<open>Where a new name leads depends on its directory only.\<close>

lemma resolve_parent:
  "\<exists>r. \<forall>c. c \<noteq> ''..'' \<longrightarrow> resolve False n w cur (cs @ [c]) = map_sum id (\<lambda>p. p @ [c]) r"
proof (induction True n w cur cs rule: resolve.induct)
  case (1 n w cur)
  show ?case
    by (rule exI [of _ "Inr cur"]) (auto simp: resolve_last)
next
  case (2 n w cur d cs)
  consider (up) "d = ''..''" | (none) "d \<noteq> ''..''" "fs_lookup w (cur @ [d]) = None"
    | (link) t where "d \<noteq> ''..''" "fs_lookup w (cur @ [d]) = Some (Symlink t)"
    | (dir) m where "d \<noteq> ''..''" "fs_lookup w (cur @ [d]) = Some (Dir m)"
    | (other) nd where "d \<noteq> ''..''" "fs_lookup w (cur @ [d]) = Some nd" "\<not> is_dir (Some nd)" "\<not> is_link (Some nd)"
    by (metis fnode.exhaust is_dir_simps is_link_simps option.exhaust)
  then show ?case
  proof cases
    case up
    with 2(1) show ?thesis by (simp add: resolve.simps(2))
  next
    case none
    then show ?thesis by (intro exI [of _ "Inl ENOENT"]) (simp add: resolve.simps(2))
  next
    case link
    show ?thesis
    proof (cases "n = 0")
      case True
      with link show ?thesis by (intro exI [of _ "Inl ELOOP"]) (simp add: resolve.simps(2))
    next
      case False
      with 2(3) [OF link refl _ False] link show ?thesis by (auto simp: resolve.simps(2))
    qed
  next
    case dir
    with 2(2) [OF dir refl] show ?thesis by (simp add: resolve.simps(2))
  next
    case other
    then show ?thesis
      by (intro exI [of _ "Inl ENOTDIR"]) (auto simp: resolve.simps(2) split: fnode.splits)
  qed
qed

lemma fs_resolve_parent:
  obtains r where "\<And>c. name_ok c \<Longrightarrow> fs_resolve False w (dir @ slash # c) = map_sum id (\<lambda>p. p @ [c]) r"
proof -
  obtain r where r: "\<And>c. c \<noteq> ''..'' \<Longrightarrow> resolve False max_symlinks w [] (path_elems dir @ [c]) = map_sum id (\<lambda>p. p @ [c]) r"
    using resolve_parent by metis
  have "fs_resolve False w (dir @ slash # c) = map_sum id (\<lambda>p. p @ [c]) r" if "name_ok c" for c
    using that r [of c] by (simp add: fs_resolve_def path_elems_append path_elems_name name_ok_def)
  then show thesis by (rule that)
qed

text \<open>A rename is answered with \<open>EEXIST\<close> only when there is a directory at the new name.\<close>

lemma os_Rename_exist:
  assumes "os_Rename path new w = Inl err" "errors_Is_exist err" "faults w SysRename path = None"
  obtains q where "fs_resolve False w new = Inr q" "is_dir (fs_lookup w q)"
proof -
  from assms obtain q where "fs_resolve False w new = Inr q \<and> is_dir (fs_lookup w q)"
    by (auto simp: os_Rename_def syscall_def errors_Is_exist_def fs_resolve_def
        split: option.splits sum.splits if_splits dest!: resolve_errno)
  then show thesis using that by blast
qed

lemma strconv_Itoa_ok: "name_ok c \<Longrightarrow> name_ok (c @ CHR ''-'' # strconv_Itoa (int n))"
proof -
  have "slash \<notin> set (nat_digits n)" using nat_digits_all_digits [of n] by (auto simp: list_all_iff is_digit_def)
  then show "name_ok c \<Longrightarrow> name_ok (c @ CHR ''-'' # strconv_Itoa (int n))"
    by (auto simp: name_ok_def strconv_Itoa_def append_eq_Cons_conv)
qed

lemma archive_retry_returns:
  assumes "faults w SysRename path = None"
  shows "name_ok c \<Longrightarrow> \<exists>r. archive_retry secs i path (dir @ slash # c) w = Some r"
proof -
  obtain r where r: "\<And>c. name_ok c \<Longrightarrow> fs_resolve False w (dir @ slash # c) = map_sum id (\<lambda>p. p @ [c]) r"
    using fs_resolve_parent [of w dir] by blast
  define taken where "taken c = {q \<in> set (map fst (entries w)). \<exists>p n. q = p @ [n] \<and> length c \<le> length n}" for c :: string
  have fin: "finite (taken c)" for c unfolding taken_def by simp
  show "name_ok c \<Longrightarrow> \<exists>r. archive_retry secs i path (dir @ slash # c) w = Some r"
  proof (induction "card (taken c)" arbitrary: c i rule: less_induct)
    case less
    let ?c' = "c @ CHR ''-'' # strconv_Itoa (int (secs i))"
    have "card (taken ?c') < card (taken c)"
      if ren: "os_Rename path (dir @ slash # c) w = Inl err" "errors_Is_exist err" for err
    proof (rule psubset_card_mono [OF fin])
      obtain q where q: "fs_resolve False w (dir @ slash # c) = Inr q" "is_dir (fs_lookup w q)"
        using os_Rename_exist [OF ren assms] .
      with r [OF less.prems] obtain p where p: "q = p @ [c]" by (cases r) auto
      then have "q \<in> taken c" using is_dir_key [OF q(2)] by (auto simp: taken_def)
      moreover have "q \<notin> taken ?c'" using p by (auto simp: taken_def)
      moreover have "taken ?c' \<subseteq> taken c" by (auto simp: taken_def)
      ultimately show "taken ?c' \<subset> taken c" by blast
    qed
    with less.hyps [of ?c' "Suc i"] strconv_Itoa_ok [OF less.prems] show ?case
      by (subst archive_retry.simps) (auto split: sum.split)
  qed
qed

text \<open>What a retry that returns has done.\<close>

lemma archive_retry_Some:
  assumes "archive_retry secs i path (dir @ slash # c) w = Some (Inr (dst, w'))" "name_ok c"
  shows "\<exists>c'. name_ok c' \<and> prefix c c' \<and> dst = dir @ slash # c' \<and> os_Rename path dst w = Inr w'"
proof -
  let ?P = "\<lambda>path d w (y :: go_error + string \<times> fsys). \<forall>c dst w'. d = dir @ slash # c \<longrightarrow> name_ok c \<longrightarrow> y = Inr (dst, w') \<longrightarrow>
    (\<exists>c'. name_ok c' \<and> prefix c c' \<and> dst = dir @ slash # c' \<and> os_Rename path dst w = Inr w')"
  have "?P path (dir @ slash # c) w (Inr (dst, w'))"
  proof (rule archive_retry.raw_induct [where P = "\<lambda>secs i. ?P", OF _ assms(1)], intro allI impI)
    fix rec secs i path d w y c dst w'
    assume IH: "\<And>secs i path d w y. rec secs i path d w = Some y \<Longrightarrow> ?P path d w y"
      and eq: "(case os_Rename path d w of
          Inl err \<Rightarrow> if errors_Is_exist err then rec secs (Suc i) path (d @ ''-'' @ strconv_Itoa (int (secs i))) w
            else Some (Inl (Wrapped err ''moving error of corrupted pod''))
        | Inr w' \<Rightarrow> Some (Inr (d, w'))) = Some y"
      and d: "d = dir @ slash # c" "name_ok c" "y = Inr (dst, w')"
    show "\<exists>c'. name_ok c' \<and> prefix c c' \<and> dst = dir @ slash # c' \<and> os_Rename path dst w = Inr w'"
    proof (cases "os_Rename path d w")
      case (Inr w1)
      with eq d show ?thesis by (intro exI [of _ c]) auto
    next
      case (Inl err)
      with eq d(3) have "rec secs (Suc i) path (d @ ''-'' @ strconv_Itoa (int (secs i))) w = Some (Inr (dst, w'))"
        by (auto split: if_splits)
      from IH [OF this] strconv_Itoa_ok [OF d(2), of "secs i"] obtain c' where
        "name_ok c'" "prefix (c @ CHR ''-'' # strconv_Itoa (int (secs i))) c'" "dst = dir @ slash # c'"
        "os_Rename path dst w = Inr w'"
        using d(1) by fastforce
      then show ?thesis by (intro exI [of _ c']) (auto dest: append_prefixD)
    qed
  qed
  with assms(2) show ?thesis by blast
qed

lemma archived_name:
  assumes "\<not> strings_Contains (abs_path [ns, pod]) (abs_path root)" "root \<noteq> []" "list_all name_ok root" "name_ok ns" "name_ok pod"
  shows "strings_ReplaceAll (abs_path (root @ [ns, pod])) (abs_path root) (CorruptedDir (abs_path root)) =
      abs_path (root @ [''.corrupted'', ns]) @ slash # pod"
    and "filepath_Dir (abs_path (root @ [''.corrupted'', ns]) @ slash # pod) = abs_path (root @ [''.corrupted'', ns])"
proof -
  have app: "abs_path (root @ [ns, pod]) = abs_path root @ abs_path [ns, pod]"
    using assms(2) by (simp add: abs_path_append)
  have cor: "CorruptedDir (abs_path root) = abs_path (root @ [''.corrupted''])"
    using assms(3) by (simp add: CorruptedDir_def)
  have "abs_path (root @ [''.corrupted'', ns]) @ slash # pod = abs_path ((root @ [''.corrupted'']) @ [ns, pod])"
    using abs_path_snoc [of "root @ [''.corrupted'', ns]" pod] by simp
  then have cut: "abs_path (root @ [''.corrupted'']) @ abs_path [ns, pod] = abs_path (root @ [''.corrupted'', ns]) @ slash # pod"
    by (subst (asm) abs_path_append [of "root @ [''.corrupted'']"]) simp_all
  show "strings_ReplaceAll (abs_path (root @ [ns, pod])) (abs_path root) (CorruptedDir (abs_path root)) =
      abs_path (root @ [''.corrupted'', ns]) @ slash # pod"
    unfolding app cor strings_ReplaceAll_def
    using strings_Split_prefix [of "abs_path root" "abs_path [ns, pod]"] assms(1) cut by simp
  show "filepath_Dir (abs_path (root @ [''.corrupted'', ns]) @ slash # pod) = abs_path (root @ [''.corrupted'', ns])"
    using Dir_abs_path [of "root @ [''.corrupted'', ns]" pod] abs_path_snoc [of "root @ [''.corrupted'', ns]" pod] assms
    by simp
qed

lemma mkdir_elems_faults: "mkdir_elems pre cs perm w = (e, w') \<Longrightarrow> faults w' = faults w"
proof (induction pre cs perm w arbitrary: e w' rule: mkdir_elems.induct)
  case (2 pre c cs perm w)
  show ?case
  proof (cases "stat_quiet w (pre @ slash # c)")
    case None
    show ?thesis
    proof (cases "os_Mkdir (pre @ slash # c) perm w")
      case (Inr w1)
      then have "faults w1 = faults w"
        by (auto simp: os_Mkdir_def syscall_def split: option.splits sum.splits if_splits)
      with "2.IH"(1) [OF refl None Inr] "2.prems" None Inr show ?thesis by (simp add: Let_def)
    qed (use 2 None in \<open>simp add: Let_def\<close>)
  next
    case (Some nd)
    then show ?thesis using 2 by (cases nd) (auto simp: Let_def)
  qed
qed simp

lemma os_Rename_faults: "os_Rename path new w = Inr w' \<Longrightarrow> faults w' = faults w"
  by (auto simp: os_Rename_def syscall_def split: option.splits sum.splits if_splits)

text \<open>A pod directory whose name does not collide with the text of the HPK path itself.\<close>

definition pod_place :: "fpath \<Rightarrow> fpath \<Rightarrow> bool" where
  "pod_place root P \<longleftrightarrow> (\<exists>ns pod. P = root @ [ns, pod] \<and> name_ok ns \<and> name_ok pod \<and> \<not> under_sys root P \<and>
     \<not> strings_Contains (abs_path [ns, pod]) (abs_path root))"

lemma archive_pod_returns:
  assumes "pod_place root P" "list_all name_ok root" "root \<noteq> []" "\<And>s. faults w SysRename s = None"
  shows "\<exists>r w'. archive_pod secs (abs_path root) (abs_path P) w = Some (r, w') \<and> faults w' = faults w"
proof -
  from assms(1) obtain ns pod where P: "P = root @ [ns, pod]" "name_ok ns" "name_ok pod"
    "\<not> strings_Contains (abs_path [ns, pod]) (abs_path root)" by (auto simp: pod_place_def)
  let ?dir = "abs_path (root @ [''.corrupted'', ns])"
  obtain e w1 where mk: "os_MkdirAll ?dir PodGlobalDirectoryPermissions w = (e, w1)" by fastforce
  then have f: "faults w1 = faults w"
    by (auto simp: os_MkdirAll_def dest: mkdir_elems_faults split: if_splits)
  obtain r where r: "archive_retry secs 0 (abs_path P) (?dir @ slash # pod) w1 = Some r"
    using archive_retry_returns [of w1 "abs_path P" pod secs 0 ?dir] f assms(4) P(3) by auto
  have "faults w2 = faults w" if "r = Inr (dst, w2)" for dst w2
    using archive_retry_Some [OF r [unfolded that] P(3)] os_Rename_faults f by fastforce
  with r f show ?thesis
    using mk archived_name [OF P(4) assms(3,2) P(2,3)] P(1)
    by (cases e) (auto simp: archive_pod_def Let_def split: sum.splits)
qed

lemma archive_all_returns:
  assumes "list_all name_ok root" "root \<noteq> []"
  shows "list_all (pod_place root) Ps \<Longrightarrow> (\<And>s. faults w SysRename s = None) \<Longrightarrow>
    \<exists>r. archive_all secs (abs_path root) (map abs_path Ps) w = Some r"
proof (induction Ps arbitrary: w)
  case (Cons P Ps)
  then obtain r w' where step: "archive_pod secs (abs_path root) (abs_path P) w = Some (r, w')" "faults w' = faults w"
    using archive_pod_returns [of root P w secs] assms by auto
  with Cons.IH [of w'] Cons.prems show ?case by (cases r) auto
qed simp

definition corrupted_pods :: "fsys \<Rightarrow> fpath \<Rightarrow> fpath list" where
  "corrupted_pods w root =
     filter (\<lambda>q. \<not> fst (PodEnvironmentIsOK w (abs_path q))) (filter (is_pod_path w root) (walk_below w root))"

lemma collect_corrupted_walk:
  assumes "list_all name_ok root" "root \<noteq> []" "real_dir w root" "fs_wf w"
    and "\<And>s. faults w SysReaddir s = None" "faults w SysLstat (abs_path root) = None"
  shows "archive_corrupted secs (abs_path root) w = map_option Ret (archive_all secs (abs_path root) (map abs_path (corrupted_pods w root)) w)"
proof -
  have visits: "visit_all (collect_corrupted w) ds acc = (None, acc @ filter (\<lambda>d. \<not> fst (PodEnvironmentIsOK w d)) ds)" for ds acc
    by (induction ds arbitrary: acc) (auto simp: collect_corrupted_def)
  show ?thesis
    using WalkPodDirectories_spec [OF assms, of "collect_corrupted w" "[]"]
    by (simp add: archive_corrupted_def corrupted_pods_def visits pod_directories_def filter_map comp_def)
qed

text \<open>
  C18. Starting on an existing directory always comes to an end: although a corrupted pod whose archive
  name is taken is retried without a bound, some retry succeeds or fails for good, whatever the clock
  reads, because every retry tries a longer name and the archive has finitely many.
\<close>

theorem archive_corrupted_returns:
  assumes "list_all name_ok root" "root \<noteq> []" "real_dir w root" "fs_wf w"
    and "\<And>s. faults w SysReaddir s = None" "faults w SysLstat (abs_path root) = None" "\<And>s. faults w SysRename s = None"
    and "list_all (pod_place root) (corrupted_pods w root)"
  shows "\<exists>r. archive_corrupted secs (abs_path root) w = Some (Ret r)"
  using archive_all_returns [OF assms(1,2,8,7)] collect_corrupted_walk [OF assms(1-6)] by simp

subsection \<open>What the start does to the pods\<close>

lemma mkdir_one:
  assumes "list_all name_ok base" "name_ok c" "real_dir w base" "\<not> is_link (fs_lookup w (base @ [c]))"
    and "os_MkdirAll (abs_path (base @ [c])) perm w = (None, w')"
  shows "(w' = w \<and> is_dir (fs_lookup w (base @ [c]))) \<or>
    (\<exists>m. w' = fs_put (base @ [c]) (Dir m) w \<and> fs_lookup w (base @ [c]) = None)"
proof -
  obtain pre where pre: "path_elems pre = base" "mkdir_elems [] (base @ [c]) perm w = mkdir_elems pre [c] perm w"
    using mkdir_elems_chain [of w "[]" base "[]" "[c]" perm] assms(1,3) by auto
  have el: "path_elems (pre @ slash # c) = base @ [c]" using pre(1) assms(2) by (simp add: path_elems_append path_elems_name)
  have res: "fs_resolve f w (pre @ slash # c) = Inr (base @ [c])" for f
    using assms(2-4) by (simp add: fs_resolve_def el resolve_dir_chain resolve_last name_ok_def)
  from assms(1,2,5) pre(2) have step: "mkdir_elems pre [c] perm w = (None, w')" by (simp add: os_MkdirAll_def)
  show ?thesis
  proof (cases "fs_lookup w (base @ [c])")
    case None
    with step res show ?thesis
      by (auto simp: stat_quiet_def os_Mkdir_def syscall_def Let_def split: option.splits sum.splits)
  next
    case (Some nd)
    with step res show ?thesis by (cases nd) (auto simp: stat_quiet_def Let_def)
  qed
qed

text \<open>The move of one pod: \<open>A\<close> is the archive of its namespace, \<open>Q\<close> the free place the pod goes to.\<close>

lemma archive_pod_moves:
  assumes "pod_place root P" "list_all name_ok root" "root \<noteq> []" "real_dir w P" "real_dir w (root @ [''.corrupted''])"
    and "\<not> is_link (fs_lookup w (root @ [''.corrupted'', P ! length root]))"
    and "archive_pod secs (abs_path root) (abs_path P) w = Some (Inr dst, w2)"
  obtains c w1 where "w1 = w \<or> (\<exists>m. w1 = fs_put (root @ [''.corrupted'', P ! length root]) (Dir m) w \<and>
      fs_lookup w (root @ [''.corrupted'', P ! length root]) = None)"
    "is_dir (fs_lookup w1 (root @ [''.corrupted'', P ! length root]))"
    "name_ok c" "prefix (last P) c" "dst = abs_path (root @ [''.corrupted'', P ! length root, c])"
    "fs_lookup w1 (root @ [''.corrupted'', P ! length root, c]) = None"
    "w2 = fs_move P (root @ [''.corrupted'', P ! length root, c]) w1"
proof -
  from assms(1) obtain ns pod where P: "P = root @ [ns, pod]" "name_ok ns" "name_ok pod" "\<not> under_sys root P"
    "\<not> strings_Contains (abs_path [ns, pod]) (abs_path root)" by (auto simp: pod_place_def)
  then have ns: "ns \<noteq> ''.corrupted''" by (auto simp: under_sys_def)
  let ?arch = "root @ [''.corrupted'']" and ?A = "root @ [''.corrupted'', ns]"
  note name = archived_name [OF P(5) assms(3,2) P(2,3)]
  obtain e w1 where mk: "os_MkdirAll (abs_path ?A) PodGlobalDirectoryPermissions w = (e, w1)" by fastforce
  with assms(7) P(1) name have e: "e = None" by (cases e) (auto simp: archive_pod_def Let_def)
  have ok: "list_all name_ok ?arch" using assms(2) by simp
  have one: "(w1 = w \<and> is_dir (fs_lookup w ?A)) \<or> (\<exists>m. w1 = fs_put ?A (Dir m) w \<and> fs_lookup w ?A = None)"
    using mkdir_one [OF ok P(2) assms(5), of PodGlobalDirectoryPermissions w1] assms(6) P(1) mk e by (simp add: nth_append)
  from assms(7) P(1) name mk e obtain r where "archive_retry secs 0 (abs_path P) (abs_path ?A @ slash # pod) w1 = Some r"
    "(case r of Inl err \<Rightarrow> (Inl err, w1) | Inr (dst, w2) \<Rightarrow> (Inr dst, w2)) = (Inr dst, w2)"
    by (auto simp: archive_pod_def Let_def)
  then have "archive_retry secs 0 (abs_path P) (abs_path ?A @ slash # pod) w1 = Some (Inr (dst, w2))"
    by (cases r) auto
  from archive_retry_Some [OF this P(3)] obtain c where c: "name_ok c" "prefix pod c"
    "dst = abs_path ?A @ slash # c" "os_Rename (abs_path P) dst w1 = Inr w2" by blast
  have dst: "dst = abs_path (?A @ [c])" using c(3) abs_path_snoc [of ?A c] by simp
  have realP: "real_dir w1 P" using one assms(4) by (auto intro: dir_chain_put)
  have realA: "real_dir w1 ?A"
  proof -
    have "real_dir w1 ?arch" using one assms(5) by (auto intro: dir_chain_put)
    moreover have "is_dir (fs_lookup w1 ?A)" using one by auto
    moreover have "ns \<noteq> ''..''" using P(2) by (simp add: name_ok_def)
    ultimately show ?thesis using dir_chain_append [of w1 "[]" ?arch "[ns]"] by simp
  qed
  have resP: "fs_resolve False w1 (abs_path P) = Inr P" using fs_resolve_dir [OF _ realP] P assms(2) by simp
  have resQ: "fs_resolve False w1 dst = Inr (?A @ [c])"
    unfolding dst using fs_resolve_in_dir [of ?A c w1 False] assms(2) P(2) c(1) realA by simp
  obtain m where m: "fs_lookup w1 P = Some (Dir m)" using real_dir_lookup [OF realP] by (auto elim: is_dirE)
  have "P \<noteq> ?A @ [c]" using P(1) by auto
  then have "fs_lookup w1 (?A @ [c]) = None" "w2 = fs_move P (?A @ [c]) w1"
    using c(4) resP resQ m by (auto simp: os_Rename_def syscall_def split: option.splits if_splits)
  then show thesis
    using that [of w1 c] one c dst P(1) real_dir_lookup [OF realA] by (auto simp: nth_append)
qed

lemma archive_pod_lookup:
  assumes "pod_place root P" "list_all name_ok root" "root \<noteq> []" "real_dir w P" "real_dir w (root @ [''.corrupted''])"
    and "\<not> is_link (fs_lookup w (root @ [''.corrupted'', P ! length root]))"
    and "archive_pod secs (abs_path root) (abs_path P) w = Some (Inr dst, w2)"
  obtains c where "dst = abs_path (root @ [''.corrupted'', P ! length root, c])"
    "fs_lookup w (root @ [''.corrupted'', P ! length root, c]) = None"
    "\<And>r. fs_lookup w2 (root @ [''.corrupted'', P ! length root, c] @ r) = fs_lookup w (P @ r)"
    "\<And>r. fs_lookup w2 (P @ r) = None"
    "\<And>q. \<not> prefix P q \<Longrightarrow> \<not> prefix (root @ [''.corrupted'', P ! length root, c]) q \<Longrightarrow>
       q \<noteq> root @ [''.corrupted'', P ! length root] \<Longrightarrow> fs_lookup w2 q = fs_lookup w q"
    "\<not> is_link (fs_lookup w2 (root @ [''.corrupted'', P ! length root]))"
proof -
  from assms(1) obtain ns pod where P: "P = root @ [ns, pod]" "ns \<noteq> ''.corrupted''"
    by (auto simp: pod_place_def under_sys_def)
  let ?A = "root @ [''.corrupted'', ns]"
  have nth: "P ! length root = ns" using P(1) by (simp add: nth_append)
  obtain c w1 where w1: "w1 = w \<or> (\<exists>m. w1 = fs_put (root @ [''.corrupted'', P ! length root]) (Dir m) w \<and>
      fs_lookup w (root @ [''.corrupted'', P ! length root]) = None)"
    and A: "is_dir (fs_lookup w1 (root @ [''.corrupted'', P ! length root]))"
    and "name_ok c" "prefix (last P) c" and c: "dst = abs_path (root @ [''.corrupted'', P ! length root, c])"
    "fs_lookup w1 (root @ [''.corrupted'', P ! length root, c]) = None"
    and w2: "w2 = fs_move P (root @ [''.corrupted'', P ! length root, c]) w1"
    by (rule archive_pod_moves [OF assms])
  note w1 = w1 [unfolded nth] and A = A [unfolded nth] and c = c [unfolded nth] and w2 = w2 [unfolded nth]
  have ne: "P \<noteq> []" "root @ [''.corrupted'', ns, c] \<noteq> []" using P by auto
  note mv = fs_lookup_move [OF ne, of w1, folded w2]
  have diff: "\<not> prefix P (?A @ [c] @ r)" "\<not> prefix (?A @ [c]) (P @ r)" for r using P by auto
  have put: "fs_lookup w1 q = fs_lookup w q" if "q \<noteq> ?A" for q using w1 that by auto
  have PA: "P @ r \<noteq> ?A" "?A @ c # r \<noteq> ?A" for r using P by auto
  show thesis
  proof (rule that [of c])
    show "fs_lookup w2 (root @ [''.corrupted'', P ! length root, c] @ r) = fs_lookup w (P @ r)" for r
      using mv [of "?A @ [c] @ r"] put [OF PA(1)] P(1) by (simp add: nth_append)
    show "fs_lookup w2 (P @ r) = None" for r
      using mv [of "P @ r"] diff ne by simp
    show "fs_lookup w2 q = fs_lookup w q" if "\<not> prefix P q" "\<not> prefix (root @ [''.corrupted'', P ! length root, c]) q"
      "q \<noteq> root @ [''.corrupted'', P ! length root]" for q
      using that mv [of q] put [of q] P(1) by (simp add: nth_append)
    show "\<not> is_link (fs_lookup w2 (root @ [''.corrupted'', P ! length root]))"
      using mv [of ?A] A P by (auto simp: nth_append prefix_def elim!: is_dirE)
  qed (use c put [OF PA(2), of "[]"] P(1) in \<open>auto simp: nth_append\<close>)
qed

text \<open>The state in which the pods \<open>Ps\<close> can be archived.\<close>

definition archive_ready :: "fpath \<Rightarrow> fsys \<Rightarrow> fpath list \<Rightarrow> bool" where
  "archive_ready root w Ps \<longleftrightarrow> distinct Ps \<and> real_dir w (root @ [''.corrupted'']) \<and>
     (\<forall>P\<in>set Ps. pod_place root P \<and> real_dir w P \<and> \<not> is_link (fs_lookup w (root @ [''.corrupted'', P ! length root])))"

text \<open>What archiving the pods \<open>Ps\<close> does: each is gone from its place and intact at a place that was free.\<close>

definition archived_to :: "fpath \<Rightarrow> fsys \<Rightarrow> fsys \<Rightarrow> fpath \<Rightarrow> fpath \<Rightarrow> bool" where
  "archived_to root w w' P Q \<longleftrightarrow> length Q = length root + 3 \<and> prefix (root @ [''.corrupted'']) Q \<and> fs_lookup w Q = None \<and>
     (\<forall>r. fs_lookup w' (Q @ r) = fs_lookup w (P @ r)) \<and> (\<forall>r. fs_lookup w' (P @ r) = None)"

definition archive_effect :: "fpath \<Rightarrow> fsys \<Rightarrow> fsys \<Rightarrow> fpath list \<Rightarrow> string list \<Rightarrow> bool" where
  "archive_effect root w w' Ps dsts \<longleftrightarrow>
     list_all2 (\<lambda>P dst. \<exists>Q. dst = abs_path Q \<and> archived_to root w w' P Q) Ps dsts \<and>
     (\<forall>q. \<not> prefix (root @ [''.corrupted'']) q \<and> (\<forall>P\<in>set Ps. \<not> prefix P q) \<longrightarrow> fs_lookup w' q = fs_lookup w q) \<and>
     (\<forall>Q r. length Q = length root + 3 \<and> prefix (root @ [''.corrupted'']) Q \<and> fs_lookup w Q \<noteq> None \<longrightarrow>
        fs_lookup w' (Q @ r) = fs_lookup w (Q @ r))"

lemma pod_place_length: "pod_place root P \<Longrightarrow> length P = length root + 2 \<and> \<not> prefix (root @ [''.corrupted'']) P"
  by (auto simp: pod_place_def under_sys_def)

lemma prefix_same_length: "prefix xs ys \<Longrightarrow> length xs = length ys \<Longrightarrow> xs = ys"
  by (auto simp: prefix_def)

text \<open>One pod \<open>P\<close> has moved below the archive under the name \<open>c\<close>; only the directory of its namespace there may be new.\<close>

definition archive_move :: "fpath \<Rightarrow> fsys \<Rightarrow> fsys \<Rightarrow> fpath \<Rightarrow> string \<Rightarrow> bool" where
  "archive_move root w w2 P c \<longleftrightarrow> (let A = root @ [''.corrupted'', P ! length root] in
     fs_lookup w (A @ [c]) = None \<and> (\<forall>r. fs_lookup w2 (A @ [c] @ r) = fs_lookup w (P @ r)) \<and> (\<forall>r. fs_lookup w2 (P @ r) = None) \<and>
     (\<forall>q. \<not> prefix P q \<longrightarrow> \<not> prefix (A @ [c]) q \<longrightarrow> q \<noteq> A \<longrightarrow> fs_lookup w2 q = fs_lookup w q) \<and> \<not> is_link (fs_lookup w2 A))"

lemma archive_move_far:
  assumes "archive_move root w w2 P c" "\<not> prefix P q" "length q \<le> length root + 2" "q \<noteq> root @ [''.corrupted'', P ! length root]"
  shows "fs_lookup w2 q = fs_lookup w q"
  using assms prefix_length_le [of "root @ [''.corrupted'', P ! length root, c]" q] by (auto simp: archive_move_def Let_def)

lemma archive_move_keeps:
  assumes "archive_move root w w2 P c" "real_dir w q" "\<not> prefix P q" "length q \<le> length root + 2"
    and "q \<noteq> root @ [''.corrupted'', P ! length root]"
  shows "real_dir w2 q"
proof (rule dir_chain_cong [OF _ assms(2)])
  fix i assume "is_dir (fs_lookup w ([] @ take i q))"
  moreover have "\<not> prefix P (take i q)" using assms(3) by (meson prefix_order.trans take_is_prefix)
  moreover have "take i q \<noteq> root @ [''.corrupted'', P ! length root]"
  proof
    assume eq: "take i q = root @ [''.corrupted'', P ! length root]"
    from arg_cong [OF eq, of length] assms(4) have "length q \<le> i" by auto
    with eq assms(5) show False by simp
  qed
  ultimately show "is_dir (fs_lookup w2 ([] @ take i q))"
    using archive_move_far [OF assms(1), of "take i q"] assms(4) by auto
qed

lemma archive_move_ready:
  assumes "archive_ready root w (P # Ps)" "archive_move root w w2 P c"
  shows "archive_ready root w2 Ps"
  unfolding archive_ready_def
proof (intro conjI ballI)
  have len: "length P = length root + 2" "\<not> prefix (root @ [''.corrupted'']) P"
    using assms(1) pod_place_length by (auto simp: archive_ready_def)
  show "distinct Ps" using assms(1) by (simp add: archive_ready_def)
  show "real_dir w2 (root @ [''.corrupted''])"
    by (rule archive_move_keeps [OF assms(2)]) (use assms(1) len in \<open>auto simp: archive_ready_def dest: prefix_length_le\<close>)
  fix P' assume "P' \<in> set Ps"
  with assms(1) have P': "pod_place root P'" "real_dir w P'" "P' \<noteq> P"
    "\<not> is_link (fs_lookup w (root @ [''.corrupted'', P' ! length root]))"
    by (auto simp: archive_ready_def)
  note len' = pod_place_length [OF P'(1)]
  have np: "\<not> prefix P P'" using P'(3) len len' prefix_same_length by metis
  show "pod_place root P'" by (rule P'(1))
  show "real_dir w2 P'" by (rule archive_move_keeps [OF assms(2) P'(2) np]) (use len' in auto)
  show "\<not> is_link (fs_lookup w2 (root @ [''.corrupted'', P' ! length root]))"
  proof (cases "P' ! length root = P ! length root")
    case False
    have "\<not> prefix P (root @ [''.corrupted'', P' ! length root])"
      using len prefix_same_length [of P "root @ [''.corrupted'', P' ! length root]"] by auto
    with archive_move_far [OF assms(2)] False P'(4) show ?thesis by simp
  qed (use assms(2) in \<open>simp add: archive_move_def Let_def\<close>)
qed

lemma archive_move_effect:
  assumes "pod_place root P" "archive_move root w w2 P c"
  shows "archive_effect root w w2 [P] [abs_path (root @ [''.corrupted'', P ! length root, c])]"
  unfolding archive_effect_def
proof (intro conjI allI impI)
  let ?arch = "root @ [''.corrupted'']" and ?A = "root @ [''.corrupted'', P ! length root]"
  let ?dst = "abs_path (root @ [''.corrupted'', P ! length root, c])"
  note len = pod_place_length [OF assms(1)]
  show "list_all2 (\<lambda>P dst. \<exists>Q. dst = abs_path Q \<and> archived_to root w w2 P Q) [P] [?dst]"
    using assms(2) by (auto simp: archived_to_def archive_move_def Let_def intro!: exI [of _ "?A @ [c]"])
  show "fs_lookup w2 q = fs_lookup w q" if "\<not> prefix ?arch q \<and> (\<forall>P\<in>set [P]. \<not> prefix P q)" for q
    using that assms(2) by (auto simp: archive_move_def Let_def prefix_def)
  fix Q r assume Q: "length Q = length root + 3 \<and> prefix ?arch Q \<and> fs_lookup w Q \<noteq> None"
  then have "Q \<noteq> ?A @ [c]" using assms(2) by (auto simp: archive_move_def Let_def)
  then have "\<not> prefix (?A @ [c]) (Q @ r)"
    using Q prefix_length_prefix [of "?A @ [c]" "Q @ r" Q] prefix_same_length [of "?A @ [c]" Q] by auto
  moreover have "\<not> prefix P (Q @ r)"
  proof
    assume "prefix P (Q @ r)"
    then have "prefix P Q" using Q len by (auto simp: prefix_def append_eq_append_conv2)
    then have "prefix ?arch P" using len Q by (intro prefix_length_prefix [of ?arch Q P]) auto
    with len show False by simp
  qed
  moreover have "Q @ r \<noteq> ?A" using Q by (auto dest: arg_cong [where f = length])
  ultimately show "fs_lookup w2 (Q @ r) = fs_lookup w (Q @ r)" using assms(2) by (simp add: archive_move_def Let_def)
qed

lemma archive_step:
  assumes "archive_ready root w (P # Ps)" "list_all name_ok root" "root \<noteq> []"
    and "archive_pod secs (abs_path root) (abs_path P) w = Some (Inr dst, w2)"
  shows "archive_ready root w2 Ps \<and> archive_effect root w w2 [P] [dst]"
proof -
  from assms(1) have P: "pod_place root P" "real_dir w P" "real_dir w (root @ [''.corrupted''])"
    "\<not> is_link (fs_lookup w (root @ [''.corrupted'', P ! length root]))"
    by (auto simp: archive_ready_def)
  obtain c where "dst = abs_path (root @ [''.corrupted'', P ! length root, c])" "archive_move root w w2 P c"
    using archive_pod_lookup [OF P(1) assms(2,3) P(2-4) assms(4)] by (auto simp: archive_move_def Let_def)
  then show ?thesis using archive_move_ready [OF assms(1)] archive_move_effect [OF P(1)] by simp
qed

lemma pod_place_outside: "pod_place root P \<Longrightarrow> \<not> prefix (root @ [''.corrupted'']) (P @ r)"
  using pod_place_length [of root P] prefix_length_prefix [of "root @ [''.corrupted'']" "P @ r" P] by auto

lemma pod_places_apart: "pod_place root P \<Longrightarrow> pod_place root P' \<Longrightarrow> P' \<noteq> P \<Longrightarrow> \<not> prefix P' (P @ r)"
  using pod_place_length [of root P] pod_place_length [of root P'] prefix_length_prefix [of P' "P @ r" P]
    prefix_same_length [of P' P] by auto

lemma archive_effect_Cons:
  assumes "archive_ready root w (P # Ps)" "archive_effect root w w2 [P] [dst]" "archive_effect root w2 w' Ps dsts"
  shows "archive_effect root w w' (P # Ps) (dst # dsts)"
proof -
  let ?arch = "root @ [''.corrupted'']"
  from assms(1) have places: "pod_place root P" "\<And>P'. P' \<in> set Ps \<Longrightarrow> pod_place root P' \<and> P' \<noteq> P"
    by (auto simp: archive_ready_def)
  from assms(2) obtain Q where Q: "dst = abs_path Q" "archived_to root w w2 P Q" by (auto simp: archive_effect_def)
  from assms(2) have one: "\<And>q. \<not> prefix ?arch q \<Longrightarrow> \<not> prefix P q \<Longrightarrow> fs_lookup w2 q = fs_lookup w q"
    "\<And>Q r. length Q = length root + 3 \<Longrightarrow> prefix ?arch Q \<Longrightarrow> fs_lookup w Q \<noteq> None \<Longrightarrow> fs_lookup w2 (Q @ r) = fs_lookup w (Q @ r)"
    by (auto simp: archive_effect_def)
  from assms(3) have rest: "\<And>q. \<not> prefix ?arch q \<Longrightarrow> \<forall>P\<in>set Ps. \<not> prefix P q \<Longrightarrow> fs_lookup w' q = fs_lookup w2 q"
    "\<And>Q r. length Q = length root + 3 \<Longrightarrow> prefix ?arch Q \<Longrightarrow> fs_lookup w2 Q \<noteq> None \<Longrightarrow> fs_lookup w' (Q @ r) = fs_lookup w2 (Q @ r)"
    by (auto simp: archive_effect_def)
  have there: "fs_lookup w P \<noteq> None"
    using assms(1) real_dir_lookup [of w P] by (auto simp: archive_ready_def elim: is_dirE)
  have "archived_to root w w' P Q"
  proof -
    from Q(2) have "fs_lookup w2 (Q @ []) = fs_lookup w (P @ [])" unfolding archived_to_def by blast
    with there have "fs_lookup w2 Q \<noteq> None" by simp
    with rest(2) [of Q] Q(2) have "fs_lookup w' (Q @ r) = fs_lookup w (P @ r)" for r by (simp add: archived_to_def)
    moreover have "fs_lookup w' (P @ r) = None" for r
      using rest(1) [OF pod_place_outside [OF places(1)]] pod_places_apart [OF places(1)] places(2) Q(2)
      by (simp add: archived_to_def)
    ultimately show ?thesis using Q(2) by (simp add: archived_to_def)
  qed
  moreover have "archived_to root w w' P' Q'" if "P' \<in> set Ps" "archived_to root w2 w' P' Q'" for P' Q'
  proof -
    from that(2) have free: "length Q' = length root + 3" "prefix ?arch Q'" "fs_lookup w2 Q' = None"
      by (auto simp: archived_to_def)
    have "fs_lookup w Q' = None"
    proof (rule ccontr)
      assume "fs_lookup w Q' \<noteq> None"
      with one(2) [OF free(1,2) this, of "[]"] free(3) show False by simp
    qed
    moreover have "fs_lookup w2 (P' @ r) = fs_lookup w (P' @ r)" for r
      using one(1) [of "P' @ r"] pod_places_apart [of root P' P r] pod_place_outside [of root P' r] places that(1) by auto
    ultimately show ?thesis using that(2) by (simp add: archived_to_def)
  qed
  then have "list_all2 (\<lambda>P dst. \<exists>Q. dst = abs_path Q \<and> archived_to root w w' P Q) Ps dsts"
    using assms(3) unfolding archive_effect_def by (fastforce elim: list.rel_mono_strong)
  moreover have "fs_lookup w' q = fs_lookup w q" if "\<not> prefix ?arch q" "\<forall>P\<in>set (P # Ps). \<not> prefix P q" for q
    using that one(1) [of q] rest(1) [of q] by simp
  moreover have "fs_lookup w' (Q @ r) = fs_lookup w (Q @ r)"
    if "length Q = length root + 3" "prefix ?arch Q" "fs_lookup w Q \<noteq> None" for Q r
    using one(2) [OF that] rest(2) [OF that(1,2)] that(3) by (metis append_Nil2)
  ultimately show ?thesis using Q(1) unfolding archive_effect_def by auto
qed

lemma archive_all_effect:
  assumes "list_all name_ok root" "root \<noteq> []"
  shows "archive_ready root w Ps \<Longrightarrow> archive_all secs (abs_path root) (map abs_path Ps) w = Some (Inr dsts, w') \<Longrightarrow>
    archive_effect root w w' Ps dsts"
proof (induction Ps arbitrary: w dsts)
  case Nil
  then show ?case by (simp add: archive_effect_def)
next
  case (Cons P Ps)
  then obtain dst w2 where step: "archive_pod secs (abs_path root) (abs_path P) w = Some (Inr dst, w2)"
    by (auto split: option.splits sum.splits)
  with Cons.prems(2) obtain r where rest: "archive_all secs (abs_path root) (map abs_path Ps) w2 = Some (r, w')"
    "map_sum id ((#) dst) r = Inr dsts" by auto
  then obtain dsts' where "r = Inr dsts'" "dsts = dst # dsts'" by (cases r) auto
  moreover note archive_step [OF Cons.prems(1) assms step]
  ultimately show ?case
    using Cons.IH [of w2 dsts'] rest(1) archive_effect_Cons [OF Cons.prems(1)] by auto
qed

lemma fs_wf_real_dir: "fs_wf w \<Longrightarrow> list_all name_ok q \<Longrightarrow> is_dir (fs_lookup w q) \<Longrightarrow> real_dir w q"
proof (induction q rule: rev_induct)
  case (snoc c q)
  have "q @ [c] \<in> set (map fst (entries w))" using is_dir_key [OF snoc.prems(3)] by simp
  then have "is_dir (fs_lookup w q)" using snoc.prems(1) by (fastforce simp: fs_wf_def list_all_iff)
  with snoc show ?case by (auto simp: dir_chain_append name_ok_def)
qed simp

text \<open>
  C10. What the start does with the pods that have no description or have failed with a system error:
  each is gone from its place and found, with everything below it, at a place of the archive that
  was free before (the names returned); every other pod and file, and every pod archived by an
  earlier start, is exactly what it was.
\<close>

theorem archive_corrupted_moves:
  assumes "list_all name_ok root" "root \<noteq> []" "real_dir w (root @ [''.corrupted''])" "fs_wf w"
    and "\<And>s. faults w SysReaddir s = None" "faults w SysLstat (abs_path root) = None"
    and "list_all (pod_place root) (corrupted_pods w root)"
    and "\<And>ns. \<not> is_link (fs_lookup w (root @ [''.corrupted'', ns]))"
    and "archive_corrupted secs (abs_path root) w = Some (Ret (Inr dsts, w'))"
  shows "list_all2 (\<lambda>P dst. \<exists>Q. dst = abs_path Q \<and> length Q = length root + 3 \<and> prefix (root @ [''.corrupted'']) Q \<and>
      fs_lookup w Q = None \<and> (\<forall>r. fs_lookup w' (Q @ r) = fs_lookup w (P @ r)) \<and> (\<forall>r. fs_lookup w' (P @ r) = None))
      (corrupted_pods w root) dsts \<and>
    (\<forall>q. \<not> prefix (root @ [''.corrupted'']) q \<and> (\<forall>P\<in>set (corrupted_pods w root). \<not> prefix P q) \<longrightarrow>
      fs_lookup w' q = fs_lookup w q) \<and>
    (\<forall>Q r. length Q = length root + 3 \<and> prefix (root @ [''.corrupted'']) Q \<and> fs_lookup w Q \<noteq> None \<longrightarrow>
      fs_lookup w' (Q @ r) = fs_lookup w (Q @ r))"
proof -
  have root: "real_dir w root" using assms(3) by (simp add: dir_chain_append)
  have "real_dir w P" if "P \<in> set (corrupted_pods w root)" for P
  proof (rule fs_wf_real_dir [OF assms(4)])
    have "pod_place root P" using that assms(7) by (simp add: list_all_iff)
    with assms(1) show "list_all name_ok P" by (auto simp: pod_place_def)
    show "is_dir (fs_lookup w P)" using that by (auto simp: corrupted_pods_def is_pod_path_def)
  qed
  moreover have "distinct (corrupted_pods w root)" by (simp add: corrupted_pods_def walk_below_def)
  ultimately have "archive_ready root w (corrupted_pods w root)"
    using assms(3,7,8) by (auto simp: archive_ready_def list_all_iff)
  moreover have "archive_all secs (abs_path root) (map abs_path (corrupted_pods w root)) w = Some (Inr dsts, w')"
    using assms(9) collect_corrupted_walk [OF assms(1,2) root assms(4-6)] by simp
  ultimately have "archive_effect root w w' (corrupted_pods w root) dsts" by (rule archive_all_effect [OF assms(1,2)])
  then show ?thesis by (simp add: archive_effect_def archived_to_def)
qed

text \<open>A directory with a pod that has lost its description and an archive that has its name already.\<close>

definition restart_fs :: fsys where
  "restart_fs = demo_fs\<lparr>entries := [([''h''], Dir 493), ([''h'', ''.corrupted''], Dir 493),
     ([''h'', ''.corrupted'', ''default''], Dir 493), ([''h'', ''.corrupted'', ''default'', ''web''], Dir 493),
     ([''h'', ''default''], Dir 493), ([''h'', ''default'', ''web''], Dir 493), ([''h'', ''default'', ''web'', ''x''], File ''y'' 420 0),
     ([''h'', ''default'', ''ok''], Dir 493), ([''h'', ''default'', ''ok'', ''job''], Dir 493),
     ([''h'', ''default'', ''ok'', ''job'', ''pod.crd''], File ''{}'' 420 0)]\<rparr>"

lemma restart_fs_ok:
  "list_all name_ok [''h'']" "real_dir restart_fs [''h'', ''.corrupted'']" "fs_wf restart_fs"
  "corrupted_pods restart_fs [''h''] = [[''h'', ''default'', ''web'']]"
  "pod_place [''h''] [''h'', ''default'', ''web'']"
  "list_all (\<lambda>(q, n). \<not> is_link (Some n)) (entries restart_fs)"
  subgoal by (simp add: name_ok_def)
  subgoal by (simp add: restart_fs_def fs_lookup_def)
  subgoal by (simp add: restart_fs_def fs_wf_def fs_lookup_def name_ok_def)
  subgoal by code_simp
  subgoal by (simp add: pod_place_def name_ok_def under_sys_def strings_Contains_def abs_path_def)
  subgoal by (simp add: restart_fs_def)
  done

lemma restart_run:
  "(case archive_corrupted (\<lambda>i. 7) (abs_path [''h'']) restart_fs of Some (Ret (Inr dsts, w)) \<Rightarrow> dsts = [''/h/.corrupted/default/web-7''] | _ \<Rightarrow> False)"
  by code_simp

lemma restart_no_links: "\<not> is_link (fs_lookup restart_fs q)"
proof (cases "fs_lookup restart_fs q")
  case (Some n)
  then have "q = [] \<and> n = Dir 493 \<or> (q, n) \<in> set (entries restart_fs)"
    by (auto simp: fs_lookup_def dest: map_of_SomeD split: if_splits)
  with restart_fs_ok(6) Some show ?thesis by (auto simp: list_all_iff)
qed simp

lemma restart_faults [simp]: "faults restart_fs op s = None"
  by (simp add: restart_fs_def demo_fs_def)

theorem archive_corrupted_returns_witness:
  "\<exists>r. archive_corrupted (\<lambda>i. 7) (abs_path [''h'']) restart_fs = Some (Ret r)"
  by (rule archive_corrupted_returns)
    (use restart_fs_ok dir_chain_append [of restart_fs "[]" "[''h'']" "[''.corrupted'']"] in auto)

theorem archive_corrupted_moves_witness:
  "\<exists>w'. archive_corrupted (\<lambda>i. 7) (abs_path [''h'']) restart_fs = Some (Ret (Inr [''/h/.corrupted/default/web-7''], w')) \<and>
     fs_lookup w' [''h'', ''default'', ''web''] = None \<and>
     fs_lookup w' [''h'', ''.corrupted'', ''default'', ''web''] = Some (Dir 493)"
proof -
  obtain w' where run: "archive_corrupted (\<lambda>i. 7) (abs_path [''h'']) restart_fs = Some (Ret (Inr [''/h/.corrupted/default/web-7''], w'))"
    using restart_run by (auto split: option.splits outcome.splits prod.splits sum.splits)
  have arch: "real_dir restart_fs ([''h''] @ [''.corrupted''])" using restart_fs_ok(2) by simp
  have places: "list_all (pod_place [''h'']) (corrupted_pods restart_fs [''h''])" using restart_fs_ok(4,5) by simp
  note moved = archive_corrupted_moves [OF restart_fs_ok(1) _ arch restart_fs_ok(3) restart_faults restart_faults places restart_no_links run]
  have "fs_lookup w' ([''h'', ''default'', ''web''] @ []) = None" using moved restart_fs_ok(4) by auto
  moreover have "fs_lookup w' ([''h'', ''.corrupted'', ''default'', ''web''] @ []) =
      fs_lookup restart_fs ([''h'', ''.corrupted'', ''default'', ''web''] @ [])"
  proof -
    have there: "fs_lookup restart_fs [''h'', ''.corrupted'', ''default'', ''web''] \<noteq> None"
      by (simp add: restart_fs_def fs_lookup_def)
    from moved have "\<forall>Q r. length Q = length [''h''] + 3 \<and> prefix ([''h''] @ [''.corrupted'']) Q \<and> fs_lookup restart_fs Q \<noteq> None \<longrightarrow>
      fs_lookup w' (Q @ r) = fs_lookup restart_fs (Q @ r)" by simp
    from this [THEN spec [of _ "[''h'', ''.corrupted'', ''default'', ''web'']"], THEN spec [of _ "[]"]] there show ?thesis by simp
  qed
  moreover have "fs_lookup restart_fs [''h'', ''.corrupted'', ''default'', ''web''] = Some (Dir 493)"
    by (simp add: restart_fs_def fs_lookup_def)
  ultimately show ?thesis using run by auto
qed

subsection \<open>What is watched after the start\<close>

text \<open>
  With any file watcher: when the start succeeds on a watcher that watches nothing, exactly the
  directories of the pods are watched.
\<close>

context file_watcher
begin

lemma visit_watches:
  "visit_all (add w) ds s = (None, s') \<Longrightarrow> watching s' = watching s \<union> set ds"
proof (induction ds arbitrary: s)
  case (Cons d ds)
  then obtain s1 where "add w d s = (None, s1)" "visit_all (add w) ds s1 = (None, s')"
    by (auto split: prod.splits option.splits)
  with Cons.IH add_ok [of w d s s1] show ?case by auto
qed simp

lemma restored_watches:
  assumes "list_all name_ok root" "root \<noteq> []" "real_dir w root" "fs_wf w"
    and "\<And>s. faults w SysReaddir s = None" "faults w SysLstat (abs_path root) = None"
    and "restore_watchers add (abs_path root) w s = Ret (None, s')"
  shows "watching s' = watching s \<union> set (pod_directories w root)"
  using visit_watches [of w "pod_directories w root" s s'] assms(7) WalkPodDirectories_spec [OF assms(1-6), of "add w" s]
  by (auto simp: restore_watchers_def split: prod.splits)

end

lemma poller_Add_item:
  assumes "poller_Add w (abs_path p) po = (None, po')" "watchable w p"
  shows "\<exists>item. po_items po' = po_items po @ [item] \<and> item_at w p item"
  using assms record_watchable [OF assms(2)]
  by (auto simp: poller_Add_def newItemToWatch_def item_at_def split: if_splits)

lemma poller_Add_items: "poller_Add w n po = (None, po') \<Longrightarrow> set (po_items po) \<subseteq> set (po_items po')"
  by (auto simp: poller_Add_def split: if_splits sum.splits)

lemma visit_items:
  "visit_all (poller_Add w) ds po = (None, po') \<Longrightarrow>
   set (po_items po) \<subseteq> set (po_items po') \<and>
   (\<forall>p. abs_path p \<in> set ds \<and> watchable w p \<longrightarrow> (\<exists>item\<in>set (po_items po'). item_at w p item))"
proof (induction ds arbitrary: po)
  case (Cons d ds)
  then obtain po1 where one: "poller_Add w d po = (None, po1)" and rest: "visit_all (poller_Add w) ds po1 = (None, po')"
    by (auto split: prod.splits option.splits)
  have "\<exists>item\<in>set (po_items po'). item_at w p item" if "d = abs_path p" "watchable w p" for p
    using poller_Add_item [of w p po po1] one that Cons.IH [OF rest] by fastforce
  with Cons.IH [OF rest] poller_Add_items [OF one] show ?case by auto
qed simp

lemma entry_events_same: "distinct (map fst xs) \<Longrightarrow> entry_events fname xs xs = []"
proof -
  assume d: "distinct (map fst xs)"
  have "checkChange (Some fi) (map_of xs n) = None" if "(n, fi) \<in> set xs" for n fi
    using that d by (simp add: checkChange_def)
  then show ?thesis by (auto simp: entry_events_def Let_def)
qed

lemma alist_update_new: "k \<notin> fst ` set al \<Longrightarrow> AList.update k v al = al @ [(k, v)]"
  by (induction al) auto

lemma fs_children_put:
  assumes "fs_lookup w (p @ [c, f]) = None"
  shows "fs_children (fs_put (p @ [c, f]) n w) p = fs_children w p"
proof -
  have "(p @ [c, f]) \<notin> fst ` set (entries w)" using assms by (simp add: fs_lookup_def map_of_eq_None_iff)
  then have "entries (fs_put (p @ [c, f]) n w) = entries w @ [(p @ [c, f], n)]"
    by (simp add: fs_put_def alist_update_new)
  then show ?thesis by (simp add: fs_children_def butlast_append)
qed

lemma dir_infos_put: "fs_lookup w (p @ [c, f]) = None \<Longrightarrow> dir_infos (fs_put (p @ [c, f]) n w) p = dir_infos w p"
  by (simp add: dir_infos_def fs_children_put)

text \<open>
  C26. After a restart the events of the running pods are lost: the start watches the directory of
  each pod, while the job writes its control files into the directory \<open>controlfiles\<close> below it. A poll
  of the restored watch reports nothing when a file appears there.
\<close>

theorem restored_watch_misses_control_files:
  assumes "list_all name_ok root" "root \<noteq> []" "real_dir w root" "fs_wf w"
    and "\<And>s. faults w SysReaddir s = None" "faults w SysLstat (abs_path root) = None"
    and "restore_watchers poller_Add (abs_path root) w (NewPollingWatcher interval) = Ret (None, po)"
    and "key_ok k" "is_dir (fs_lookup w (pod_elems root k @ [''controlfiles'']))" "\<not> under_sys root (pod_elems root k)"
    and "fs_lookup w (pod_elems root k @ [''controlfiles'', f]) = None"
    and "\<And>op. faults w op (abs_path (pod_elems root k)) = None"
  shows "abs_path (pod_elems root k) \<in> set (po_watches po) \<and>
    ControlFileDir (abs_path (pod_elems root k)) \<notin> set (po_watches po) \<and>
    (\<exists>item\<in>set (po_items po). wi_filename item = abs_path (pod_elems root k) \<and>
       fst (watch_turn (fs_put (pod_elems root k @ [''controlfiles'', f]) (File d m t) w) item) = Inr [])"
proof -
  let ?p = "pod_elems root k" and ?w' = "fs_put (pod_elems root k @ [''controlfiles'', f]) (File d m t) w"
  have ok: "list_all name_ok ?p" using assms(1,8) by (simp add: pod_elems_def key_ok_def)
  have ctl: "real_dir w (?p @ [''controlfiles''])" by (rule fs_wf_real_dir [OF assms(4)]) (use ok assms(9) in auto)
  then have real: "real_dir w ?p" by (simp add: dir_chain_append)
  have names: "list_all name_ok q" if "q \<in> set (walk_below w root)" for q
    using that assms(4) by (auto simp: walk_below_def fs_wf_def list_all_iff)
  have "?p \<in> set (walk_below w root)"
    using is_dir_key [OF real_dir_lookup [OF real]] by (simp add: walk_below_def pod_elems_def)
  then have pod: "abs_path ?p \<in> set (pod_directories w root)"
    using real_dir_lookup [OF real] assms(10) by (auto simp: pod_directories_def is_pod_path_def pod_elems_def)
  have watched: "set (po_watches po) = set (pod_directories w root)"
    using po_watcher.restored_watches [OF assms(1-7)] by (simp add: NewPollingWatcher_def)
  have "ControlFileDir (abs_path ?p) \<noteq> abs_path q" if "q \<in> set (walk_below w root)" "is_pod_path w root q" for q
    using names [OF that(1)] that(2) ok abs_path_inject [of "?p @ [''controlfiles'']" q]
    by (auto simp: ControlFileDir_def is_pod_path_def pod_elems_def)
  then have unwatched: "ControlFileDir (abs_path ?p) \<notin> set (po_watches po)"
    unfolding watched by (auto simp: pod_directories_def)
  have watchable: "watchable w ?p" "watchable ?w' ?p"
    using ok real assms(11,12) by (auto simp: watchable_def intro!: dir_chain_put)
  have "visit_all (poller_Add w) (pod_directories w root) (NewPollingWatcher interval) = (None, po)"
    using assms(7) WalkPodDirectories_spec [OF assms(1-6), of "poller_Add w" "NewPollingWatcher interval"]
    by (auto simp: restore_watchers_def split: prod.splits)
  from visit_items [OF this] pod watchable(1) obtain item where item: "item \<in> set (po_items po)" "item_at w ?p item" by blast
  have "fst (watch_turn ?w' item) = Inr []"
    using watch_turn_dir [OF item(2) watchable(2)] dir_infos_put [OF assms(11)]
    by (auto simp: entry_events_same)
  with item pod watched unwatched show ?thesis by (auto simp: item_at_def)
qed

definition watch_fs :: fsys where
  "watch_fs = demo_fs\<lparr>entries := [([''h''], Dir 493), ([''h'', ''default''], Dir 493), ([''h'', ''default'', ''web''], Dir 493),
     ([''h'', ''default'', ''web'', ''controlfiles''], Dir 493)]\<rparr>"

lemma watch_fs_restored:
  "\<exists>po. restore_watchers poller_Add (abs_path [''h'']) watch_fs (NewPollingWatcher 5) = Ret (None, po)"
proof -
  have "(case restore_watchers poller_Add (abs_path [''h'']) watch_fs (NewPollingWatcher 5) of Ret (None, po) \<Rightarrow> True | _ \<Rightarrow> False)"
    by code_simp
  then show ?thesis by (auto split: outcome.splits prod.splits option.splits)
qed

theorem restored_watch_misses_control_files_witness:
  "\<exists>po. restore_watchers poller_Add (abs_path [''h'']) watch_fs (NewPollingWatcher 5) = Ret (None, po) \<and>
     ControlFileDir (abs_path (pod_elems [''h''] (ObjectKeyFromObject demo_pod))) \<notin> set (po_watches po)"
proof -
  obtain po where po: "restore_watchers poller_Add (abs_path [''h'']) watch_fs (NewPollingWatcher 5) = Ret (None, po)"
    using watch_fs_restored by blast
  have "ControlFileDir (abs_path (pod_elems [''h''] (ObjectKeyFromObject demo_pod))) \<notin> set (po_watches po)"
    using restored_watch_misses_control_files [of "[''h'']" watch_fs 5 po "ObjectKeyFromObject demo_pod" "''web.jobid''" "[]" 420 0]
      po demo_key_ok
    by (simp add: watch_fs_def demo_fs_def fs_wf_def fs_lookup_def name_ok_def demo_key pod_elems_def under_sys_def)
  with po show ?thesis by blast
qed

subsection \<open>Updates of a pod\<close>

text \<open>
  C11. An update of a pod is answered with the error \<open>NotFound\<close> exactly when the pod cannot be loaded,
  is discarded without any effect when the stored version is not older (as strings) or the update
  carries no job id, and otherwise, when the call returns, is what \<open>GetPod\<close> returns from then on.
\<close>

theorem VK_UpdatePod_decides:
  assumes "codec_ok (cf_codec cf)" "cf_hpk cf = abs_path root" "list_all name_ok root" "key_ok (ObjectKeyFromObject pod)"
    and "pod_home root (y_fs (v_sys v)) (ObjectKeyFromObject pod)" "\<And>s. faults (y_fs (v_sys v)) SysRead s = None"
    and "LoadPodFromKey (cf_codec cf) (cf_hpk cf) (y_fs (v_sys v)) (ObjectKeyFromObject pod) = Ret loaded"
    and "VK_UpdatePod cf pod v = Ret (e, v')"
  shows "(e = Some ErrObjectNotFound) = isl loaded \<and> (e = None) = (\<not> isl loaded) \<and>
    (if isl loaded \<or> om_resourceVersion (p_meta pod) \<le> om_resourceVersion (p_meta (projr loaded)) \<or> \<not> HasJobID pod
     then v' = v
     else VK_GetPod cf (y_fs (v_sys v')) (om_namespace (p_meta pod)) (om_name (p_meta pod)) = Ret (Inr pod))"
proof (cases loaded)
  case (Inl err)
  with assms(7,8) show ?thesis by (auto simp: VK_UpdatePod_def)
next
  case (Inr localPod)
  show ?thesis
  proof (cases "om_resourceVersion (p_meta pod) \<le> om_resourceVersion (p_meta localPod) \<or> \<not> HasJobID pod")
    case True
    with Inr assms(7,8) show ?thesis by (auto simp: VK_UpdatePod_def split: if_splits)
  next
    case False
    with Inr assms(7,8) obtain w where save: "SavePodToFile (cf_codec cf) (cf_hpk cf) (Some pod) (y_fs (v_sys v)) = Ret (None, w)"
      and res: "e = None" "v' = v\<lparr>v_sys := put_fs w (v_sys v)\<rparr>"
      by (auto simp: VK_UpdatePod_def SystemPanic_def split: option.splits)
    obtain s m where w: "w = fs_put (crd_elems root (ObjectKeyFromObject pod)) (File s m (clock (y_fs (v_sys v)))) (y_fs (v_sys v))"
      and nodir: "\<not> is_dir (fs_lookup (y_fs (v_sys v)) (crd_elems root (ObjectKeyFromObject pod)))"
      using SavePodToFile_home [OF assms(3-5) save [unfolded assms(2)]] by blast
    have "pod_home root w (ObjectKeyFromObject pod)"
      unfolding w by (rule pod_home_put_file [OF assms(5) nodir]) (simp add: crd_elems_def)
    moreover have "faults w SysRead s = None" for s using assms(6) by (simp add: w)
    ultimately have "LoadPodFromKey (cf_codec cf) (abs_path root) w (ObjectKeyFromObject pod) = Ret (Inr pod)"
      using saved_pod_loads [of "cf_codec cf" root pod w "y_fs (v_sys v)"] assms(1-4) save by simp
    then show ?thesis
      using False Inr res assms(2) by (simp add: VK_GetPod_def put_fs_def ObjectKeyFromObject_def)
  qed
qed

text \<open>
  C27. The comparison of versions is not the order of the numbers they stand for: an update whose
  version number is larger, but starts with a smaller digit than the stored one (10 after 9, 100
  after 99), is taken for old and discarded.
\<close>

theorem VK_UpdatePod_drops_newer:
  assumes "LoadPodFromKey (cf_codec cf) (cf_hpk cf) (y_fs (v_sys v)) (ObjectKeyFromObject pod) = Ret (Inr localPod)"
    and "om_resourceVersion (p_meta localPod) = nat_digits m" "om_resourceVersion (p_meta pod) = nat_digits n"
    and "m < n" "hd (nat_digits n) < hd (nat_digits m)"
  shows "VK_UpdatePod cf pod v = Ret (None, v)"
proof -
  obtain a as b bs where "nat_digits n = a # as" "nat_digits m = b # bs"
    by (metis list.exhaust nat_digits_not_Nil)
  with assms(5) have "nat_digits n \<le> nat_digits m" by simp
  with assms(1-3) show ?thesis by (simp add: VK_UpdatePod_def)
qed

text \<open>A codec that knows two pods, the stored pod and an update of it.\<close>

definition two_codec :: "pod \<Rightarrow> pod \<Rightarrow> codec" where
  "two_codec a b =
     \<lparr>json_Marshal = (\<lambda>p. if p = a then Inr ''{pod}'' else if p = b then Inr ''{new}'' else Inl (Message ''unsupported'')),
      json_Unmarshal = (\<lambda>s. if s = ''{pod}'' then Inr a else if s = ''{new}'' then Inr b else Inl (Message ''syntax''))\<rparr>"

lemma two_codec_ok: "codec_ok (two_codec a b)"
  by (auto simp: codec_ok_def two_codec_def)

definition demo_update :: "string \<Rightarrow> pod" where
  "demo_update version = SetPodID (demo_pod\<lparr>p_meta := (p_meta demo_pod)\<lparr>om_resourceVersion := version\<rparr>\<rparr>) JobIDTypeSlurm ''42''"

definition demo_provider :: provider where
  "demo_provider = \<lparr>v_config = \<lparr>ic_InternalIP = ''10.0.0.9'', ic_DaemonPort = 10250, ic_BuildVersion = ''v1'', ic_FSPollingInterval = 5\<rparr>,
     v_sys = demo_watched, v_callback = True, v_notified = []\<rparr>"

lemma demo_update_key: "ObjectKeyFromObject (demo_update v) = ObjectKeyFromObject demo_pod"
  by (simp add: demo_update_def) (simp add: ObjectKeyFromObject_def)

lemma demo_home: "pod_home [''h''] demo_run_fs (ObjectKeyFromObject demo_pod)"
  by (simp add: pod_home_def job_elems_def crd_elems_def demo_key demo_run_fs_def demo_fs_def fs_lookup_def)

lemma demo_load_with:
  assumes "json_Unmarshal c ''{pod}'' = Inr p"
  shows "LoadPodFromKey c (abs_path [''h'']) demo_run_fs (ObjectKeyFromObject demo_pod) = Ret (Inr p)"
proof (rule LoadPodFromKey_home(1))
  show "fs_lookup demo_run_fs (crd_elems [''h''] (ObjectKeyFromObject demo_pod)) = Some (File ''{pod}'' 384 0)"
    by (simp add: job_elems_def crd_elems_def demo_key demo_run_fs_def demo_fs_def fs_lookup_def)
qed (use assms demo_key_ok demo_home in \<open>simp_all add: name_ok_def demo_run_fs_def demo_fs_def\<close>)

lemma demo_update_run:
  "(case VK_UpdatePod (demo_config (two_codec demo_pod (demo_update ''2''))) (demo_update ''2'') demo_provider of
     Ret (e, v') \<Rightarrow> e = None | Panic m \<Rightarrow> False)"
  by code_simp

theorem VK_UpdatePod_decides_witness:
  "\<exists>v'. VK_UpdatePod (demo_config (two_codec demo_pod (demo_update ''2''))) (demo_update ''2'') demo_provider = Ret (None, v') \<and>
     VK_GetPod (demo_config (two_codec demo_pod (demo_update ''2''))) (y_fs (v_sys v')) ''default'' ''web'' = Ret (Inr (demo_update ''2''))"
proof -
  let ?c = "two_codec demo_pod (demo_update ''2'')"
  obtain v' where run: "VK_UpdatePod (demo_config ?c) (demo_update ''2'') demo_provider = Ret (None, v')"
    using demo_update_run by (auto split: outcome.splits prod.splits)
  have fs: "y_fs (v_sys demo_provider) = demo_run_fs" by (simp add: demo_provider_def demo_watched_fs)
  have load: "LoadPodFromKey (cf_codec (demo_config ?c)) (cf_hpk (demo_config ?c)) (y_fs (v_sys demo_provider))
      (ObjectKeyFromObject (demo_update ''2'')) = Ret (Inr demo_pod)"
    unfolding fs tiny_simps demo_update_key by (rule demo_load_with) (simp add: two_codec_def)
  have new: "om_resourceVersion (p_meta (demo_update ''2'')) = ''2''" "HasJobID (demo_update ''2'')"
    "om_namespace (p_meta (demo_update ''2'')) = ''default''" "om_name (p_meta (demo_update ''2'')) = ''web''"
    "om_resourceVersion (p_meta demo_pod) = ''1''" "\<not> ''2'' \<le> ''1''"
    by (simp_all add: demo_update_def SetPodID_def HasJobID_def demo_pod_def upd_annotations_def)
  have "VK_GetPod (demo_config ?c) (y_fs (v_sys v')) ''default'' ''web'' = Ret (Inr (demo_update ''2''))"
    using VK_UpdatePod_decides [OF _ _ _ _ _ _ load run, of "[''h'']"] two_codec_ok demo_key_ok demo_home tiny_simps new
      demo_watched_wf(4) by (simp add: demo_update_key fs)
  with run show ?thesis by blast
qed

theorem VK_UpdatePod_drops_newer_witness:
  "VK_UpdatePod (demo_config (two_codec (demo_update ''9'') (demo_update ''10''))) (demo_update ''10'') demo_provider = Ret (None, demo_provider)"
proof (rule VK_UpdatePod_drops_newer)
  show "LoadPodFromKey (cf_codec (demo_config (two_codec (demo_update ''9'') (demo_update ''10''))))
      (cf_hpk (demo_config (two_codec (demo_update ''9'') (demo_update ''10''))))
      (y_fs (v_sys demo_provider)) (ObjectKeyFromObject (demo_update ''10'')) = Ret (Inr (demo_update ''9''))"
    unfolding tiny_simps demo_update_key
    by (simp add: demo_provider_def demo_watched_fs demo_load_with two_codec_def)
  show "om_resourceVersion (p_meta (demo_update ''9'')) = nat_digits 9" by code_simp
  show "om_resourceVersion (p_meta (demo_update ''10'')) = nat_digits 10" by code_simp
  show "hd (nat_digits 10) < hd (nat_digits 9)" by code_simp
qed simp

subsection \<open>The queries\<close>

definition running_pod :: "config \<Rightarrow> fsys \<Rightarrow> string \<Rightarrow> pod list" where
  "running_pod cf w dir =
     (case os_ReadFile w (EncodedJSONPath dir) of
        Inl err \<Rightarrow> []
      | Inr encodedPod \<Rightarrow>
          (case json_Unmarshal (cf_codec cf) encodedPod of
             Inl err \<Rightarrow> [] | Inr pod \<Rightarrow> if s_phase (p_status pod) = Running then [pod] else []))"

definition readable_pod :: "config \<Rightarrow> fsys \<Rightarrow> string \<Rightarrow> bool" where
  "readable_pod cf w dir =
     (\<forall>encodedPod. os_ReadFile w (EncodedJSONPath dir) = Inr encodedPod \<longrightarrow> \<not> isl (json_Unmarshal (cf_codec cf) encodedPod))"

lemma visit_running:
  "visit_all (collect_running cf w) ds acc = (e, pods) \<Longrightarrow>
   (e = None) = (\<forall>d\<in>set ds. readable_pod cf w d) \<and> (e = None \<longrightarrow> pods = acc @ concat (map (running_pod cf w) ds))"
proof (induction ds arbitrary: acc)
  case (Cons d ds)
  show ?case
  proof (cases "os_ReadFile w (EncodedJSONPath d)")
    case (Inl err)
    with Cons show ?thesis by (auto simp: collect_running_def readable_pod_def running_pod_def)
  next
    case (Inr enc)
    show ?thesis
    proof (cases "json_Unmarshal (cf_codec cf) enc")
      case (Inr pod)
      with \<open>os_ReadFile w (EncodedJSONPath d) = Inr enc\<close> Cons.prems Cons.IH [of "acc @ running_pod cf w d"] show ?thesis
        by (auto simp: collect_running_def readable_pod_def running_pod_def split: if_splits)
    qed (use Inr Cons.prems in \<open>auto simp: collect_running_def readable_pod_def\<close>)
  qed
qed simp

text \<open>
  C19. \<open>GetPods\<close> returns, in the order of the directories, exactly the pods of the HPK directory whose
  description can be read and is in phase \<open>Running\<close>; a pod without a readable description is passed
  over, and it fails exactly when some description that can be read cannot be decoded.
\<close>

theorem VK_GetPods_running:
  assumes "cf_hpk cf = abs_path root" "list_all name_ok root" "root \<noteq> []" "real_dir w root" "fs_wf w"
    and "\<And>s. faults w SysReaddir s = None" "faults w SysLstat (abs_path root) = None"
  shows "\<exists>r. VK_GetPods cf w = Ret r \<and>
    (isl r \<longleftrightarrow> (\<exists>d\<in>set (pod_directories w root). \<exists>enc. os_ReadFile w (EncodedJSONPath d) = Inr enc \<and> isl (json_Unmarshal (cf_codec cf) enc))) \<and>
    (\<not> isl r \<longrightarrow> r = Inr (concat (map (running_pod cf w) (pod_directories w root))))"
proof -
  obtain e pods where v: "visit_all (collect_running cf w) (pod_directories w root) [] = (e, pods)" by fastforce
  then have "VK_GetPods cf w = Ret (case e of Some e \<Rightarrow> Inl (Wrapped e ''failed to traverse pods'') | None \<Rightarrow> Inr pods)"
    using assms WalkPodDirectories_spec [OF assms(2-7), of "collect_running cf w" "[]"] by (simp add: VK_GetPods_def)
  with visit_running [OF v] show ?thesis by (cases e) (auto simp: readable_pod_def)
qed

theorem VK_GetPods_running_witness:
  "\<exists>r. VK_GetPods (demo_config (one_codec (upd_status (\<lambda>s. s\<lparr>s_phase := Running\<rparr>) demo_pod))) demo_run_fs = Ret r \<and>
     (\<not> isl r \<longrightarrow> r = Inr (concat (map (running_pod (demo_config (one_codec (upd_status (\<lambda>s. s\<lparr>s_phase := Running\<rparr>) demo_pod))) demo_run_fs)
        (pod_directories demo_run_fs [''h'']))))"
  using VK_GetPods_running [of "demo_config (one_codec (upd_status (\<lambda>s. s\<lparr>s_phase := Running\<rparr>) demo_pod))" "[''h'']" demo_run_fs]
    tiny_simps demo_watched_wf by (auto simp: demo_run_fs_def demo_fs_def fs_lookup_def)

subsection \<open>The webhooks\<close>

lemma AList_update_idem: "AList.update k v (AList.update k v al) = AList.update k v al"
  by simp

lemma mutate_env_idem [simp]: "mutate_env (mutate_env env) = mutate_env env"
  by (simp add: mutate_env_def)

text \<open>
  After the mutation of a new pod no variable of a main container takes the pod's address by reference,
  a second mutation changes nothing in the containers, and updates are not touched. The variables of
  init containers stay as they are.
\<close>

lemma MutatePod_main_containers:
  "\<exists>pod'. MutatePod OperationCreate (ApiPod pod) = Some (ApiPod pod') \<and>
     (\<forall>c\<in>set (ps_containers (p_spec pod')). \<forall>e\<in>set (c_env c).
        ev_fieldRef e \<noteq> Some \<lparr>fr_apiVersion = ''v1'', fr_fieldPath = ''status.podIP''\<rparr>) \<and>
     ps_initContainers (p_spec pod') = ps_initContainers (p_spec pod) \<and>
     (\<exists>pod''. MutatePod OperationCreate (ApiPod pod') = Some (ApiPod pod'') \<and> p_spec pod'' = p_spec pod') \<and>
     MutatePod OperationUpdate (ApiPod pod) = None"
  by (auto simp: MutatePod_def Let_def mutate_env_def comp_def cong: map_cong)

end
