(* ===== verification/HPK_Root.thy ===== *)
theory HPK_Root
  imports HPK_Provider
begin

text \<open>
  The command \<open>hpk\<close> (\<open>cmd/hpk/main.go\<close>, \<open>cmd/hpk/commands/root\<close>): the options and their defaults, the
  check of the options, and the start: connection to the cluster, discovery of the name server, the
  provider, the webhooks, the pod controller and the node. What the libraries of Kubernetes and of
  the Virtual Kubelet answer is the record \<open>root_env\<close>. The lemmas say which options are refused, what
  is advertised as the node when the start succeeds, and that a start without name server ends
  silently.
\<close>

subsection \<open>Options (flag.go)\<close>

record opts =
  op_Environment :: host_env
  op_KubeletAddress :: string
  op_KubeletPort :: int
  op_K8sAPICertFilepath :: string
  op_K8sAPIKeyFilepath :: string
  op_KubeNamespace :: string
  op_NodeName :: string
  op_FSPollingInterval :: int       \<comment> \<open>durations are nanoseconds\<close>
  op_PodSyncWorkers :: int
  op_InformerResyncPeriod :: int
  op_StartupTimeout :: int
  op_DisableTaint :: bool
  op_TaintKey :: string
  op_TaintValue :: string
  op_TaintEffect :: string

definition EnvKubeletAddress :: string where "EnvKubeletAddress = ''VKUBELET_ADDRESS''"
definition EnvAPICertLocation :: string where "EnvAPICertLocation = ''APISERVER_CERT_LOCATION''"
definition EnvAPIKeyLocation :: string where "EnvAPIKeyLocation = ''APISERVER_KEY_LOCATION''"

definition time_Second :: int where "time_Second = 1000000000"

text \<open>Every flag sets its variable to the default; \<open>pflag\<close> overwrites those on the command line later.\<close>

definition installFlags :: "(string \<Rightarrow> string) \<Rightarrow> string \<Rightarrow> opts \<Rightarrow> opts" where
  "installFlags getenv home c =
     c\<lparr>op_KubeletAddress := getenv EnvKubeletAddress, op_KubeletPort := 10250,
       op_K8sAPICertFilepath := getenv EnvAPICertLocation, op_K8sAPIKeyFilepath := getenv EnvAPIKeyLocation,
       op_KubeNamespace := [], op_NodeName := ''hpk-kubelet'',
       op_Environment := (op_Environment c)\<lparr>he_ApptainerBin := ''apptainer'', he_ContainerRegistry := ''docker://'',
         he_WorkingDirectory := home, he_EnableCgroupV2 := False\<rparr>,
       op_FSPollingInterval := 5 * time_Second, op_PodSyncWorkers := 1, op_InformerResyncPeriod := 0,
       op_StartupTimeout := 30 * time_Second, op_DisableTaint := False,
       op_TaintKey := ''virtual-kubelet.io/provider'', op_TaintValue := ''hpk'', op_TaintEffect := ''NoSchedule''\<rparr>"

text \<open>An error of \<open>os.UserHomeDir\<close> is only logged.\<close>

definition GetUserHomeDir :: "go_error + string \<Rightarrow> string" where
  "GetUserHomeDir r = (case r of Inl err \<Rightarrow> [] | Inr home \<Rightarrow> home)"

subsection \<open>Informers (informers.go)\<close>

text \<open>
  An informer lists and watches one kind of object; the factory of the pods restricts it by a field
  selector. The result of waiting for the caches is dropped, so the error is always nil.
\<close>

record informer =
  if_resource :: string
  if_defaultResync :: int
  if_FieldSelector :: "(string \<times> string) option"

definition AddInformers :: "opts \<Rightarrow> informer \<times> informer \<times> informer \<times> informer \<times> informer \<times> go_error option" where
  "AddInformers c =
     (let podInformerFactory = (\<lambda>r. \<lparr>if_resource = r, if_defaultResync = op_InformerResyncPeriod c,
            if_FieldSelector = Some (''spec.nodeName'', op_NodeName c)\<rparr>);
          podInformer = podInformerFactory ''pods'';
          informerFactory = (\<lambda>r. \<lparr>if_resource = r, if_defaultResync = op_InformerResyncPeriod c, if_FieldSelector = None\<rparr>);
          secretInformer = informerFactory ''secrets'';
          configMapInformer = informerFactory ''configmaps'';
          serviceInformer = informerFactory ''services'';
          pvcInformer = informerFactory ''persistentvolumeclaims''
      in (podInformer, secretInformer, configMapInformer, serviceInformer, pvcInformer, None))"

text \<open>The pods that an informer delivers: a field selector compares one field of the object.\<close>

definition informer_pods :: "informer \<Rightarrow> pod list \<Rightarrow> pod list" where
  "informer_pods i = filter (\<lambda>p. case if_FieldSelector i of None \<Rightarrow> True
     | Some (f, v) \<Rightarrow> f = ''spec.nodeName'' \<and> ps_nodeName (p_spec p) = v)"

subsection \<open>The surroundings\<close>

definition context_Canceled :: go_error where "context_Canceled = Sentinel ''context canceled''"

record root_env =
  rt_kubeconfig :: "go_error + string"                  \<comment> \<open>the host of the API server\<close>
  rt_clientset :: "go_error option"
  rt_client :: "go_error option"
  rt_hostname :: "string \<Rightarrow> go_error + string"            \<comment> \<open>\<open>url.Parse\<close> and \<open>Hostname\<close>\<close>
  rt_dns :: "go_error option \<times> string list list"        \<comment> \<open>the addresses of the subsets of \<open>kube-dns\<close>\<close>
  rt_newWebhook :: "string \<Rightarrow> go_error option"            \<comment> \<open>\<open>kwhmutating.NewWebhook\<close>, by its ID\<close>
  rt_handlerFor :: "string \<Rightarrow> go_error option"            \<comment> \<open>\<open>kwhhttp.HandlerFor\<close>\<close>
  rt_podController :: "informer \<times> informer \<times> informer \<times> informer \<Rightarrow> go_error option"  \<comment> \<open>\<open>node.NewPodController\<close>\<close>
  rt_ready :: "int \<Rightarrow> go_error + go_error option"         \<comment> \<open>the context ended within the time, or \<open>pc.Err\<close>\<close>
  rt_nodeController :: "node \<Rightarrow> go_error option"
  rt_updateStatus :: "node \<Rightarrow> go_error option"
  rt_now :: gotime

text \<open>\<open>errors.Wrapf\<close> of a nil error is nil.\<close>

definition errors_Wrapf :: "go_error option \<Rightarrow> string \<Rightarrow> go_error option" where
  "errors_Wrapf err m = map_option (\<lambda>e. Wrapped e m) err"

subsection \<open>Steps of the start (root.go)\<close>

definition connect :: "root_env \<Rightarrow> opts \<Rightarrow> go_error + host_env" where
  "connect re c =
     (case rt_kubeconfig re of
        Inl err \<Rightarrow> Inl (Wrapped err ''unable to get kubeconfig'')
      | Inr host \<Rightarrow>
          (case rt_clientset re of
             Some err \<Rightarrow> Inl (Wrapped err ''unable to start kubernetes k8sclientset'')
           | None \<Rightarrow>
               (case rt_client re of
                  Some err \<Rightarrow> Inl (Wrapped err ''unable to start kubernetes client'')
                | None \<Rightarrow>
                    (case rt_hostname re host of
                       Inl err \<Rightarrow> Inl (Wrapped err ''failed to extract hostname from url'')
                     | Inr hostname \<Rightarrow> Inr ((op_Environment c)\<lparr>he_KubeMasterHost := hostname\<rparr>)))))"

text \<open>\<open>Inl err\<close>: the command returns \<open>err\<close>, which may be nil.\<close>

definition discoverDNS :: "root_env \<Rightarrow> host_env \<Rightarrow> go_error option + host_env" where
  "discoverDNS re env =
     (case rt_dns re of (err, subsets) \<Rightarrow>
        if (case err of Some e \<Rightarrow> \<not> errors_Is_sentinel e ''context canceled'' | None \<Rightarrow> False)
        then Inl (errors_Wrapf err ''unable to discover dns server'')
        else case subsets of
          [] \<Rightarrow> Inl (errors_Wrapf err ''empty dns subsets'')
        | [] # _ \<Rightarrow> Inl (errors_Wrapf err ''empty dns addresses'')
        | (ip # _) # _ \<Rightarrow> Inr (env\<lparr>he_KubeDNS := ip\<rparr>))"

text \<open>
  The HTTP server of the node (\<open>admission.go\<close>). A webhook that cannot be made panics; the routes for
  logs and remote commands are those of the Virtual Kubelet.
\<close>

datatype http_handler = Mutator "operation \<Rightarrow> api_object \<Rightarrow> api_object option" | Text string | PodRoutes

record kubelet_server =
  ks_Addr :: string
  ks_Cert :: string
  ks_Key :: string
  ks_Routes :: "(string \<times> http_handler) list"

definition new_mutator :: "root_env \<Rightarrow> string \<Rightarrow> unit outcome" where
  "new_mutator re webhookID =
     (if rt_newWebhook re webhookID \<noteq> None then Panic ''error creating webhook''
      else if rt_handlerFor re webhookID \<noteq> None then Panic ''error creating webhook handler'' else Ret ())"

definition AddAdmissionWebhooks :: "root_env \<Rightarrow> opts \<Rightarrow> kubelet_server outcome" where
  "AddAdmissionWebhooks re c =
     bind_outcome (new_mutator re ''pod-annotate'') (\<lambda>_.
       bind_outcome (new_mutator re ''pvc-annotate'') (\<lambda>_.
         Ret \<lparr>ks_Addr = '':'' @ strconv_Itoa (op_KubeletPort c), ks_Cert = op_K8sAPICertFilepath c, ks_Key = op_K8sAPIKeyFilepath c,
           ks_Routes = [(''/mutates/pod'', Mutator MutatePod), (''/mutates/pvc'', Mutator MutatePVC),
             (''/hello'', Text (''Hi there! I 'm HPK-Kubelet. My job is to run your Kubernetes stuff on Slurm.'' @ [CHR 0x0A])), (''/'', PodRoutes)]\<rparr>))"

definition startPodController :: "root_env \<Rightarrow> opts \<Rightarrow> go_error option" where
  "startPodController re c =
     (case AddInformers c of
        (_, _, _, _, _, Some err) \<Rightarrow> Some (Wrapped err ''failed to add informers'')
      | (podInformer, secretInformer, configMapInformer, serviceInformer, _, None) \<Rightarrow>
          (case rt_podController re (podInformer, configMapInformer, secretInformer, serviceInformer) of
             Some err \<Rightarrow> Some err
           | None \<Rightarrow>
               if op_StartupTimeout c > 0
               then (case rt_ready re (op_StartupTimeout c) of Inl err \<Rightarrow> Some err | Inr err \<Rightarrow> err)
               else None))"

definition getTaint :: "opts \<Rightarrow> go_error + node_taint" where
  "getTaint c =
     (if op_TaintEffect c \<in> set [''NoSchedule'', ''NoExecute'', ''PreferNoSchedule'']
      then Inr \<lparr>nt_Key = op_TaintKey c, nt_Value = op_TaintValue c, nt_Effect = op_TaintEffect c\<rparr>
      else Inl (Message (''taint effect '' @ op_TaintEffect c @ '' is not supported'')))"

text \<open>The first condition of the type \<open>Ready\<close> is replaced.\<close>

fun set_ready :: "gotime \<Rightarrow> node_condition list \<Rightarrow> node_condition list" where
  "set_ready t [] = []"
| "set_ready t (c # cs) =
     (if nc_Type c \<noteq> ''Ready'' then c # set_ready t cs
      else c\<lparr>nc_LastHeartbeatTime := t, nc_LastTransitionTime := t, nc_Reason := ''KubeletReady'',
             nc_Message := ''HPK is successfully connected to Slurm'', nc_Status := ConditionTrue\<rparr> # cs)"

definition setNodeReady :: "gotime \<Rightarrow> node \<Rightarrow> node" where
  "setNodeReady t n = n\<lparr>no_Conditions := set_ready t (no_Conditions n)\<rparr>"

text \<open>
  The handler that the node controller calls when the status cannot be updated: a node that is gone
  is created again. (\<open>newNode.ResourceVersion\<close> is empty already.)
\<close>

definition nodeStatusErrorHandler :: "(go_error \<Rightarrow> bool) \<Rightarrow> (node \<Rightarrow> go_error option) \<Rightarrow> node \<Rightarrow> go_error \<Rightarrow> go_error option" where
  "nodeStatusErrorHandler isNotFound create virtualNode err =
     (if \<not> isNotFound err then Some err else create virtualNode)"

definition startNode :: "config \<Rightarrow> (string \<Rightarrow> go_error + node_info list) \<Rightarrow> (go_error + os_info) outcome \<Rightarrow> string \<times> string \<Rightarrow>
    root_env \<Rightarrow> opts \<Rightarrow> init_config \<Rightarrow> host \<Rightarrow> (go_error option \<times> node option) outcome \<times> host" where
  "startNode cf decode getInfo platform re c config h =
     (case (if op_DisableTaint c then Inr None else map_sum id Some (getTaint c)) of
        Inl err \<Rightarrow> (Ret (Some err, None), h)
      | Inr taint \<Rightarrow>
          (case NewVirtualNode cf decode getInfo platform config (op_NodeName c) taint h of
             (Panic m, h1) \<Rightarrow> (Panic m, h1)
           | (Ret virtualNode, h1) \<Rightarrow>
               (case rt_nodeController re virtualNode of
                  Some err \<Rightarrow> (Ret (Some err, None), h1)
                | None \<Rightarrow>
                    let ready = setNodeReady (rt_now re) virtualNode
                    in case rt_updateStatus re ready of
                         Some err \<Rightarrow> (Ret (Some (Wrapped err ''error marking the node as ready''), Some ready), h1)
                       | None \<Rightarrow> (Ret (None, Some ready), h1))))"

text \<open>
  The command. The result is the error, the provider when it was started, the node when it was
  advertised, and the host; \<open>None\<close> is a start that does not end.
\<close>

record 'w root_result =
  rr_error :: "go_error option"
  rr_provider :: "(init_config \<times> string \<times> string \<times> 'w) option"
  rr_node :: "node option"
  rr_environment :: "host_env option"

definition root_config :: "string \<Rightarrow> opts \<Rightarrow> init_config" where
  "root_config buildVersion c = \<lparr>ic_InternalIP = op_KubeletAddress c, ic_DaemonPort = op_KubeletPort c,
     ic_BuildVersion = buildVersion, ic_FSPollingInterval = op_FSPollingInterval c\<rparr>"

definition runRootCommand :: "config \<Rightarrow> (string \<Rightarrow> go_error + node_info list) \<Rightarrow> (go_error + os_info) outcome \<Rightarrow> string \<times> string \<Rightarrow>
    string \<Rightarrow> (nat \<Rightarrow> nat) \<Rightarrow> (int \<Rightarrow> 'w) \<Rightarrow> (go_error + 'w) \<Rightarrow> (fsys \<Rightarrow> string \<Rightarrow> 'w \<Rightarrow> go_error option \<times> 'w) \<Rightarrow>
    root_env \<Rightarrow> opts \<Rightarrow> host \<Rightarrow> ('w root_result \<times> host) outcome option" where
  "runRootCommand cf decode getInfo platform buildVersion secs newPolling newEvent add re c h =
     (let stop = (\<lambda>err v nd env h'. Some (Ret (\<lparr>rr_error = err, rr_provider = v, rr_node = nd, rr_environment = env\<rparr>, h')))
      in case connect re c of
           Inl err \<Rightarrow> stop (Some err) None None None h
         | Inr env0 \<Rightarrow>
             (case discoverDNS re env0 of
                Inl err \<Rightarrow> stop err None None (Some env0) h
              | Inr env \<Rightarrow>
                  (case NewVirtualK8S (cf_proc cf) env secs newPolling newEvent add (root_config buildVersion c) h of
                     None \<Rightarrow> None
                   | Some (Panic m) \<Rightarrow> Some (Panic m)
                   | Some (Ret (Inl err, h1)) \<Rightarrow> stop (Some err) None None (Some env) h1
                   | Some (Ret (Inr v, h1)) \<Rightarrow>
                       (case AddAdmissionWebhooks re c of
                          Panic m \<Rightarrow> Some (Panic m)
                        | Ret server \<Rightarrow>
                            (case startPodController re c of
                               Some err \<Rightarrow> stop (Some err) (Some v) None (Some env) h1
                             | None \<Rightarrow>
                                 (case startNode cf decode getInfo platform re c (root_config buildVersion c) h1 of
                                    (Panic m, h2) \<Rightarrow> Some (Panic m)
                                  | (Ret (err, nd), h2) \<Rightarrow> stop err (Some v) nd (Some env) h2))))))"

subsection \<open>The command line\<close>

text \<open>The errors that \<open>RunE\<close> collects with \<open>multierror\<close>; the start runs only when there are none.\<close>

definition option_errors :: "opts \<Rightarrow> string list" where
  "option_errors c =
     (if op_PodSyncWorkers c = 0 then [''pod sync workers must be greater than 0''] else []) @
     (if op_KubeletAddress c = [] then [''empty kubelet address. Use flags or set '' @ EnvKubeletAddress] else []) @
     (if op_K8sAPICertFilepath c = [] then [''empty certificate path. Use flags or set '' @ EnvAPICertLocation] else []) @
     (if op_K8sAPIKeyFilepath c = [] then [''empty key path. Use flags or set '' @ EnvAPIKeyLocation] else [])"

definition NewCommand_RunE :: "(opts \<Rightarrow> host \<Rightarrow> 'r) \<Rightarrow> opts \<Rightarrow> host \<Rightarrow> string list + 'r" where
  "NewCommand_RunE run c h = (if option_errors c \<noteq> [] then Inl (option_errors c) else Inr (run c h))"

text \<open>
  \<open>main\<close>: the check of the log level before a command runs, the exit status after it (an interrupted
  start is no failure), and the subcommands \<open>version\<close> and \<open>providers\<close> with the text they print.
\<close>

definition PersistentPreRunE :: "(string \<Rightarrow> go_error option) \<Rightarrow> string \<Rightarrow> go_error option" where
  "PersistentPreRunE parseLevel logLevel =
     (if logLevel \<noteq> [] then errors_Wrapf (parseLevel logLevel) ''could not parse log level'' else None)"

definition main_exit :: "go_error option \<Rightarrow> nat" where
  "main_exit err = (case err of None \<Rightarrow> 0 | Some e \<Rightarrow> if error_cause e \<noteq> context_Canceled then 1 else 0)"

definition NewVersionCommand :: "string \<Rightarrow> string \<Rightarrow> string" where
  "NewVersionCommand version buildTime = ''Version: '' @ version @ '', Built: '' @ buildTime @ [CHR 0x0A]"

definition NewRootCommand :: "string list \<Rightarrow> string \<times> nat" where
  "NewRootCommand args =
     (case args of
        [] \<Rightarrow> (''hpk'' @ [CHR 0x0A], 0)
      | [a] \<Rightarrow> if a \<noteq> ''hpk'' then (''no such provider '' @ a @ [CHR 0x0A], 1) else (a @ [CHR 0x0A], 0)
      | _ \<Rightarrow> ([], 0))"

subsection \<open>Lemmas of the steps\<close>

lemma discoverDNS_cases:
  assumes "discoverDNS re env = r"
  obtains (found) ip ips rest where "snd (rt_dns re) = (ip # ips) # rest" "r = Inr (env\<lparr>he_KubeDNS := ip\<rparr>)"
    | (silent) "fst (rt_dns re) = None" "r = Inl None" "snd (rt_dns re) = [] \<or> hd (snd (rt_dns re)) = []"
    | (failed) e where "r = Inl (Some e)"
  using assms by (cases "rt_dns re"; cases "fst (rt_dns re)")
    (auto simp: discoverDNS_def errors_Wrapf_def split: if_splits list.splits)

lemma set_ready_types: "map nc_Type (set_ready t cs) = map nc_Type cs"
  by (induction cs) auto

lemma set_ready_others: "filter (\<lambda>c. nc_Type c \<noteq> ''Ready'') (set_ready t cs) = filter (\<lambda>c. nc_Type c \<noteq> ''Ready'') cs"
  by (induction cs) auto

lemma set_ready_NodeConditions:
  "set_ready t (NodeConditions t0) =
     \<lparr>nc_Type = ''Ready'', nc_Status = ConditionTrue, nc_LastHeartbeatTime = t, nc_LastTransitionTime = t,
       nc_Reason = ''KubeletReady'', nc_Message = ''HPK is successfully connected to Slurm''\<rparr> # tl (NodeConditions t0)"
  by (simp add: NodeConditions_def)

text \<open>The node that the options ask for, once it is ready.\<close>

definition node_of_opts :: "string \<Rightarrow> opts \<Rightarrow> gotime \<Rightarrow> node \<Rightarrow> bool" where
  "node_of_opts buildVersion c t n \<longleftrightarrow> no_Name n = op_NodeName c \<and>
     no_Taints n = (if op_DisableTaint c then [] else [\<lparr>nt_Key = op_TaintKey c, nt_Value = op_TaintValue c, nt_Effect = op_TaintEffect c\<rparr>]) \<and>
     no_Addresses n = [(''ExternalIP'', op_KubeletAddress c), (''InternalIP'', op_KubeletAddress c)] \<and>
     no_KubeletPort n = op_KubeletPort c \<and>
     (\<forall>cond\<in>set (no_Conditions n). nc_Status cond = (if nc_Type cond = ''Ready'' then ConditionTrue else ConditionFalse)) \<and>
     (\<exists>cond\<in>set (no_Conditions n). nc_Type cond = ''Ready'' \<and> nc_Reason cond = ''KubeletReady'' \<and> nc_LastTransitionTime cond = t)"

lemma NewVirtualNode_Ret:
  assumes "NewVirtualNode cf decode getInfo platform config name taint h = (Ret n, h')"
  shows "no_Name n = name" "no_Taints n = (case taint of None \<Rightarrow> [] | Some t \<Rightarrow> [t])" "no_Addresses n = NodeAddresses config"
    "no_KubeletPort n = ic_DaemonPort config" "no_Conditions n = NodeConditions (now (h_fs h))"
  using assms by (auto simp: NewVirtualNode_def NodeDaemonEndpoints_def split: prod.splits outcome.splits)

lemma startNode_Ret:
  assumes "startNode cf decode getInfo platform re c (root_config bv c) h = (Ret (None, nd), h')"
  shows "\<exists>n. nd = Some n \<and> node_of_opts bv c (rt_now re) n"
proof -
  obtain taint where t: "(if op_DisableTaint c then Inr None else map_sum id Some (getTaint c)) = Inr taint"
    using assms by (auto simp: startNode_def split: sum.splits)
  then have taints: "(case taint of None \<Rightarrow> [] | Some t \<Rightarrow> [t]) =
      (if op_DisableTaint c then [] else [\<lparr>nt_Key = op_TaintKey c, nt_Value = op_TaintValue c, nt_Effect = op_TaintEffect c\<rparr>])"
    by (auto simp: getTaint_def split: if_splits)
  obtain n h1 where n: "NewVirtualNode cf decode getInfo platform (root_config bv c) (op_NodeName c) taint h = (Ret n, h1)"
    "nd = Some (setNodeReady (rt_now re) n)"
    using assms t by (auto simp: startNode_def Let_def split: prod.splits outcome.splits option.splits)
  from NewVirtualNode_Ret [OF n(1)] taints have "node_of_opts bv c (rt_now re) (setNodeReady (rt_now re) n)"
    by (simp add: node_of_opts_def setNodeReady_def set_ready_NodeConditions NodeAddresses_def root_config_def) (simp add: NodeConditions_def)
  with n(2) show ?thesis by blast
qed

text \<open>
  C29. A start of HPK that ends without an error has advertised the node that the options describe, with
  their name, taint, address and port and the condition \<open>Ready\<close> set after the node controller was
  ready, and has put the first address of the cluster's name server into the environment of the pods.
  The taint is that of the options alone: the comment on \<open>getTaint\<close>, that its effect is read from the
  environment and its key and value may be overwritten by it, does not describe the code.
  The one exception is a cluster whose name server has no address yet: then the command returns no
  error although nothing was started.
\<close>

theorem runRootCommand_node:
  assumes "runRootCommand cf decode getInfo platform bv secs newPolling newEvent add re c h = Some (Ret (r, h'))"
    and "rr_error r = None"
  shows "(\<exists>n ip ips rest env. rr_node r = Some n \<and> node_of_opts bv c (rt_now re) n \<and> rr_provider r \<noteq> None \<and>
      snd (rt_dns re) = (ip # ips) # rest \<and> rr_environment r = Some env \<and> he_KubeDNS env = ip) \<or>
    (rr_node r = None \<and> rr_provider r = None \<and> h' = h \<and> fst (rt_dns re) = None \<and>
      (snd (rt_dns re) = [] \<or> hd (snd (rt_dns re)) = []))"
proof -
  obtain env0 where c: "connect re c = Inr env0" using assms by (auto simp: runRootCommand_def split: sum.splits)
  from refl [of "discoverDNS re env0"] show ?thesis
  proof (cases rule: discoverDNS_cases)
    case (found ip ips rest)
    obtain v h1 nd where "startNode cf decode getInfo platform re c (root_config bv c) h1 = (Ret (None, nd), h')"
      "rr_node r = nd" "rr_provider r = Some v" "rr_environment r = Some (env0\<lparr>he_KubeDNS := ip\<rparr>)"
      using assms c found(2)
      by (auto simp: runRootCommand_def Let_def split: option.splits outcome.splits sum.splits prod.splits)
    with startNode_Ret [OF this(1)] found(1) show ?thesis by auto
  next
    case silent
    then show ?thesis using assms c by (auto simp: runRootCommand_def)
  next
    case (failed e)
    then show ?thesis using assms c by (auto simp: runRootCommand_def)
  qed
qed

text \<open>Which options are refused; the defaults are accepted as soon as the three variables are set.\<close>

lemma RunE_options:
  "isl (NewCommand_RunE run c h) \<longleftrightarrow>
     op_PodSyncWorkers c = 0 \<or> op_KubeletAddress c = [] \<or> op_K8sAPICertFilepath c = [] \<or> op_K8sAPIKeyFilepath c = []"
  "length (option_errors c) = length (filter id [op_PodSyncWorkers c = 0, op_KubeletAddress c = [], op_K8sAPICertFilepath c = [], op_K8sAPIKeyFilepath c = []])"
  by (auto simp: NewCommand_RunE_def option_errors_def)

lemma RunE_defaults:
  assumes "getenv EnvKubeletAddress \<noteq> []" "getenv EnvAPICertLocation \<noteq> []" "getenv EnvAPIKeyLocation \<noteq> []"
  shows "NewCommand_RunE run (installFlags getenv home c) h = Inr (run (installFlags getenv home c) h)"
    and "\<not> isl (getTaint (installFlags getenv home c))"
  using assms by (simp_all add: NewCommand_RunE_def option_errors_def installFlags_def getTaint_def)

text \<open>The pods that reach the provider are those bound to the name under which the node is advertised.\<close>

lemma AddInformers_pods:
  assumes "AddInformers c = (i, rest)" "node_of_opts bv c t n"
  shows "informer_pods i pods = filter (\<lambda>p. ps_nodeName (p_spec p) = no_Name n) pods"
  using assms by (auto simp: AddInformers_def informer_pods_def node_of_opts_def)

text \<open>A start that ends silently for want of a name server is a success for the shell as well.\<close>

lemma silent_start_exit:
  assumes "connect re c = Inr env0" "rt_dns re = (None, [])"
  shows "\<exists>r. runRootCommand cf decode getInfo platform bv secs newPolling newEvent add re c h = Some (Ret (r, h)) \<and> main_exit (rr_error r) = 0"
  using assms by (simp add: runRootCommand_def discoverDNS_def errors_Wrapf_def main_exit_def)

text \<open>A negative number of workers passes the check.\<close>

lemma RunE_negative_workers: "option_errors (c\<lparr>op_PodSyncWorkers := -1\<rparr>) = option_errors (c\<lparr>op_PodSyncWorkers := 1\<rparr>)"
  by (simp add: option_errors_def)

subsection \<open>Witness\<close>

text \<open>A start with the default options on an empty home directory, polling the files.\<close>

definition demo_opts :: opts where
  "demo_opts = installFlags (\<lambda>k. ''10.0.0.9'') ''/h''
     \<lparr>op_Environment = \<lparr>he_KubeMasterHost = [], he_ContainerRegistry = [], he_ApptainerBin = [], he_EnableCgroupV2 = False,
        he_WorkingDirectory = [], he_KubeDNS = []\<rparr>, op_KubeletAddress = [], op_KubeletPort = 0, op_K8sAPICertFilepath = [],
      op_K8sAPIKeyFilepath = [], op_KubeNamespace = [], op_NodeName = [], op_FSPollingInterval = 0, op_PodSyncWorkers = 0,
      op_InformerResyncPeriod = 0, op_StartupTimeout = 0, op_DisableTaint = False, op_TaintKey = [], op_TaintValue = [],
      op_TaintEffect = []\<rparr>"

definition demo_root_env :: root_env where
  "demo_root_env = \<lparr>rt_kubeconfig = Inr ''https://10.0.0.1:6443'', rt_clientset = None, rt_client = None,
     rt_hostname = (\<lambda>u. Inr ''10.0.0.1''), rt_dns = (None, [[''10.0.0.2'']]), rt_newWebhook = (\<lambda>i. None), rt_handlerFor = (\<lambda>i. None),
     rt_podController = (\<lambda>is. None), rt_ready = (\<lambda>t. Inr None), rt_nodeController = (\<lambda>n. None), rt_updateStatus = (\<lambda>n. None), rt_now = Some 5\<rparr>"

definition demo_start :: "(poller root_result \<times> host) outcome option" where
  "demo_start = runRootCommand (demo_config (one_codec demo_pod)) (\<lambda>s. Inr []) (Ret (Inl (Message []))) (''linux'', ''amd64'') ''v1'' (\<lambda>i. 7)
     NewPollingWatcher (Inl (Message [])) poller_Add demo_root_env demo_opts
     \<lparr>h_fs = demo_fs\<lparr>entries := [([''h''], Dir 493)]\<rparr>, h_cmds = []\<rparr>"

lemma demo_start_ok: "\<exists>r h'. demo_start = Some (Ret (r, h')) \<and> rr_error r = None \<and> rr_node r \<noteq> None"
proof -
  let ?cf = "demo_config (one_codec demo_pod)" and ?h = "\<lparr>h_fs = demo_fs\<lparr>entries := [([''h''], Dir 493)]\<rparr>, h_cmds = []\<rparr>"
  define env where "env = (op_Environment demo_opts)\<lparr>he_KubeMasterHost := ''10.0.0.1'', he_KubeDNS := ''10.0.0.2''\<rparr>"
  let ?v = "NewVirtualK8S (cf_proc ?cf) env (\<lambda>i. 7) NewPollingWatcher (Inl (Message [])) poller_Add (root_config ''v1'' demo_opts) ?h"
  let ?n = "\<lambda>h. startNode ?cf (\<lambda>s. Inr []) (Ret (Inl (Message []))) (''linux'', ''amd64'') demo_root_env demo_opts (root_config ''v1'' demo_opts) h"
  have "case ?v of Some (Ret (Inr v, h1)) \<Rightarrow> (case ?n h1 of (Ret (None, Some x), h2) \<Rightarrow> True | _ \<Rightarrow> False) | _ \<Rightarrow> False"
    unfolding env_def by code_simp
  then obtain v h1 x h2 where "?v = Some (Ret (Inr v, h1))" "?n h1 = (Ret (None, Some x), h2)"
    by (auto split: option.splits outcome.splits prod.splits sum.splits)
  moreover have "connect demo_root_env demo_opts = Inr ((op_Environment demo_opts)\<lparr>he_KubeMasterHost := ''10.0.0.1''\<rparr>)"
    by (simp add: connect_def demo_root_env_def)
  moreover have "discoverDNS demo_root_env e = Inr (e\<lparr>he_KubeDNS := ''10.0.0.2''\<rparr>)" for e by (simp add: discoverDNS_def demo_root_env_def)
  moreover have "\<exists>server. AddAdmissionWebhooks demo_root_env demo_opts = Ret server"
    by (simp add: AddAdmissionWebhooks_def new_mutator_def demo_root_env_def)
  moreover have "startPodController demo_root_env demo_opts = None"
    by (simp add: startPodController_def AddInformers_def demo_root_env_def)
  ultimately show ?thesis by (auto simp: demo_start_def runRootCommand_def env_def)
qed

theorem runRootCommand_node_witness:
  "\<exists>r h' n. demo_start = Some (Ret (r, h')) \<and> rr_node r = Some n \<and> no_Name n = ''hpk-kubelet'' \<and>
     no_Taints n = [\<lparr>nt_Key = ''virtual-kubelet.io/provider'', nt_Value = ''hpk'', nt_Effect = ''NoSchedule''\<rparr>]"
proof -
  obtain r h' where r: "demo_start = Some (Ret (r, h'))" "rr_error r = None" "rr_node r \<noteq> None"
    using demo_start_ok by blast
  from runRootCommand_node [OF r(1) [unfolded demo_start_def] r(2)] r(3)
  obtain n where "rr_node r = Some n" "node_of_opts ''v1'' demo_opts (rt_now demo_root_env) n" by (elim disjE exE conjE) simp_all
  with r(1) show ?thesis by (auto simp: node_of_opts_def demo_opts_def installFlags_def)
qed

end
