(* ===== verification/HPK_Scheduler.thy ===== *)
theory HPK_Scheduler
  imports HPK_Provider
begin

text \<open>
  The program \<open>k3s/random-scheduler\<close>: it queues the pods that have no node yet and binds each to a
  random node. The informers run beside the loop of the scheduler, so the program is the step relation
  \<open>sched_step\<close> on the queue and the history of calls to the API server, whose answers are the
  parameter \<open>api\<close>. The invariant relates the calls to the pods that were handed over.
\<close>

subsection \<open>Calls to the API server\<close>

record binding =
  bi_Name :: string
  bi_Namespace :: string
  bi_TargetAPIVersion :: string
  bi_TargetKind :: string
  bi_TargetName :: string

record sched_event =
  se_Namespace :: string
  se_Count :: int
  se_Message :: string
  se_Reason :: string
  se_LastTimestamp :: gotime
  se_FirstTimestamp :: gotime
  se_Type :: string
  se_Component :: string
  se_InvolvedKind :: string
  se_InvolvedName :: string
  se_InvolvedNamespace :: string
  se_InvolvedUID :: string
  se_GenerateName :: string

datatype sched_call = Bind binding | CreateEvent sched_event

type_synonym sched_history = "(sched_call \<times> go_error option) list"

text \<open>The answer to a call may depend on everything that was asked before.\<close>

type_synonym sched_api = "sched_history \<Rightarrow> sched_call \<Rightarrow> go_error option"

definition api_call :: "sched_api \<Rightarrow> sched_call \<Rightarrow> sched_history \<Rightarrow> go_error option \<times> sched_history" where
  "api_call api c h = (let err = api h c in (err, h @ [(c, err)]))"

definition schedulerName :: string where "schedulerName = ''random-scheduler''"

definition bindPod :: "sched_api \<Rightarrow> pod \<Rightarrow> string \<Rightarrow> sched_history \<Rightarrow> go_error option \<times> sched_history" where
  "bindPod api p node =
     api_call api (Bind \<lparr>bi_Name = om_name (p_meta p), bi_Namespace = om_namespace (p_meta p),
       bi_TargetAPIVersion = ''v1'', bi_TargetKind = ''Node'', bi_TargetName = node\<rparr>)"

definition emitEvent :: "sched_api \<Rightarrow> gotime \<Rightarrow> pod \<Rightarrow> string \<Rightarrow> sched_history \<Rightarrow> go_error option \<times> sched_history" where
  "emitEvent api timestamp p message =
     api_call api (CreateEvent \<lparr>se_Namespace = om_namespace (p_meta p), se_Count = 1, se_Message = message,
       se_Reason = ''Scheduled'', se_LastTimestamp = timestamp, se_FirstTimestamp = timestamp, se_Type = ''Normal'',
       se_Component = schedulerName, se_InvolvedKind = ''Pod'', se_InvolvedName = om_name (p_meta p),
       se_InvolvedNamespace = om_namespace (p_meta p), se_InvolvedUID = om_uid (p_meta p),
       se_GenerateName = om_name (p_meta p) @ ''-''\<rparr>)"

subsection \<open>Scheduling one pod\<close>

text \<open>\<open>rand.Intn(n)\<close>; \<open>r\<close> is the raw value of the generator.\<close>

definition rand_Intn :: "nat \<Rightarrow> nat \<Rightarrow> nat outcome" where
  "rand_Intn r n = (if n = 0 then Panic ''invalid argument to Intn'' else Ret (r mod n))"

text \<open>How the treatment of a pod ended (what the log says).\<close>

datatype sched_result = ListFailed go_error | BindFailed string go_error | EventFailed string go_error | Placed string

definition placed_message :: "pod \<Rightarrow> string \<Rightarrow> string" where
  "placed_message p node =
     ''Placed pod '' @ om_namespace (p_meta p) @ ''/'' @ om_name (p_meta p) @ '' on '' @ node @ [CHR 0x0A]"

definition scheduleOne :: "sched_api \<Rightarrow> gotime \<Rightarrow> go_error + node list \<Rightarrow> nat \<Rightarrow> pod \<Rightarrow> sched_history \<Rightarrow>
    (sched_result \<times> sched_history) outcome" where
  "scheduleOne api t listed r p h =
     (case listed of
        Inl err \<Rightarrow> Ret (ListFailed err, h)
      | Inr nodes \<Rightarrow>
          bind_outcome (rand_Intn r (length nodes)) (\<lambda>i.
            let node = no_Name (nodes ! i)
            in case bindPod api p node h of
                 (Some err, h1) \<Rightarrow> Ret (BindFailed node err, h1)
               | (None, h1) \<Rightarrow>
                   (case emitEvent api t p (placed_message p node) h1 of
                      (Some err, h2) \<Rightarrow> Ret (EventFailed node err, h2)
                    | (None, h2) \<Rightarrow> Ret (Placed node, h2))))"

subsection \<open>The program\<close>

record scheduler =
  sd_queue :: "pod list"                        \<comment> \<open>the channel \<open>podQueue\<close>\<close>
  sd_calls :: sched_history
  sd_added :: "pod list"                        \<comment> \<open>the pods the informer has put into the queue\<close>
  sd_done :: "(pod \<times> sched_result) list"
  sd_crashed :: bool

definition podQueueSize :: nat where "podQueueSize = 300"

text \<open>The handler \<open>AddFunc\<close> of the pod informer.\<close>

definition pod_added :: "api_object \<Rightarrow> pod option" where
  "pod_added obj =
     (case obj of ApiPod pod \<Rightarrow> if ps_nodeName (p_spec pod) = [] then Some pod else None | _ \<Rightarrow> None)"

text \<open>
  \<open>build\<close>, \<open>inCluster\<close> and \<open>newClient\<close> are the functions of \<open>client-go\<close>; an error ends the program.
\<close>

definition newScheduler :: "(string \<Rightarrow> string) \<Rightarrow> string \<Rightarrow> (string \<Rightarrow> go_error + 'c) \<Rightarrow> go_error + 'c \<Rightarrow> ('c \<Rightarrow> go_error option) \<Rightarrow>
    go_error + scheduler" where
  "newScheduler getenv home build inCluster newClient =
     (let kubeconfig = (if getenv ''KUBECONFIG'' = [] then filepath_Join [home, ''.kube'', ''config''] else getenv ''KUBECONFIG'');
          config = (case build kubeconfig of Inl err \<Rightarrow> inCluster | Inr c \<Rightarrow> Inr c)
      in case config of
           Inl err \<Rightarrow> Inl err
         | Inr c \<Rightarrow>
             (case newClient c of
                Some err \<Rightarrow> Inl err
              | None \<Rightarrow> Inr \<lparr>sd_queue = [], sd_calls = [], sd_added = [], sd_done = [], sd_crashed = False\<rparr>))"

text \<open>
  A send to the full channel waits. \<open>wait.Until\<close> logs a panic of its function and panics again, which
  ends the program; the channel \<open>quit\<close> is never closed, so the loop has no other end.
\<close>

inductive sched_step :: "sched_api \<Rightarrow> scheduler \<Rightarrow> scheduler \<Rightarrow> bool" for api where
  Ignore: "\<lbrakk>\<not> sd_crashed s; pod_added obj = None\<rbrakk> \<Longrightarrow> sched_step api s s"
| Enqueue: "\<lbrakk>\<not> sd_crashed s; pod_added obj = Some p; length (sd_queue s) < podQueueSize\<rbrakk> \<Longrightarrow>
    sched_step api s (s\<lparr>sd_queue := sd_queue s @ [p], sd_added := sd_added s @ [p]\<rparr>)"
| Schedule: "\<lbrakk>\<not> sd_crashed s; sd_queue s = p # ps; scheduleOne api t listed r p (sd_calls s) = Ret (res, h)\<rbrakk> \<Longrightarrow>
    sched_step api s (s\<lparr>sd_queue := ps, sd_calls := h, sd_done := sd_done s @ [(p, res)]\<rparr>)"
| Crash: "\<lbrakk>\<not> sd_crashed s; sd_queue s = p # ps; scheduleOne api t listed r p (sd_calls s) = Panic m\<rbrakk> \<Longrightarrow>
    sched_step api s (s\<lparr>sd_queue := ps, sd_crashed := True\<rparr>)"

inductive_cases sched_stepE: "sched_step api s s'"

subsection \<open>What is asked of the API server\<close>

text \<open>The bindings and the events in a history, with the answers.\<close>

fun bindings :: "sched_history \<Rightarrow> (binding \<times> go_error option) list" where
  "bindings [] = []"
| "bindings ((Bind b, err) # h) = (b, err) # bindings h"
| "bindings ((CreateEvent e, err) # h) = bindings h"

fun events_of :: "sched_history \<Rightarrow> (string \<times> string \<times> go_error option) list" where
  "events_of [] = []"
| "events_of ((Bind b, err) # h) = events_of h"
| "events_of ((CreateEvent e, err) # h) = (se_InvolvedUID e, se_Message e, err) # events_of h"

lemma history_append [simp]:
  "bindings (h @ h') = bindings h @ bindings h'" "events_of (h @ h') = events_of h @ events_of h'"
  by (induction h rule: bindings.induct) auto

text \<open>The binding of a pod to a node, and what a treated pod must have asked for.\<close>

definition binding_to :: "pod \<Rightarrow> string \<Rightarrow> binding" where
  "binding_to p node = \<lparr>bi_Name = om_name (p_meta p), bi_Namespace = om_namespace (p_meta p),
     bi_TargetAPIVersion = ''v1'', bi_TargetKind = ''Node'', bi_TargetName = node\<rparr>"

fun result_bindings :: "pod \<times> sched_result \<Rightarrow> (binding \<times> go_error option) list" where
  "result_bindings (p, ListFailed err) = []"
| "result_bindings (p, BindFailed node err) = [(binding_to p node, Some err)]"
| "result_bindings (p, EventFailed node err) = [(binding_to p node, None)]"
| "result_bindings (p, Placed node) = [(binding_to p node, None)]"

fun result_events :: "pod \<times> sched_result \<Rightarrow> (string \<times> string \<times> go_error option) list" where
  "result_events (p, EventFailed node err) = [(om_uid (p_meta p), placed_message p node, Some err)]"
| "result_events (p, Placed node) = [(om_uid (p_meta p), placed_message p node, None)]"
| "result_events (p, _) = []"

lemma scheduleOne_calls:
  assumes "scheduleOne api t listed r p h = Ret (res, h')"
  shows "bindings h' = bindings h @ result_bindings (p, res)" "events_of h' = events_of h @ result_events (p, res)"
  using assms by (auto simp: scheduleOne_def bindPod_def emitEvent_def api_call_def binding_to_def Let_def
      split: sum.splits option.splits)

lemma scheduleOne_node:
  assumes "scheduleOne api t (Inr nodes) r p h = Ret (res, h')"
  shows "\<exists>n\<in>set nodes. (\<exists>err. res = BindFailed (no_Name n) err \<or> res = EventFailed (no_Name n) err) \<or> res = Placed (no_Name n)"
proof -
  from assms have "nodes \<noteq> []" by (auto simp: scheduleOne_def rand_Intn_def)
  then have "nodes ! (r mod length nodes) \<in> set nodes" by simp
  with assms \<open>nodes \<noteq> []\<close> show ?thesis
    by (intro bexI [of _ "nodes ! (r mod length nodes)"])
      (auto simp: scheduleOne_def rand_Intn_def Let_def split: option.splits prod.splits)
qed

definition sched_inv :: "scheduler \<Rightarrow> bool" where
  "sched_inv s \<longleftrightarrow> length (sd_queue s) \<le> podQueueSize \<and>
     (\<exists>lost. sd_added s = map fst (sd_done s) @ lost @ sd_queue s \<and> length lost = (if sd_crashed s then 1 else 0)) \<and>
     bindings (sd_calls s) = concat (map result_bindings (sd_done s)) \<and>
     events_of (sd_calls s) = concat (map result_events (sd_done s))"

lemma sched_step_inv: "sched_step api s s' \<Longrightarrow> sched_inv s \<Longrightarrow> sched_inv s'"
  by (erule sched_stepE) (auto simp: sched_inv_def scheduleOne_calls)

interpretation sched_sys: step_invariant "\<lambda>s. newScheduler getenv home build inCluster newClient = Inr s" "sched_step api" sched_inv
  for getenv home build inCluster newClient api
proof
  show "sched_inv s" if "newScheduler getenv home build inCluster newClient = Inr s" for s
    using that by (auto simp: newScheduler_def sched_inv_def Let_def split: sum.splits option.splits)
qed (rule sched_step_inv)

lemma sched_run_inv:
  assumes "newScheduler getenv home build inCluster newClient = Inr s0" "(sched_step api)\<^sup>*\<^sup>* s0 s"
  shows "sched_inv s"
  by (rule sched_sys.inv_run [OF assms])

text \<open>
  C30. The scheduler in every run: the queue never holds more than 300 pods; the pods that the informer
  handed over are treated in the order of their arrival and each at most once; the bindings asked for
  are exactly those of the treated pods, at most one for each and never repeated when it is refused;
  and an event is emitted exactly for the pods whose binding was accepted.
\<close>

theorem scheduler_places:
  assumes "newScheduler getenv home build inCluster newClient = Inr s0" "(sched_step api)\<^sup>*\<^sup>* s0 s" "\<not> sd_crashed s"
  shows "length (sd_queue s) \<le> 300 \<and> sd_added s = map fst (sd_done s) @ sd_queue s \<and>
    bindings (sd_calls s) = concat (map result_bindings (sd_done s)) \<and>
    events_of (sd_calls s) = concat (map result_events (sd_done s))"
  using sched_run_inv [OF assms(1,2)] assms(3) by (auto simp: sched_inv_def podQueueSize_def)

text \<open>While no node is registered the first pod ends the program.\<close>

lemma scheduler_crashes:
  assumes "\<not> sd_crashed s" "sd_queue s = p # ps"
  shows "scheduleOne api t (Inr []) r p (sd_calls s) = Panic ''invalid argument to Intn''"
    and "sched_step api s (s\<lparr>sd_queue := ps, sd_crashed := True\<rparr>)"
proof -
  show panic: "scheduleOne api t (Inr []) r p (sd_calls s) = Panic ''invalid argument to Intn''" for t r
    by (simp add: scheduleOne_def rand_Intn_def)
  show "sched_step api s (s\<lparr>sd_queue := ps, sd_crashed := True\<rparr>)" by (rule Crash [OF assms panic])
qed

subsection \<open>Witness\<close>

definition demo_scheduler :: scheduler where
  "demo_scheduler = \<lparr>sd_queue = [], sd_calls = [], sd_added = [], sd_done = [], sd_crashed = False\<rparr>"

definition refused :: sched_api where
  "refused h c = (case c of Bind b \<Rightarrow> Some (Message ''node is gone'') | CreateEvent e \<Rightarrow> None)"

theorem scheduler_places_witness:
  "\<exists>s. (sched_step refused)\<^sup>*\<^sup>* demo_scheduler s \<and> sd_done s = [(demo_pod, BindFailed ''n1'' (Message ''node is gone''))] \<and>
     bindings (sd_calls s) = [(binding_to demo_pod ''n1'', Some (Message ''node is gone''))] \<and> events_of (sd_calls s) = []"
proof -
  define n1 :: node where "n1 = \<lparr>no_Name = ''n1'', no_Labels = [], no_Taints = [], no_NodeInfo = zero_system_info,
    no_Addresses = [], no_KubeletPort = 0, no_Conditions = [], no_Phase = NodeRunning, no_Capacity = [], no_Allocatable = []\<rparr>"
  let ?err = "Message ''node is gone''"
  let ?h = "[(Bind (binding_to demo_pod ''n1''), Some ?err)]"
  define s1 where "s1 = demo_scheduler\<lparr>sd_queue := [demo_pod], sd_added := [demo_pod]\<rparr>"
  define s2 where "s2 = s1\<lparr>sd_queue := [], sd_calls := ?h, sd_done := [(demo_pod, BindFailed ''n1'' ?err)]\<rparr>"
  have new: "newScheduler (\<lambda>k. []) ''/root'' (\<lambda>f. Inr f) (Inl (Message [])) (\<lambda>c. None) = Inr demo_scheduler"
    by (simp add: newScheduler_def demo_scheduler_def)
  have "pod_added (ApiPod demo_pod) = Some demo_pod" by (simp add: pod_added_def demo_pod_def)
  then have "sched_step refused demo_scheduler s1"
    using Enqueue [of demo_scheduler "ApiPod demo_pod" demo_pod refused] by (simp add: demo_scheduler_def podQueueSize_def s1_def)
  moreover have "scheduleOne refused None (Inr [n1]) 5 demo_pod (sd_calls s1) = Ret (BindFailed ''n1'' ?err, ?h)"
    by (simp add: scheduleOne_def rand_Intn_def bindPod_def api_call_def refused_def binding_to_def n1_def demo_scheduler_def Let_def s1_def)
  then have "sched_step refused s1 s2"
    using Schedule [of s1 demo_pod "[]" refused] by (simp add: demo_scheduler_def s1_def s2_def)
  ultimately have run: "(sched_step refused)\<^sup>*\<^sup>* demo_scheduler s2" by simp
  have s2: "\<not> sd_crashed s2" "sd_done s2 = [(demo_pod, BindFailed ''n1'' ?err)]" by (simp_all add: s1_def s2_def demo_scheduler_def)
  from scheduler_places [OF new run s2(1)] run s2(2) show ?thesis by auto
qed

end
