(* ===== verification/HPK_Webhook.thy ===== *)
theory HPK_Webhook
  imports HPK_PodHandler
begin

text \<open>
  The program \<open>k3s/services-webhook\<close>: an admission webhook that makes every service headless. The
  HTTP response is a record of what the handler has written; the JSON codecs of Kubernetes are the
  record \<open>review_codec\<close>. The lemmas say what is answered to every kind of request and what an API
  server that follows RFC 6902 gets from the patch: a service without a cluster address, or, when the
  member \<open>clusterIP\<close> is missing, a patch that it refuses.
\<close>

subsection \<open>Data\<close>

record service_spec =
  ss_Type :: string
  ss_ClusterIP :: string

record patchOperation =
  po_Op :: string
  po_Path :: string
  po_Value :: string

record admission_request =
  rq_UID :: string
  rq_Object :: string  \<comment> \<open>\<open>Object.Raw\<close>\<close>

record admission_response =
  rs_UID :: string
  rs_Allowed :: bool
  rs_Result :: "string option"   \<comment> \<open>\<open>Result.Message\<close>\<close>
  rs_Patch :: "string option"
  rs_PatchType :: "string option"

record admission_review =
  ar_APIVersion :: string
  ar_Kind :: string
  ar_Request :: "admission_request option"
  ar_Response :: "admission_response option"

text \<open>\<open>decode\<close> is the \<open>UniversalDeserializer\<close>, with what it left in the review when it failed.\<close>

record review_codec =
  rc_decode :: "string \<Rightarrow> go_error option \<times> admission_review"
  rc_encode :: "admission_review \<Rightarrow> go_error + string"
  rc_service :: "string \<Rightarrow> go_error + service_spec"
  rc_patch :: "patchOperation list \<Rightarrow> go_error + string"

text \<open>What has been written to the \<open>ResponseWriter\<close>; the first status counts.\<close>

record http_response =
  hr_status :: "nat option"
  hr_body :: string

definition write_status :: "nat \<Rightarrow> string \<Rightarrow> http_response \<Rightarrow> http_response" where
  "write_status code body w =
     w\<lparr>hr_status := (case hr_status w of None \<Rightarrow> Some code | Some c \<Rightarrow> Some c), hr_body := hr_body w @ body\<rparr>"

definition http_Error :: "nat \<Rightarrow> string \<Rightarrow> http_response \<Rightarrow> http_response" where
  "http_Error code msg = write_status code (msg @ [CHR 0x0A])"

record http_request =
  hq_Body :: "(go_error + string) option"
  hq_ContentType :: string

subsection \<open>The mutation\<close>

definition updateClusterIP :: "service_spec \<Rightarrow> patchOperation list" where
  "updateClusterIP target =
     (if ss_Type target = ''ExternalName'' then []
      else if ss_ClusterIP target \<noteq> ''None''
      then [\<lparr>po_Op = ''replace'', po_Path = ''/spec/clusterIP'', po_Value = ''None''\<rparr>]
      else [\<lparr>po_Op = ''add'', po_Path = ''/spec/clusterIP'', po_Value = ''None''\<rparr>])"

definition createPatch :: "review_codec \<Rightarrow> service_spec \<Rightarrow> go_error + string" where
  "createPatch rc service = rc_patch rc ([] @ updateClusterIP service)"

definition failed_response :: "go_error \<Rightarrow> admission_response" where
  "failed_response err =
     \<lparr>rs_UID = [], rs_Allowed = False, rs_Result = Some (error_text err), rs_Patch = None, rs_PatchType = None\<rparr>"

text \<open>A review without a request is dereferenced: a panic.\<close>

definition mutate :: "review_codec \<Rightarrow> admission_review \<Rightarrow> admission_response outcome" where
  "mutate rc ar =
     (case ar_Request ar of
        None \<Rightarrow> Panic ''invalid memory address or nil pointer dereference''
      | Some req \<Rightarrow>
          (case rc_service rc (rq_Object req) of
             Inl err \<Rightarrow> Ret (failed_response err)
           | Inr service \<Rightarrow>
               (case createPatch rc service of
                  Inl err \<Rightarrow> Ret (failed_response err)
                | Inr patchBytes \<Rightarrow>
                    Ret \<lparr>rs_UID = [], rs_Allowed = True, rs_Result = None, rs_Patch = Some patchBytes,
                      rs_PatchType = Some ''JSONPatch''\<rparr>)))"

text \<open>\<open>write_fails\<close>: the connection no longer takes the answer.\<close>

definition serve :: "review_codec \<Rightarrow> bool \<Rightarrow> http_request \<Rightarrow> http_response \<Rightarrow> http_response outcome" where
  "serve rc write_fails r w =
     (let body = (case hq_Body r of Some (Inr data) \<Rightarrow> data | _ \<Rightarrow> [])
      in if body = [] then Ret (http_Error 400 ''empty body'' w)
         else if hq_ContentType r \<noteq> ''application/json''
         then Ret (http_Error 415 ''invalid Content-Type, expect `application/json`'' w)
         else (case rc_decode rc body of (err, ar) \<Rightarrow>
           bind_outcome (case err of Some e \<Rightarrow> Ret (failed_response e) | None \<Rightarrow> mutate rc ar) (\<lambda>admissionResponse.
             let response = (case ar_Request ar of
                   None \<Rightarrow> admissionResponse | Some req \<Rightarrow> admissionResponse\<lparr>rs_UID := rq_UID req\<rparr>);
                 admissionReview = \<lparr>ar_APIVersion = ''admission.k8s.io/v1'', ar_Kind = ''AdmissionReview'',
                   ar_Request = None, ar_Response = Some response\<rparr>;
                 (resp, w1) = (case rc_encode rc admissionReview of
                   Inl e \<Rightarrow> ([], http_Error 500 (''could not encode response: '' @ error_text e) w)
                 | Inr resp \<Rightarrow> (resp, w))
             in if write_fails then Ret (http_Error 500 ''could not write response'' w1)
                else Ret (write_status 200 resp w1))))"

subsection \<open>The program (main.go)\<close>

record webhook_flags =
  wf_port :: int
  wf_tlsCertFile :: string
  wf_tlsKeyFile :: string

definition webhook_defaults :: webhook_flags where
  "webhook_defaults = \<lparr>wf_port = 8443, wf_tlsCertFile = ''/etc/webhook/certs/cert.pem'', wf_tlsKeyFile = ''/etc/webhook/certs/key.pem''\<rparr>"

text \<open>
  The server has one route; \<open>http.ServeMux\<close> answers every other path with 404. The program ends with a
  message when the key pair cannot be loaded.
\<close>

record webhook_server =
  ws_Addr :: string
  ws_Handler :: "string \<Rightarrow> http_request \<Rightarrow> http_response \<Rightarrow> http_response outcome"

definition webhook_main :: "(string \<Rightarrow> string \<Rightarrow> go_error option) \<Rightarrow> review_codec \<Rightarrow> bool \<Rightarrow> webhook_flags \<Rightarrow> string + webhook_server" where
  "webhook_main loadKeyPair rc write_fails fl =
     (case loadKeyPair (wf_tlsCertFile fl) (wf_tlsKeyFile fl) of
        Some err \<Rightarrow> Inl (''Failed to load key pair: '' @ error_text err)
      | None \<Rightarrow> Inr \<lparr>ws_Addr = '':'' @ strconv_Itoa (wf_port fl),
          ws_Handler = (\<lambda>path r w. if path = ''/mutate'' then serve rc write_fails r w
            else Ret (http_Error 404 ''404 page not found'' w))\<rparr>)"

subsection \<open>The answer\<close>

definition empty_response :: http_response where
  "empty_response = \<lparr>hr_status = None, hr_body = []\<rparr>"

definition review_of :: "admission_response \<Rightarrow> admission_review" where
  "review_of response = \<lparr>ar_APIVersion = ''admission.k8s.io/v1'', ar_Kind = ''AdmissionReview'',
     ar_Request = None, ar_Response = Some response\<rparr>"

lemma mutate_Ret: "ar_Request ar \<noteq> None \<Longrightarrow> \<exists>resp. mutate rc ar = Ret resp"
  by (auto simp: mutate_def split: sum.splits)

text \<open>The handler panics exactly on a review without a request, and otherwise the status tells the cause.\<close>

lemma serve_status:
  assumes "\<And>rv. \<exists>t. rc_encode rc rv = Inr t"
  shows "(case serve rc False r empty_response of
      Panic m \<Rightarrow> \<exists>data ar. hq_Body r = Some (Inr data) \<and> rc_decode rc data = (None, ar) \<and> ar_Request ar = None
    | Ret w \<Rightarrow> hr_status w = Some
        (if (case hq_Body r of Some (Inr data) \<Rightarrow> data = [] | _ \<Rightarrow> True) then 400
         else if hq_ContentType r \<noteq> ''application/json'' then 415 else 200))"
proof (cases "\<exists>data. hq_Body r = Some (Inr data) \<and> data \<noteq> [] \<and> hq_ContentType r = ''application/json''")
  case False
  then show ?thesis
    by (auto simp: serve_def Let_def http_Error_def write_status_def empty_response_def split: option.splits sum.splits)
next
  case True
  then obtain data where data: "hq_Body r = Some (Inr data)" "data \<noteq> []" "hq_ContentType r = ''application/json''" by blast
  obtain err ar where dec: "rc_decode rc data = (err, ar)" by fastforce
  have enc: "\<exists>t. rc_encode rc rv = Inr t" for rv by (rule assms)
  show ?thesis
  proof (cases "err = None \<and> ar_Request ar = None")
    case True
    with data dec show ?thesis by (simp add: serve_def mutate_def)
  next
    case False
    then obtain resp where "(case err of Some e \<Rightarrow> Ret (failed_response e) | None \<Rightarrow> mutate rc ar) = Ret resp"
      using mutate_Ret [of ar] by (cases err) auto
    moreover obtain t where "rc_encode rc (review_of (case ar_Request ar of None \<Rightarrow> resp | Some req \<Rightarrow> resp\<lparr>rs_UID := rq_UID req\<rparr>)) = Inr t"
      using enc by blast
    ultimately show ?thesis
      using data dec by (simp add: serve_def Let_def write_status_def empty_response_def review_of_def)
  qed
qed

text \<open>
  RFC 6902 on the member \<open>clusterIP\<close> of \<open>spec\<close>, for the API server's \<open>apply_patch\<close>: an empty patch changes
  nothing, \<open>add\<close> sets the member, \<open>replace\<close> sets it when it exists and is an error otherwise.
\<close>

definition json_patch :: "(patchOperation list \<Rightarrow> strmap \<Rightarrow> strmap option) \<Rightarrow> bool" where
  "json_patch apply_patch \<longleftrightarrow>
     (\<forall>spec. apply_patch [] spec = Some spec) \<and>
     (\<forall>p spec. po_Path p = ''/spec/clusterIP'' \<longrightarrow>
        (po_Op p = ''add'' \<longrightarrow> apply_patch [p] spec = Some (AList.update ''clusterIP'' (po_Value p) spec)) \<and>
        (po_Op p = ''replace'' \<longrightarrow> apply_patch [p] spec =
           (if map_of spec ''clusterIP'' = None then None else Some (AList.update ''clusterIP'' (po_Value p) spec))))"

text \<open>
  C31. A review of a service is answered with status 200 and the identifier of the request, the service is
  allowed, and what the API server gets from the patch depends on the \<open>spec\<close> of the request: a service
  of the type \<open>ExternalName\<close> stays as it is; a \<open>spec\<close> with a cluster IP, of whatever value, gets the
  cluster IP \<open>None\<close> and nothing else changes; for a \<open>spec\<close> without the member, that of an ordinary new
  service, the patch is a \<open>replace\<close> of a missing member, which the API server refuses.
\<close>

theorem serve_headless:
  assumes "rc_decode rc body = (None, ar)" "body \<noteq> []" "ar_Request ar = Some req"
    and "rc_service rc (rq_Object req) = Inr \<lparr>ss_Type = map_get spec ''type'', ss_ClusterIP = map_get spec ''clusterIP''\<rparr>"
    and "\<And>ops. \<exists>t. rc_patch rc ops = Inr t" "\<And>rv. \<exists>t. rc_encode rc rv = Inr t"
    and "json_patch apply_patch"
  shows "\<exists>ops patch text.
    serve rc False \<lparr>hq_Body = Some (Inr body), hq_ContentType = ''application/json''\<rparr> empty_response =
      Ret \<lparr>hr_status = Some 200, hr_body = text\<rparr> \<and>
    rc_encode rc (review_of \<lparr>rs_UID = rq_UID req, rs_Allowed = True, rs_Result = None, rs_Patch = Some patch,
      rs_PatchType = Some ''JSONPatch''\<rparr>) = Inr text \<and>
    rc_patch rc ops = Inr patch \<and>
    (if map_of spec ''type'' = Some ''ExternalName'' then apply_patch ops spec = Some spec
     else if map_of spec ''clusterIP'' = None then apply_patch ops spec = None
     else \<exists>spec'. apply_patch ops spec = Some spec' \<and> map_of spec' = (map_of spec)(''clusterIP'' \<mapsto> ''None''))"
proof -
  let ?sv = "\<lparr>ss_Type = map_get spec ''type'', ss_ClusterIP = map_get spec ''clusterIP''\<rparr>"
  let ?rs = "\<lambda>patch. \<lparr>rs_UID = rq_UID req, rs_Allowed = True, rs_Result = None, rs_Patch = Some patch, rs_PatchType = Some ''JSONPatch''\<rparr>"
  obtain patch where patch: "rc_patch rc (updateClusterIP ?sv) = Inr patch" using assms(5) by blast
  obtain t where enc: "rc_encode rc (review_of (?rs patch)) = Inr t" using assms(6) by blast
  have "mutate rc ar = Ret ((?rs patch)\<lparr>rs_UID := []\<rparr>)"
    using assms(3,4) patch by (simp add: mutate_def createPatch_def)
  then have "serve rc False \<lparr>hq_Body = Some (Inr body), hq_ContentType = ''application/json''\<rparr> empty_response =
      Ret \<lparr>hr_status = Some 200, hr_body = t\<rparr>"
    using assms(1-3) enc by (simp add: serve_def Let_def write_status_def empty_response_def review_of_def)
  moreover have "if map_of spec ''type'' = Some ''ExternalName'' then apply_patch (updateClusterIP ?sv) spec = Some spec
     else if map_of spec ''clusterIP'' = None then apply_patch (updateClusterIP ?sv) spec = None
     else \<exists>spec'. apply_patch (updateClusterIP ?sv) spec = Some spec' \<and> map_of spec' = (map_of spec)(''clusterIP'' \<mapsto> ''None'')"
    using assms(7) by (auto simp: json_patch_def updateClusterIP_def map_get_def update_conv' split: option.splits)
  ultimately show ?thesis using patch enc by blast
qed

subsection \<open>Witness\<close>

definition demo_review_codec :: review_codec where
  "demo_review_codec =
     \<lparr>rc_decode = (\<lambda>body. (None, \<lparr>ar_APIVersion = [], ar_Kind = [], ar_Request = Some \<lparr>rq_UID = ''u1'', rq_Object = body\<rparr>, ar_Response = None\<rparr>)),
      rc_encode = (\<lambda>rv. Inr (case ar_Response rv of None \<Rightarrow> ''null'' | Some rs \<Rightarrow> rs_UID rs)),
      rc_service = (\<lambda>raw. Inr \<lparr>ss_Type = ''ClusterIP'', ss_ClusterIP = (if raw = ''new'' then [] else raw)\<rparr>),
      rc_patch = (\<lambda>ops. Inr (concat (map po_Op ops)))\<rparr>"

definition demo_apply :: "patchOperation list \<Rightarrow> strmap \<Rightarrow> strmap option" where
  "demo_apply ops spec =
     foldl (\<lambda>s p. case s of None \<Rightarrow> None
       | Some m \<Rightarrow> if po_Op p = ''replace'' \<and> map_of m ''clusterIP'' = None then None
           else Some (AList.update ''clusterIP'' (po_Value p) m)) (Some spec) ops"

lemma demo_apply_json_patch: "json_patch demo_apply"
  by (simp add: json_patch_def demo_apply_def)

lemma demo_review_codec_total: "\<exists>t. rc_patch demo_review_codec ops = Inr t" "\<exists>t. rc_encode demo_review_codec rv = Inr t"
  by (simp_all add: demo_review_codec_def)

lemma demo_review_codec_answer:
  "rc_encode demo_review_codec (review_of rs) = Inr (rs_UID rs)"
  "rc_decode demo_review_codec body = (None, \<lparr>ar_APIVersion = [], ar_Kind = [], ar_Request = Some \<lparr>rq_UID = ''u1'', rq_Object = body\<rparr>, ar_Response = None\<rparr>)"
  by (simp_all add: demo_review_codec_def review_of_def)

theorem serve_headless_witness:
  "(\<exists>ops spec'. serve demo_review_codec False \<lparr>hq_Body = Some (Inr ''10.0.0.7''), hq_ContentType = ''application/json''\<rparr> empty_response =
      Ret \<lparr>hr_status = Some 200, hr_body = ''u1''\<rparr> \<and>
    demo_apply ops [(''type'', ''ClusterIP''), (''clusterIP'', ''10.0.0.7'')] = Some spec' \<and> map_of spec' ''clusterIP'' = Some ''None'') \<and>
   (\<exists>ops. serve demo_review_codec False \<lparr>hq_Body = Some (Inr ''new''), hq_ContentType = ''application/json''\<rparr> empty_response =
      Ret \<lparr>hr_status = Some 200, hr_body = ''u1''\<rparr> \<and> demo_apply ops [(''type'', ''ClusterIP'')] = None)"
proof -
  have run: "\<exists>ops. serve demo_review_codec False \<lparr>hq_Body = Some (Inr body), hq_ContentType = ''application/json''\<rparr> empty_response =
      Ret \<lparr>hr_status = Some 200, hr_body = ''u1''\<rparr> \<and>
    (if map_of spec ''type'' = Some ''ExternalName'' then demo_apply ops spec = Some spec
     else if map_of spec ''clusterIP'' = None then demo_apply ops spec = None
     else \<exists>spec'. demo_apply ops spec = Some spec' \<and> map_of spec' = (map_of spec)(''clusterIP'' \<mapsto> ''None''))"
    if "body \<noteq> []" "rc_service demo_review_codec body = Inr \<lparr>ss_Type = map_get spec ''type'', ss_ClusterIP = map_get spec ''clusterIP''\<rparr>"
    for body spec
    using serve_headless [OF demo_review_codec_answer(2) that(1) _ _ demo_review_codec_total demo_apply_json_patch, where req = "\<lparr>rq_UID = ''u1'', rq_Object = body\<rparr>" and spec = spec] that(2)
    by (fastforce simp: demo_review_codec_answer(1))
  have "rc_service demo_review_codec ''10.0.0.7'' = Inr \<lparr>ss_Type = map_get [(''type'', ''ClusterIP''), (''clusterIP'', ''10.0.0.7'')] ''type'',
      ss_ClusterIP = map_get [(''type'', ''ClusterIP''), (''clusterIP'', ''10.0.0.7'')] ''clusterIP''\<rparr>"
    "rc_service demo_review_codec ''new'' = Inr \<lparr>ss_Type = map_get [(''type'', ''ClusterIP'')] ''type'', ss_ClusterIP = map_get [(''type'', ''ClusterIP'')] ''clusterIP''\<rparr>"
    by (simp_all add: demo_review_codec_def map_get_def)
  from run [OF _ this(1)] run [OF _ this(2)] show ?thesis by fastforce
qed

end
