(* ===== verification/HPK_Mount.thy ===== *)
theory HPK_Mount
  imports HPK_SubPath HPK_HostUtil
begin

text \<open>
  The rest of \<open>pkg/hostutil/hostutil_linux.go\<close>: devices in use, the mount that holds a path and its
  propagation, owner and mode. The mount table (\<open>mount.ParseMountInfo\<close>), \<open>mount.PathWithinBase\<close>, the
  opening of a device and the system call \<open>mount\<close> are parameters. The lemmas show which mount is
  found and when \<open>MakeRShared\<close> mounts.
\<close>

subsection \<open>Devices\<close>

text \<open>\<open>open_excl\<close> is \<open>unix.Open\<close> with \<open>O_EXCL\<close>: \<open>None\<close>, or the name of the error.\<close>

definition ExclusiveOpenFailsOnDevice :: "(string \<Rightarrow> string option) \<Rightarrow> fsys \<Rightarrow> string \<Rightarrow> bool \<times> go_error option" where
  "ExclusiveOpenFailsOnDevice open_excl w pathname =
     (case os_Stat w pathname of
        Inl err \<Rightarrow> (False, Some (Message (''PathIsDevice failed for path '' @ pathname)))
      | Inr nd \<Rightarrow>
          if nd \<notin> {Special CharDevice, Special BlockDevice} then (False, None)
          else case open_excl pathname of
            None \<Rightarrow> (False, None)
          | Some errno \<Rightarrow> if errno = ''EBUSY'' then (True, None) else (False, Some (Message errno)))"

definition DeviceOpened :: "(string \<Rightarrow> string option) \<Rightarrow> fsys \<Rightarrow> string \<Rightarrow> bool \<times> go_error option" where
  "DeviceOpened open_excl w pathname = ExclusiveOpenFailsOnDevice open_excl w pathname"

text \<open>\<open>refs\<close> is the answer of \<open>GetMountRefs\<close>.\<close>

fun device_name :: "string list \<Rightarrow> string \<Rightarrow> string \<Rightarrow> go_error + string" where
  "device_name [] mountPath pluginMountDir = Inr (filepath_Base mountPath)"
| "device_name (ref # refs) mountPath pluginMountDir =
     (if strings_HasPrefix ref pluginMountDir then filepath_Rel pluginMountDir ref
      else device_name refs mountPath pluginMountDir)"

definition getDeviceNameFromMount :: "(string \<Rightarrow> go_error + string list) \<Rightarrow> string \<Rightarrow> string \<Rightarrow> go_error + string" where
  "getDeviceNameFromMount getMountRefs mountPath pluginMountDir =
     (case getMountRefs mountPath of
        Inl err \<Rightarrow> Inl err
      | Inr refs \<Rightarrow>
          if refs = [] then Inl (Message (''directory '' @ mountPath @ '' is not mounted''))
          else device_name refs mountPath pluginMountDir)"

subsection \<open>Mount points\<close>

record mount_info =
  mi_MountPoint :: string
  mi_OptionalFields :: "string list"

text \<open>The loop over the table from its end.\<close>

definition findMountInfo :: "(string \<Rightarrow> string \<Rightarrow> bool) \<Rightarrow> go_error + mount_info list \<Rightarrow> string \<Rightarrow> go_error + mount_info" where
  "findMountInfo within table path =
     (case table of
        Inl err \<Rightarrow> Inl err
      | Inr infos \<Rightarrow>
          (case find (\<lambda>i. within path (mi_MountPoint i)) (rev infos) of
             None \<Rightarrow> Inl (Message (''cannot find mount point for '' @ path))
           | Some i \<Rightarrow> Inr i))"

definition isShared :: "(string \<Rightarrow> string \<Rightarrow> bool) \<Rightarrow> go_error + mount_info list \<Rightarrow> string \<Rightarrow> go_error + bool" where
  "isShared within table path =
     (case findMountInfo within table path of
        Inl err \<Rightarrow> Inl err
      | Inr info \<Rightarrow> Inr (list_ex (\<lambda>opt. strings_HasPrefix opt ''shared:'') (mi_OptionalFields info)))"

text \<open>The flags of \<open>mount\<close>; the result of a call may depend on the calls before it.\<close>

datatype mount_flag = MS_BIND | MS_SHARED | MS_REC

type_synonym mount_call = "string \<times> string \<times> mount_flag set"

definition DoMakeRShared :: "(string \<Rightarrow> string \<Rightarrow> bool) \<Rightarrow> go_error + mount_info list \<Rightarrow> (mount_call list \<Rightarrow> mount_call \<Rightarrow> go_error option) \<Rightarrow>
    string \<Rightarrow> mount_call list \<Rightarrow> go_error option \<times> mount_call list" where
  "DoMakeRShared within table mount path calls =
     (case isShared within table path of
        Inl err \<Rightarrow> (Some err, calls)
      | Inr shared \<Rightarrow>
          if shared then (None, calls)
          else let bind = (path, path, {MS_BIND}); rshared = (path, path, {MS_SHARED, MS_REC})
               in (case mount calls bind of
                     Some err \<Rightarrow> (Some (Message (''failed to bind-mount '' @ path)), calls @ [bind])
                   | None \<Rightarrow>
                       (case mount (calls @ [bind]) rshared of
                          Some err \<Rightarrow> (Some (Message (''failed to make rshared '' @ path)), calls @ [bind, rshared])
                        | None \<Rightarrow> (None, calls @ [bind, rshared]))))"

subsection \<open>Owner and mode\<close>

text \<open>\<open>owner\<close> and \<open>mode\<close> read the fields of \<open>stat\<close> that the file system here does not keep.\<close>

definition GetOwnerLinux :: "(string \<Rightarrow> int \<times> int) \<Rightarrow> fsys \<Rightarrow> string \<Rightarrow> int \<times> int \<times> go_error option" where
  "GetOwnerLinux owner w pathname =
     (case os_Stat w pathname of
        Inl err \<Rightarrow> (-1, -1, Some err)
      | Inr nd \<Rightarrow> (fst (owner pathname), snd (owner pathname), None))"

definition GetOwner :: "(string \<Rightarrow> int \<times> int) \<Rightarrow> fsys \<Rightarrow> string \<Rightarrow> int \<times> int \<times> go_error option" where
  "GetOwner owner w pathname =
     (case filepath_EvalSymlinks w pathname of
        Inl err \<Rightarrow> (-1, -1, Some err)
      | Inr realpath \<Rightarrow> GetOwnerLinux owner w realpath)"

definition GetModeLinux :: "(fnode \<Rightarrow> int) \<Rightarrow> fsys \<Rightarrow> string \<Rightarrow> int \<times> go_error option" where
  "GetModeLinux mode w pathname =
     (case os_Stat w pathname of Inl err \<Rightarrow> (0, Some err) | Inr nd \<Rightarrow> (mode nd, None))"

subsection \<open>Lemmas\<close>

lemma find_split:
  "find P xs = Some x \<longleftrightarrow> (\<exists>as bs. xs = as @ x # bs \<and> P x \<and> (\<forall>y\<in>set as. \<not> P y))"
proof (induction xs)
  case (Cons z zs)
  show ?case
  proof (cases "P z")
    case True
    then show ?thesis by (auto simp: Cons_eq_append_conv)
  next
    case False
    then have "find P (z # zs) = Some x \<longleftrightarrow> (\<exists>as bs. zs = as @ x # bs \<and> P x \<and> (\<forall>y\<in>set as. \<not> P y))" using Cons by simp
    also have "\<dots> \<longleftrightarrow> (\<exists>as bs. z # zs = as @ x # bs \<and> P x \<and> (\<forall>y\<in>set as. \<not> P y))" (is "?l \<longleftrightarrow> ?r")
    proof
      assume ?l
      then obtain as bs where "zs = as @ x # bs" "P x" "\<forall>y\<in>set as. \<not> P y" by blast
      with False show ?r by (intro exI [of _ "z # as"] exI [of _ bs]) simp
    next
      assume ?r
      then obtain as bs where "z # zs = as @ x # bs" "P x" "\<forall>y\<in>set as. \<not> P y" by blast
      with False show ?l by (cases as) auto
    qed
    finally show ?thesis .
  qed
qed simp

text \<open>The mount found is the last of the table that holds the path: later mounts hide earlier ones.\<close>

lemma findMountInfo_last:
  "findMountInfo within (Inr infos) path = Inr i \<longleftrightarrow>
     (\<exists>before later. infos = before @ i # later \<and> within path (mi_MountPoint i) \<and> (\<forall>j\<in>set later. \<not> within path (mi_MountPoint j)))"
proof -
  have "findMountInfo within (Inr infos) path = Inr i \<longleftrightarrow> find (\<lambda>i. within path (mi_MountPoint i)) (rev infos) = Some i"
    by (auto simp: findMountInfo_def split: option.splits)
  also have "\<dots> \<longleftrightarrow> (\<exists>as bs. infos = rev bs @ i # rev as \<and> within path (mi_MountPoint i) \<and> (\<forall>j\<in>set as. \<not> within path (mi_MountPoint j)))"
    by (simp add: find_split rev_swap)
  also have "\<dots> \<longleftrightarrow> (\<exists>before later. infos = before @ i # later \<and> within path (mi_MountPoint i) \<and> (\<forall>j\<in>set later. \<not> within path (mi_MountPoint j)))"
    by (metis rev_rev_ident set_rev)
  finally show ?thesis .
qed

text \<open>\<open>MakeRShared\<close> does nothing on a shared mount, and otherwise bind-mounts first and shares then.\<close>

lemma DoMakeRShared_success:
  assumes "DoMakeRShared within table mount path calls = (None, calls')"
  shows "isShared within table path = Inr True \<and> calls' = calls \<or>
    isShared within table path = Inr False \<and> calls' = calls @ [(path, path, {MS_BIND}), (path, path, {MS_SHARED, MS_REC})]"
  using assms by (auto simp: DoMakeRShared_def Let_def split: sum.splits if_splits option.splits)

text \<open>A device that is in use is opened by nobody else; a path that is no device is never in use.\<close>

lemma DeviceOpened_True:
  "fst (DeviceOpened open_excl w p) \<Longrightarrow> PathIsDevice w p = (True, None) \<and> open_excl p = Some ''EBUSY''"
  by (auto simp: DeviceOpened_def ExclusiveOpenFailsOnDevice_def PathIsDevice_def getFileType_def host_path_types
      split: sum.splits if_splits option.splits)

text \<open>The plugin directory is compared as text: a sibling with a longer name counts as inside.\<close>

lemma device_name_sibling:
  "device_name [''/plugins2/v''] ''/mnt/v'' ''/plugins'' = Inr ''../plugins2/v''"
  by code_simp

end
