(* ===== verification/HPK_Home.thy ===== *)
theory HPK_Home
  imports HPK_Path
begin

text \<open>
  Package \<open>pkg/home\<close>: where configuration, cache and data live. The environment and the home directory
  are arguments. The lemmas give the order of precedence.
\<close>

definition CacheHomeEnvVar :: string where "CacheHomeEnvVar = ''HPK_CACHE_HOME''"
definition ConfigHomeEnvVar :: string where "ConfigHomeEnvVar = ''HPK_CONFIG_HOME''"
definition DataHomeEnvVar :: string where "DataHomeEnvVar = ''HPK_DATA_HOME''"
definition xdg_CacheHomeEnvVar :: string where "xdg_CacheHomeEnvVar = ''XDG_CACHE_HOME''"
definition xdg_ConfigHomeEnvVar :: string where "xdg_ConfigHomeEnvVar = ''XDG_CONFIG_HOME''"
definition xdg_DataHomeEnvVar :: string where "xdg_DataHomeEnvVar = ''XDG_DATA_HOME''"

definition lazypath_path :: "(string \<Rightarrow> string) \<Rightarrow> string \<Rightarrow> string \<Rightarrow> string \<Rightarrow> string \<Rightarrow> string list \<Rightarrow> string" where
  "lazypath_path getenv l hpkEnvVar xdgEnvVar defaultHome elem =
     (let base = getenv hpkEnvVar
      in if base \<noteq> [] then filepath_Join [base, filepath_Join elem]
         else let base = getenv xdgEnvVar;
                  base = (if base = [] then defaultHome else base)
              in filepath_Join [base, l, filepath_Join elem])"

definition cacheHome :: "string \<Rightarrow> string" where "cacheHome homeDir = filepath_Join [homeDir, ''.cache'']"
definition configHome :: "string \<Rightarrow> string" where "configHome homeDir = filepath_Join [homeDir, ''.config'']"
definition dataHome :: "string \<Rightarrow> string" where "dataHome homeDir = filepath_Join [homeDir, ''.local'', ''share'']"

text \<open>The defaults of macOS (\<open>lazypath_darwin.go\<close>).\<close>

definition darwin_dataHome :: "string \<Rightarrow> string" where "darwin_dataHome homeDir = filepath_Join [homeDir, ''Library'']"
definition darwin_configHome :: "string \<Rightarrow> string" where "darwin_configHome homeDir = filepath_Join [homeDir, ''Library'', ''Preferences'']"
definition darwin_cacheHome :: "string \<Rightarrow> string" where "darwin_cacheHome homeDir = filepath_Join [homeDir, ''Library'', ''Caches'']"

definition lp :: string where "lp = ''hpk''"

definition cachePath :: "(string \<Rightarrow> string) \<Rightarrow> string \<Rightarrow> string \<Rightarrow> string list \<Rightarrow> string" where
  "cachePath getenv homeDir l elem = lazypath_path getenv l CacheHomeEnvVar xdg_CacheHomeEnvVar (cacheHome homeDir) [filepath_Join elem]"

definition configPath :: "(string \<Rightarrow> string) \<Rightarrow> string \<Rightarrow> string \<Rightarrow> string list \<Rightarrow> string" where
  "configPath getenv homeDir l elem = lazypath_path getenv l ConfigHomeEnvVar xdg_ConfigHomeEnvVar (configHome homeDir) [filepath_Join elem]"

definition dataPath :: "(string \<Rightarrow> string) \<Rightarrow> string \<Rightarrow> string \<Rightarrow> string list \<Rightarrow> string" where
  "dataPath getenv homeDir l elem = lazypath_path getenv l DataHomeEnvVar xdg_DataHomeEnvVar (dataHome homeDir) [filepath_Join elem]"

definition CachePath :: "(string \<Rightarrow> string) \<Rightarrow> string \<Rightarrow> string list \<Rightarrow> string" where
  "CachePath getenv homeDir elem = cachePath getenv homeDir lp elem"

definition ConfigPath :: "(string \<Rightarrow> string) \<Rightarrow> string \<Rightarrow> string list \<Rightarrow> string" where
  "ConfigPath getenv homeDir elem = configPath getenv homeDir lp elem"

definition DataPath :: "(string \<Rightarrow> string) \<Rightarrow> string \<Rightarrow> string list \<Rightarrow> string" where
  "DataPath getenv homeDir elem = dataPath getenv homeDir lp elem"

definition CacheIndexFile :: "string \<Rightarrow> string" where
  "CacheIndexFile name = (if name \<noteq> [] then name @ ''-'' else name) @ ''index.yaml''"

definition CacheChartsFile :: "string \<Rightarrow> string" where
  "CacheChartsFile name = (if name \<noteq> [] then name @ ''-'' else name) @ ''charts.txt''"

lemma Join_name: "name_ok f \<Longrightarrow> filepath_Join [f] = f"
  by (cases f) (auto simp: filepath_Join_def filepath_Clean_def split_char_none clean_elems_def clean_step_def
    name_ok_def filepath_IsAbs_def prefix_def)

text \<open>The variable of HPK wins and names the directory itself; otherwise it is \<open>hpk\<close> below the base.\<close>

lemma CachePath_precedence:
  assumes "list_all name_ok home" "list_all name_ok b" "name_ok f"
  shows "getenv CacheHomeEnvVar = abs_path b \<Longrightarrow> CachePath getenv h [f] = abs_path (b @ [f])"
    and "getenv CacheHomeEnvVar = [] \<Longrightarrow> getenv xdg_CacheHomeEnvVar = abs_path b \<Longrightarrow> CachePath getenv h [f] = abs_path (b @ [''hpk'', f])"
    and "getenv CacheHomeEnvVar = [] \<Longrightarrow> getenv xdg_CacheHomeEnvVar = [] \<Longrightarrow>
      CachePath getenv (abs_path home) [f] = abs_path (home @ [''.cache'', ''hpk'', f])"
proof -
  have f: "filepath_Join [f] = f" using assms(3) by (rule Join_name)
  have names: "name_ok ''hpk''" "name_ok ''.cache''" by (simp_all add: name_ok_def)
  show "getenv CacheHomeEnvVar = abs_path b \<Longrightarrow> CachePath getenv h [f] = abs_path (b @ [f])"
    using assms by (simp add: CachePath_def cachePath_def lazypath_path_def f)
  show "getenv CacheHomeEnvVar = [] \<Longrightarrow> getenv xdg_CacheHomeEnvVar = abs_path b \<Longrightarrow> CachePath getenv h [f] = abs_path (b @ [''hpk'', f])"
    using assms names by (simp add: CachePath_def cachePath_def lazypath_path_def lp_def f)
  show "getenv CacheHomeEnvVar = [] \<Longrightarrow> getenv xdg_CacheHomeEnvVar = [] \<Longrightarrow>
      CachePath getenv (abs_path home) [f] = abs_path (home @ [''.cache'', ''hpk'', f])"
    using assms names by (simp add: CachePath_def cachePath_def lazypath_path_def lp_def f cacheHome_def)
qed

end
