(* ===== verification/Spec2Isabelle.thy ===== *)
theory Spec2Isabelle
  imports HPK_Pause HPK_Root HPK_Scheduler HPK_Webhook HPK_Mount HPK_Home
begin

text \<open>
  \<^bold>\<open>HPK\<close> runs the pods of a Kubernetes cluster as jobs of the Slurm workload manager. Kubernetes sees one
  node, the Virtual Kubelet; behind it a pod becomes a directory of files, a shell script that Slurm
  runs, and a set of Apptainer containers. Nothing but files connects the two sides: the job writes
  small \<^emph>\<open>control files\<close> (the pod's address, the process ids and the exit codes of the containers), the
  node watches them and derives the status of the pod. This development models the Go sources of HPK
  and proves what makes this work.

  \<^bold>\<open>The parts and how they interact\<close>

  \<^item> The command \<open>hpk\<close> (\<open>cmd/hpk\<close>) connects to the cluster and starts the provider, the controllers of
    the Virtual Kubelet and the node.
  \<^item> The provider (\<open>provider\<close>) receives the calls of the Virtual Kubelet: create, update, delete and
    query pods, logs, remote commands. At its start it sorts out what an earlier run left on disk.
  \<^item> The pod handler (\<open>compute/podhandler\<close>) makes the directory of a pod, mounts its volumes
    (\<open>compute/volume\<close>), pulls images (\<open>compute/image\<close>), generates the scripts, submits the job
    (\<open>compute/slurm\<close>) and keeps the description of the pod in a file; it also deletes pods.
  \<^item> Inside the job the pause program (\<open>cmd/pause\<close>) prepares name resolution, runs the init containers
    one by one, starts the main containers and writes the control files.
  \<^item> A watcher (\<open>pkg/filenotify\<close>) reports the control files as they appear; the listener
    (\<open>compute/events\<close>) queues the reports and its workers hand the pod with its new status to
    Kubernetes. The status is computed by \<open>podStatus.go\<close> from the control files alone.
  \<^item> Two small programs stand beside it in the cluster: a scheduler that binds pods to random nodes and
    a webhook that makes services headless (\<open>k3s\<close>).

  \<^bold>\<open>How the code is modelled\<close>

  Go functions are HOL functions of the same name (a method \<open>T.f\<close> is \<open>f\<close> or \<open>T_f\<close>), structures are
  records, and strings are lists of bytes. The files are one state \<open>fsys\<close> that every function takes
  and returns; any system call on any path may fail (\<open>faults\<close>), so every error branch of the code is
  reached. An error is a value \<open>go_error\<close> (\<open>Wrapped\<close> keeps the cause, as \<open>errors.Wrapf\<close>; the texts of
  messages are abbreviated where the code only prints them), a panic is the outcome \<open>Panic\<close>, and a
  call that may panic returns an \<open>outcome\<close>; a panic carries no state, since the program ends. Goroutines
  are step relations in which they interleave freely: \<open>listener_step\<close>, \<open>pause_step\<close>, \<open>sched_step\<close>; their
  invariants are interpretations of one locale, \<open>step_invariant\<close>.
  Code that is not part of the repository is a parameter: Slurm and Apptainer (\<open>proc\<close>), the API server
  (\<open>k8s_client\<close>, \<open>sched_api\<close>), client-go's \<open>retry.OnError\<close> (a field of \<open>k8s_client\<close>), JSON (\<open>codec\<close>, \<open>review_codec\<close>), \<open>resource.Quantity\<close>
  (\<open>quantity_ops\<close>), the template functions of sprig (\<open>tmpl_funcs\<close>), \<open>mount.PathWithinBase\<close>, the
  controllers of the Virtual Kubelet (\<open>root_env\<close>).

  \<^bold>\<open>The theories\<close>

  \<^item> \<open>HPK_Prelude\<close>, \<open>HPK_Path\<close>, \<open>HPK_FS\<close>, \<open>HPK_K8s\<close>: errors, the used functions of Go's \<open>strings\<close>, \<open>strconv\<close>,
    \<open>filepath\<close> and \<open>os\<close>, the file system with links, modes and faults, and the Kubernetes objects.
  \<^item> \<open>HPK_Endpoint\<close> (\<open>compute/endpoint\<close>): the layout of the \<open>.hpk\<close> directory; the path of every control file is
    parsed back to its pod, and the walk visits exactly the pods.
  \<^item> \<open>HPK_Status\<close> (\<open>podStatus.go\<close>, \<open>compute/errors.go\<close>): the status of a pod refines the specification
    \<open>next_phase\<close> over what the control files say; phases never move back; final phases are frozen.
  \<^item> \<open>HPK_Poller\<close>, \<open>HPK_Events\<close> (\<open>pkg/filenotify\<close>, \<open>compute/events\<close>): the polling watcher, interpreted as the
    interface \<open>file_watcher\<close>; the listener against the interface \<open>pod_controller\<close>: the invariant of queue
    and workers, what is reported, and when a shutdown completes or hangs. The watcher reports exactly
    the files that appear in a poll in which the directory has grown; the listener reports the pod that
    lay on disk when it handled the event.
  \<^item> \<open>HPK_AtomicWriter\<close>, \<open>HPK_AtomicWriter_Proofs\<close>, \<open>HPK_Volumes\<close> (\<open>compute/volume\<close>): volumes are replaced
    atomically whatever call fails; on a volume with complete links (\<open>synced\<close>, kept by every successful
    write) the payload is readable at the user's paths, and the files of a mounted ConfigMap read back.
  \<^item> \<open>HPK_HostUtil\<close>, \<open>HPK_SubPath\<close>, \<open>HPK_Mount\<close> (\<open>pkg/hostutil\<close>, \<open>hostpath\<close>): checks of host paths against the
    interface \<open>path_type_checker\<close>; directories for subpaths stay below their base.
  \<^item> \<open>HPK_Slurm\<close>, \<open>HPK_Image\<close>, \<open>HPK_Resources\<close>, \<open>HPK_Security\<close>, \<open>HPK_Expansion\<close>, \<open>HPK_Crdtools\<close>: job ids and
    commands, images, sums of resources, security contexts, expansion of \<open>$(VAR)\<close> (every text has one
    reading as \<open>piece\<close>s, and the code computes its value), conditions and field paths.
  \<^item> \<open>HPK_PodFile\<close>, \<open>HPK_Templates\<close>, \<open>HPK_PodHandler\<close> (\<open>compute/podhandler\<close>): the description on disk, the
    generated scripts with the options \<open>sbatch\<close> reads from them, creation of pods (\<open>pod_creation\<close> says
    which step fails and with which reason) and their deletion.
  \<^item> \<open>HPK_Logs\<close>, \<open>HPK_Provider\<close> (\<open>pkg/container\<close>, \<open>provider\<close>): the tail of a log; start on an existing directory
    (it ends, and moves corrupted pods without loss), updates, queries, the node, the mutating webhooks.
  \<^item> \<open>HPK_Pause\<close> (\<open>cmd/pause\<close>): at every moment of a job the control files tell the provider the truth about
    every main container; no container is started twice and each gets exactly the command line that
    \<open>command_ok\<close> writes out from the pod; a failing init container is never reported.
  \<^item> \<open>HPK_Root\<close> (\<open>cmd/hpk\<close>), \<open>HPK_Scheduler\<close>, \<open>HPK_Webhook\<close> (\<open>k3s\<close>): the start of the node with its HTTP
    routes and informers, the scheduler and the webhook for services, with what its patch does to a
    service and when it is refused.
  \<^item> \<open>HPK_Home\<close> (\<open>pkg/home\<close>): where configuration, cache and data live.
  \<^item> This theory composes them: creation of a pod, its job, the event and the report.

  \<^bold>\<open>Bounds and fuel\<close>

  The kernel follows at most 40 symbolic links and \<open>filepath.EvalSymlinks\<close> 255, as in Linux and Go; path
  resolution recurses on the links left and the elements left, so no other fuel is needed. The steps of
  the code's backoffs (four, and ten in \<open>volumes.go\<close>) are passed to \<open>retry.OnError\<close>; how often that
  calls is not modelled. The requests of the pause program for its pod are bounded by its timer
  (\<open>attempts\<close>, at most 60). The one loop of the code
  without a bound, the search for a free name in the archive of corrupted pods, is a
  \<open>partial_function\<close> whose result is shown to exist. Queue sizes (20 and 300) are those of the code. Exit codes
  are -1 or a byte; ids and codes are read as 64-bit and stored as 32-bit integers.

  \<^bold>\<open>Not modelled, and why\<close>

  Permissions are not checked by the file system here beyond what \<open>faults\<close> injects (\<open>EPERM\<close> is folded into
  \<open>EACCES\<close>), and there are no hard links. Log lines, tracing and banners are left out. The wrapper of
  \<open>fsnotify\<close>, the rate limiters and the starting of HTTP servers only call libraries.
  \<open>templates_instances.go\<close> is excluded by a build tag, and with the tag the package does not compile. Of
  \<open>pkg/home\<close>, which no other package uses, the defaults of Windows are left out. What the shell
  makes of the generated scripts is not modelled except for the options that \<open>sbatch\<close> reads; the pause
  program that the scripts start is.
\<close>

section \<open>The life of a pod\<close>

lemma exitCode_Ext: "filepath_Ext (c @ ''.exitCode'') = ExtensionExitCode"
  by (simp add: filepath_Ext_def ExtensionExitCode_def)

text \<open>
  C1. The life of a pod through all the parts. \<open>CreatePod\<close> has made the pod and submitted its job; in the
  job the pause program has run the containers, interleaved in any way, until each of them has ended
  and its exit code is recorded; the watcher then sees the exit-code file of a container appear. If
  the description of the pod is still on disk, the handler of the event reports to Kubernetes that
  very pod, \<open>Succeeded\<close> when every container ended with 0 and \<open>Failed\<close> otherwise.
\<close>

theorem pod_lifecycle:
  assumes "CreatePod cf pod y = Ret (p, y')" "s_phase (p_status p) \<in> {Pending, Running, UnknownPhase}"
    and "cf_hpk cf = abs_path root" "list_all name_ok root" "root \<noteq> []"
    and "k = ObjectKeyFromObject pod" "key_ok k" "nonspace (key_namespace k)" "nonspace (key_name k)"
    and "ps_initContainers (p_spec pod) = []" "p_spec q = p_spec pod" "ObjectKeyFromObject q = k"
    and "D = root @ [key_namespace k, key_name k]" "pause_ok D pe q" "places D w"
    and "\<And>c. c \<in> set (ps_containers (p_spec q)) \<Longrightarrow> fs_lookup w (exit_file D c) = None \<and> fs_lookup w (id_file D c) = None"
    and "(pause_step (quiet D) pe q)\<^sup>*\<^sup>* (handleContainers q w) s" "\<And>f. faults (pr_fs s) SysRead f = None"
    and "pr_todo s = []" "\<And>c st. (c, st) \<in> set (pr_procs s) \<Longrightarrow> \<exists>code. st = PFinished code"
    and "LoadPodFromKey (cf_codec cf) (cf_hpk cf) (pr_fs s) k = Ret (Inr p)"
    and "control_name_ok (name @ ''.exitCode'')"
  shows "\<exists>p'. handle_event (cf_hpk cf) (hpk_pod_control (cf_codec cf) (cf_hpk cf)) (pr_fs s)
      (creation (cf_hpk cf) k (name @ ''.exitCode'')) = Ret (Some p') \<and>
    ObjectKeyFromObject p' = k \<and> p_spec p' = p_spec pod \<and>
    s_phase (p_status p') = (if \<forall>(c, st)\<in>set (pr_procs s). st = PFinished 0 then Succeeded else Failed)"
proof -
  have dist: "distinct (map c_name (ps_containers (p_spec pod)))" using assms(11,14) by (simp add: pause_ok_def)
  have p: "p_spec p = p_spec pod" "ObjectKeyFromObject p = k" "pod_ok p"
    using CreatePod_built [OF assms(1)] assms(2,6) dist by (auto simp: pod_built_def split: option.splits)
  have "pod_dir (abs_path root) k = abs_path D"
    using assms(4,7,13) by (simp add: pod_dir_def key_ok_def)
  then have dir: "dir_of (cf_hpk cf) p = pause_pod_dir q"
    using assms(3,14) p(2) by (simp add: dir_of_def pause_ok_def)
  have "\<exists>p'. UpdateStatusFromRuntime (pr_fs s) (cf_hpk cf) p = Ret p' \<and>
    s_phase (p_status p') = (if \<forall>(c, st)\<in>set (pr_procs s). st = PFinished 0 then Succeeded else Failed)"
    by (rule pause_run_final [OF assms(17,14,15)]) (use assms p dir in simp_all)
  then obtain p' where upd: "UpdateStatusFromRuntime (pr_fs s) (cf_hpk cf) p = Ret p'"
    "s_phase (p_status p') = (if \<forall>(c, st)\<in>set (pr_procs s). st = PFinished 0 then Succeeded else Failed)"
    by blast
  moreover have "p_meta p' = p_meta p" "p_spec p' = p_spec p" using UpdateStatus_keeps [OF upd(1) p(3)] by simp_all
  moreover have "handle_event (cf_hpk cf) (hpk_pod_control (cf_codec cf) (cf_hpk cf)) (pr_fs s)
      (creation (cf_hpk cf) k (name @ ''.exitCode'')) = Ret (Some p')"
    using handle_creation [OF assms(4,5,7,8,9,22) _ assms(21) [unfolded assms(3)]] upd(1) assms(3) by (simp add: exitCode_Ext)
  ultimately show ?thesis using p by (auto simp: ObjectKeyFromObject_def)
qed

text \<open>A pod with one container is created, runs to its end with 0 and is reported as succeeded.\<close>

definition life_config :: "codec \<Rightarrow> config" where
  "life_config c = (demo_config c)\<lparr>cf_hpk := abs_path [''h'', ''.hpk'']\<rparr>"

definition life_sys :: sys where
  "life_sys = demo_sys [([''h''], Dir 493), ([''h'', ''.hpk''], Dir 493)] []"

definition life_created :: pod where
  "life_created = job_pod
     \<lparr>p_meta := (p_meta job_pod)\<lparr>om_annotations := [(''workingDirectory'', ''/h''), (''kubeMasterHost'', ''10.0.0.1''), (''containerRegistry'', []),
        (''apptainerBin'', ''apptainer''), (''enableCgroupV2'', ''false''), (''kubeDNS'', ''10.0.0.2''),
        (''cgroupFilePath'', ''/h/.hpk/default/web/job/cgroup.toml''), (''constructorFilePath'', ''/h/.hpk/default/web/job/constructor.sh''),
        (''ipAddressPath'', ''/h/.hpk/default/web/controlfiles/.ip''), (''stdoutPath'', ''/h/.hpk/default/web/logs/.stdout''),
        (''stderrPath'', ''/h/.hpk/default/web/logs/.stderr''), (''sysErrorFilePath'', ''/h/.hpk/default/web/controlfiles/.syserror''),
        (''PauseImage'', ''malvag/pause:1.1.9''), (''pod.hpk/id'', ''slurm://42'')]\<rparr>,
      p_status := (p_status job_pod)\<lparr>s_containerStatuses :=
        [zero_status\<lparr>cs_name := ''m'', cs_image := ''alpine'', cs_imageID := ''/h/.hpk/.images/alpine_latest.sif'', cs_containerID := ''default_web_m''\<rparr>]\<rparr>\<rparr>"

lemma life_run:
  "\<exists>y. CreatePod (life_config (one_codec life_created)) job_pod life_sys = Ret (life_created, y)"
  "s_phase (p_status life_created) = Running"
proof -
  have "(case CreatePod (life_config (one_codec life_created)) job_pod life_sys of
      Ret (p, y) \<Rightarrow> p = life_created \<and> s_phase (p_status p) = Running | Panic m \<Rightarrow> False)" by code_simp
  then show "\<exists>y. CreatePod (life_config (one_codec life_created)) job_pod life_sys = Ret (life_created, y)"
    "s_phase (p_status life_created) = Running" by (auto split: outcome.splits prod.splits)
qed

lemma life_load:
  "LoadPodFromKey (one_codec p) (abs_path [''h'', ''.hpk'']) job_fs3 (ObjectKeyFromObject job_pod) = Ret (Inr p)"
proof -
  have "os_ReadFile job_fs3 (EncodedJSONPath (pod_dir (abs_path [''h'', ''.hpk'']) (ObjectKeyFromObject job_pod))) = Inr ''{pod}''"
    by code_simp
  moreover have "EncodedJSONPath (pod_dir (abs_path [''h'', ''.hpk'']) (ObjectKeyFromObject job_pod)) \<noteq> []" by code_simp
  ultimately show ?thesis by (simp add: LoadPodFromKey_def LoadPodFromFile_def one_codec_def)
qed

theorem pod_lifecycle_witness:
  "\<exists>p'. handle_event (abs_path [''h'', ''.hpk'']) (hpk_pod_control (one_codec life_created) (abs_path [''h'', ''.hpk''])) job_fs3
      (creation (abs_path [''h'', ''.hpk'']) (ObjectKeyFromObject job_pod) ''m.exitCode'') = Ret (Some p') \<and>
    s_phase (p_status p') = Succeeded"
proof -
  obtain y where y: "CreatePod (life_config (one_codec life_created)) job_pod life_sys = Ret (life_created, y)" using life_run(1) by blast
  have cf: "cf_hpk (life_config c) = abs_path [''h'', ''.hpk'']" "cf_codec (life_config c) = c" for c
    by (simp_all add: life_config_def demo_config_def)
  have names: "list_all name_ok [''h'', ''.hpk'']" "key_ok (ObjectKeyFromObject job_pod)"
    "nonspace (key_namespace (ObjectKeyFromObject job_pod))" "nonspace (key_name (ObjectKeyFromObject job_pod))"
    "control_name_ok (''m'' @ ''.exitCode'')" "job_dir = [''h'', ''.hpk''] @ [key_namespace (ObjectKeyFromObject job_pod), key_name (ObjectKeyFromObject job_pod)]"
    by code_simp+
  have load: "LoadPodFromKey (cf_codec (life_config (one_codec life_created))) (cf_hpk (life_config (one_codec life_created)))
      (pr_fs (job_state (PFinished 0) job_fs3)) (ObjectKeyFromObject job_pod) = Ret (Inr life_created)"
    using life_load by (simp add: cf job_state_def)
  have "\<exists>p'. handle_event (cf_hpk (life_config (one_codec life_created))) (hpk_pod_control (cf_codec (life_config (one_codec life_created)))
      (cf_hpk (life_config (one_codec life_created)))) (pr_fs (job_state (PFinished 0) job_fs3))
      (creation (cf_hpk (life_config (one_codec life_created))) (ObjectKeyFromObject job_pod) (''m'' @ ''.exitCode'')) = Ret (Some p') \<and>
    ObjectKeyFromObject p' = ObjectKeyFromObject job_pod \<and> p_spec p' = p_spec job_pod \<and>
    s_phase (p_status p') = (if \<forall>(c, st)\<in>set (pr_procs (job_state (PFinished 0) job_fs3)). st = PFinished 0 then Succeeded else Failed)"
    by (rule pod_lifecycle [OF y _ cf(1) names(1) _ refl names(2-4) _ refl refl names(6) job_pause_ok job_places job_containers job_run _ _ _ load names(5)])
      (simp_all add: life_run(2) job_state_def job_faults job_pod_def demo_pod_def)
  then show ?thesis by (auto simp: cf job_state_def)
qed

end
